theory Spec2Isabelle
  imports Complex_Main
begin

section \<open>Data model\<close>

text \<open>
  The program is \<^verbatim>\<open>2d_plot_diffusion_todo/ddpm.py\<close>: the variance scheduler of a DDPM and
  the wrapper with the forward process, the reverse step, the reverse loop, the training
  loss and save/load. It is written on top of a tensor library. The embedding makes that
  library's values explicit:
  \<^item> a tensor is a shape and its elements in row-major order;
  \<^item> the schedule is built from real numbers and its buffers hold real numbers; the
    elements of every other float tensor are values of \<open>fl\<close>: a finite number, one of
    the two infinities, or NaN, with the arithmetic of IEEE 754 on the special values
    (a square root of a negative number, a division by zero, \<open>0 * inf\<close>, ...). Finite
    results are exact: rounding, overflow and underflow of the machine format are
    outside the model, and zero carries no sign (a zero divisor is the positive zero,
    as every divisor of this program is: a square root, of \<open>1 - 1\<close> when it is zero);
  \<^item> an integer (long) tensor of timesteps is zero- or one-dimensional;
  \<^item> every exception is a value of \<open>error\<close>: \<open>NotImplementedError\<close> is the one
    exception the program raises itself, the others are raised by the tensor library or
    the interpreter on the program's behalf;
  \<^item> the random generator is explicit state; all tensors live on one device, so moving
    a tensor does not change it, but reading the module's device can still raise.
\<close>

datatype error =
    NotImplementedError string
  | TypeError
  | RuntimeError
  | IndexError
  | StopIteration
  | FileNotFoundError
  | OSError
  | PicklingError
  | UnpicklingError

definition ebind :: "error + 'a \<Rightarrow> ('a \<Rightarrow> error + 'b) \<Rightarrow> error + 'b" where
  "ebind r f = (case r of Inl e \<Rightarrow> Inl e | Inr v \<Rightarrow> f v)"

record 'a tensor =
  shape :: "nat list"
  data :: "'a list"

datatype ltensor = L0 int | L1 "int list"

definition wf_tensor :: "'a tensor \<Rightarrow> bool" where
  "wf_tensor a \<longleftrightarrow> length (data a) = prod_list (shape a)"

subsection \<open>Indexing\<close>

text \<open>All multi-indices of a shape, in row-major order, and the flat offset of one.\<close>

fun indices :: "nat list \<Rightarrow> nat list list" where
  "indices [] = [[]]"
| "indices (d # ds) = concat (map (\<lambda>i. map ((#) i) (indices ds)) [0..<d])"

fun ravel :: "nat list \<Rightarrow> nat list \<Rightarrow> nat" where
  "ravel (d # ds) (i # js) = i * prod_list ds + ravel ds js"
| "ravel _ _ = 0"

definition tensor_at :: "'a tensor \<Rightarrow> nat list \<Rightarrow> 'a" where
  "tensor_at a idx = data a ! ravel (shape a) idx"

subsection \<open>Float values\<close>

datatype fl = Fin real | PInf | NInf | NaN

text \<open>The infinity with the sign of a non-zero number; NaN for zero (\<open>0 * inf\<close>, \<open>0 / 0\<close>).\<close>

definition signed_inf :: "real \<Rightarrow> fl" where
  "signed_inf a = (if 0 < a then PInf else if a < 0 then NInf else NaN)"

fun fneg :: "fl \<Rightarrow> fl" where
  "fneg (Fin a) = Fin (- a)"
| "fneg PInf = NInf"
| "fneg NInf = PInf"
| "fneg NaN = NaN"

fun fadd :: "fl \<Rightarrow> fl \<Rightarrow> fl" where
  "fadd (Fin a) (Fin b) = Fin (a + b)"
| "fadd (Fin a) PInf = PInf"
| "fadd (Fin a) NInf = NInf"
| "fadd (Fin a) NaN = NaN"
| "fadd PInf (Fin b) = PInf"
| "fadd PInf PInf = PInf"
| "fadd PInf NInf = NaN"
| "fadd PInf NaN = NaN"
| "fadd NInf (Fin b) = NInf"
| "fadd NInf PInf = NaN"
| "fadd NInf NInf = NInf"
| "fadd NInf NaN = NaN"
| "fadd NaN y = NaN"

definition fsub :: "fl \<Rightarrow> fl \<Rightarrow> fl" where
  "fsub x y = fadd x (fneg y)"

fun fmul :: "fl \<Rightarrow> fl \<Rightarrow> fl" where
  "fmul (Fin a) (Fin b) = Fin (a * b)"
| "fmul (Fin a) PInf = signed_inf a"
| "fmul (Fin a) NInf = signed_inf (- a)"
| "fmul (Fin a) NaN = NaN"
| "fmul PInf (Fin b) = signed_inf b"
| "fmul PInf PInf = PInf"
| "fmul PInf NInf = NInf"
| "fmul PInf NaN = NaN"
| "fmul NInf (Fin b) = signed_inf (- b)"
| "fmul NInf PInf = NInf"
| "fmul NInf NInf = PInf"
| "fmul NInf NaN = NaN"
| "fmul NaN y = NaN"

fun fdiv :: "fl \<Rightarrow> fl \<Rightarrow> fl" where
  "fdiv (Fin a) (Fin b) = (if b = 0 then signed_inf a else Fin (a / b))"
| "fdiv (Fin a) PInf = Fin 0"
| "fdiv (Fin a) NInf = Fin 0"
| "fdiv (Fin a) NaN = NaN"
| "fdiv PInf (Fin b) = (if 0 \<le> b then PInf else NInf)"
| "fdiv PInf PInf = NaN"
| "fdiv PInf NInf = NaN"
| "fdiv PInf NaN = NaN"
| "fdiv NInf (Fin b) = (if 0 \<le> b then NInf else PInf)"
| "fdiv NInf PInf = NaN"
| "fdiv NInf NInf = NaN"
| "fdiv NInf NaN = NaN"
| "fdiv NaN y = NaN"

fun fsqrt :: "fl \<Rightarrow> fl" where
  "fsqrt (Fin a) = (if 0 \<le> a then Fin (sqrt a) else NaN)"
| "fsqrt PInf = PInf"
| "fsqrt NInf = NaN"
| "fsqrt NaN = NaN"

subsection \<open>Elementwise operations and broadcasting\<close>

definition tmap :: "('a \<Rightarrow> 'b) \<Rightarrow> 'a tensor \<Rightarrow> 'b tensor" where
  "tmap f a = \<lparr>shape = shape a, data = map f (data a)\<rparr>"

text \<open>On the schedule's real tensors: \<^verbatim>\<open>c - a\<close> and \<^verbatim>\<open>a ** 2\<close> for a Python scalar \<open>c\<close>.\<close>

definition rsub :: "real \<Rightarrow> real tensor \<Rightarrow> real tensor" where
  "rsub c a = tmap (\<lambda>x. c - x) a"

definition tsquare :: "real tensor \<Rightarrow> real tensor" where
  "tsquare a = tmap (\<lambda>x. x ^ 2) a"

text \<open>On float tensors: \<^verbatim>\<open>a.sqrt()\<close>, \<^verbatim>\<open>c - a\<close> and \<^verbatim>\<open>c / a\<close> for a Python scalar \<open>c\<close>.\<close>

definition tsqrt :: "fl tensor \<Rightarrow> fl tensor" where
  "tsqrt a = tmap fsqrt a"

definition rsubf :: "real \<Rightarrow> fl tensor \<Rightarrow> fl tensor" where
  "rsubf c a = tmap (\<lambda>x. fsub (Fin c) x) a"

definition rdivf :: "real \<Rightarrow> fl tensor \<Rightarrow> fl tensor" where
  "rdivf c a = tmap (\<lambda>x. fdiv (Fin c) x) a"

text \<open>
  Broadcasting of two shapes: the shorter is padded with leading ones; two sizes are
  compatible when they are equal or one of them is 1; otherwise the library raises.
\<close>

definition pad_shape :: "nat \<Rightarrow> nat list \<Rightarrow> nat list" where
  "pad_shape n s = replicate (n - length s) 1 @ s"

fun bdims :: "nat list \<Rightarrow> nat list \<Rightarrow> error + nat list" where
  "bdims [] [] = Inr []"
| "bdims (x # xs) (y # ys) =
     (if x = y \<or> y = 1 then ebind (bdims xs ys) (\<lambda>r. Inr (x # r))
      else if x = 1 then ebind (bdims xs ys) (\<lambda>r. Inr (y # r))
      else Inl RuntimeError)"
| "bdims _ _ = Inl RuntimeError"

definition broadcast_shapes :: "nat list \<Rightarrow> nat list \<Rightarrow> error + nat list" where
  "broadcast_shapes a b =
     (let n = max (length a) (length b) in bdims (pad_shape n a) (pad_shape n b))"

text \<open>The index at which an operand of shape \<open>s\<close> is read for the result index \<open>idx\<close>.\<close>

definition bidx :: "nat list \<Rightarrow> nat list \<Rightarrow> nat list" where
  "bidx s idx = map2 (\<lambda>d i. if d = 1 then 0 else i) s (drop (length idx - length s) idx)"

definition binop :: "('a \<Rightarrow> 'b \<Rightarrow> 'c) \<Rightarrow> 'a tensor \<Rightarrow> 'b tensor \<Rightarrow> error + 'c tensor" where
  "binop f a b =
     ebind (broadcast_shapes (shape a) (shape b)) (\<lambda>s.
       Inr \<lparr>shape = s,
            data = map (\<lambda>idx. f (tensor_at a (bidx (shape a) idx))
                                (tensor_at b (bidx (shape b) idx))) (indices s)\<rparr>)"

definition tmul :: "fl tensor \<Rightarrow> fl tensor \<Rightarrow> error + fl tensor" where
  "tmul = binop fmul"

definition tadd :: "fl tensor \<Rightarrow> fl tensor \<Rightarrow> error + fl tensor" where
  "tadd = binop fadd"

definition tsub :: "fl tensor \<Rightarrow> fl tensor \<Rightarrow> error + fl tensor" where
  "tsub = binop fsub"

definition tdiv :: "fl tensor \<Rightarrow> fl tensor \<Rightarrow> error + fl tensor" where
  "tdiv = binop fdiv"

subsection \<open>Library functions the scheduler calls\<close>

text \<open>
  \<^verbatim>\<open>torch.linspace(start, end, steps)\<close>: \<open>steps\<close> evenly spaced values from \<open>start\<close> to
  \<open>end\<close> inclusive; one step gives \<open>[start]\<close>, a negative number of steps raises.
\<close>

definition linspace :: "real \<Rightarrow> real \<Rightarrow> int \<Rightarrow> error + real tensor" where
  "linspace start stop steps =
     (if steps < 0 then Inl RuntimeError
      else Inr \<lparr>shape = [nat steps],
                data = (if steps = 1 then [start]
                        else map (\<lambda>i. start + real i * ((stop - start) / real_of_int (steps - 1)))
                               [0..<nat steps])\<rparr>)"

text \<open>\<^verbatim>\<open>torch.cumprod(a, dim=0)\<close> of a one-dimensional tensor: the running product.\<close>

fun cumprod_from :: "real \<Rightarrow> real list \<Rightarrow> real list" where
  "cumprod_from acc [] = []"
| "cumprod_from acc (x # xs) = (acc * x) # cumprod_from (acc * x) xs"

definition cumprod :: "real tensor \<Rightarrow> real tensor" where
  "cumprod a = a\<lparr>data := cumprod_from 1 (data a)\<rparr>"

section \<open>The variance scheduler\<close>

record scheduler =
  num_train_timesteps :: int
  timesteps :: "int list"
  betas :: "real tensor"
  alphas :: "real tensor"
  alphas_cumprod :: "real tensor"

text \<open>
  \<^verbatim>\<open>BaseScheduler.__init__\<close>. \<^verbatim>\<open>np.arange(0, T)[::-1]\<close> is \<open>rev [0..T-1]\<close> (empty for
  \<open>T \<le> 0\<close>). Python's \<^verbatim>\<open>beta ** 0.5\<close> is the real square root for \<open>beta \<ge> 0\<close>; for a
  negative \<open>beta\<close> it is a complex number, which \<^verbatim>\<open>torch.linspace\<close> refuses with a
  \<^verbatim>\<open>TypeError\<close>.
\<close>

definition BaseScheduler :: "int \<Rightarrow> real \<Rightarrow> real \<Rightarrow> string \<Rightarrow> error + scheduler" where
  "BaseScheduler T beta_1 beta_T mode =
     (let ts = rev [0..T - 1] in
      ebind (if mode = ''linear'' then linspace beta_1 beta_T T
             else if mode = ''quad'' then
               (if beta_1 < 0 \<or> beta_T < 0 then Inl TypeError
                else ebind (linspace (sqrt beta_1) (sqrt beta_T) T) (\<lambda>r. Inr (tsquare r)))
             else Inl (NotImplementedError (mode @ '' is not implemented.'')))
        (\<lambda>bs. let as = rsub 1 bs; acp = cumprod as in
           Inr \<lparr>num_train_timesteps = T, timesteps = ts,
                betas = bs, alphas = as, alphas_cumprod = acp\<rparr>))"

section \<open>The objects of a run and its state\<close>

text \<open>
  The network is an opaque collaborator: its state (the named tensors of its
  \<^verbatim>\<open>state_dict\<close>, finite numbers), the names among them that are parameters (the others
  are buffers), whether the object can be pickled, and the function it computes from its
  state, a sample and the timesteps; the call may raise.
\<close>

record net =
  net_state :: "(string \<times> real tensor) list"
  net_parameters :: "string list"
  net_picklable :: bool
  net_forward :: "(string \<times> real tensor) list \<Rightarrow> fl tensor \<Rightarrow> ltensor \<Rightarrow> error + fl tensor"

definition net_call :: "net \<Rightarrow> fl tensor \<Rightarrow> ltensor \<Rightarrow> error + fl tensor" where
  "net_call n x t = net_forward n (net_state n) x t"

text \<open>
  A \<^verbatim>\<open>DiffusionModule\<close> object holds two references: its attributes \<^verbatim>\<open>network\<close> and
  \<^verbatim>\<open>var_scheduler\<close> are the addresses of a network object and of a scheduler object.
\<close>

record module =
  network :: nat
  var_scheduler :: nat

text \<open>
  The generator is a sequence of reals that \<^verbatim>\<open>torch.randn\<close> and \<^verbatim>\<open>torch.randn_like\<close>
  consume, and a sequence of naturals that \<^verbatim>\<open>torch.randint\<close> reduces into its range.
\<close>

record rng =
  normal_src :: "nat \<Rightarrow> real"
  int_src :: "nat \<Rightarrow> nat"

text \<open>
  What \<^verbatim>\<open>save\<close> writes: the dictionary with the two objects under \<^verbatim>\<open>hparams\<close> and the
  module's \<^verbatim>\<open>state_dict\<close>. A file holds a copy of the values, not references; a file
  whose writing failed half-way is damaged.
\<close>

record hparams =
  hp_network :: net
  hp_var_scheduler :: scheduler

record checkpoint =
  ck_hparams :: hparams
  ck_state_dict :: "(string \<times> real tensor) list"

datatype stored = Pickled checkpoint | Damaged

text \<open>
  The state of a run: the generator; the network, scheduler and module objects by
  address, the addresses below \<open>w_next\<close> being in use; the files by path and the paths
  that can be written; and whether the library's \<^verbatim>\<open>torch.load\<close> restricts unpickling to
  tensors and plain containers (its \<^verbatim>\<open>weights_only\<close> default, on from PyTorch 2.6). A
  computation takes the state and returns its result, or the exception it raised, with
  the state it leaves behind.
\<close>

record world =
  w_rng :: rng
  w_nets :: "nat \<Rightarrow> net"
  w_scheds :: "nat \<Rightarrow> scheduler"
  w_mods :: "nat \<Rightarrow> module"
  w_next :: nat
  w_files :: "string \<rightharpoonup> stored"
  w_writable :: "string \<Rightarrow> bool"
  w_weights_only :: bool

type_synonym 'a comp = "world \<Rightarrow> (error + 'a) \<times> world"

definition sreturn :: "'a \<Rightarrow> 'a comp" where
  "sreturn v w = (Inr v, w)"

definition lift :: "error + 'a \<Rightarrow> 'a comp" where
  "lift r w = (r, w)"

definition sbind :: "'a comp \<Rightarrow> ('a \<Rightarrow> 'b comp) \<Rightarrow> 'b comp" where
  "sbind c f w = (case c w of (Inl e, w') \<Rightarrow> (Inl e, w') | (Inr v, w') \<Rightarrow> f v w')"

text \<open>The draws of the generator; a standard-normal draw is a finite number.\<close>

definition draw_normal :: "nat list \<Rightarrow> rng \<Rightarrow> fl tensor \<times> rng" where
  "draw_normal shp g =
     (\<lparr>shape = shp, data = map (\<lambda>i. Fin (normal_src g i)) [0..<prod_list shp]\<rparr>,
      g\<lparr>normal_src := \<lambda>i. normal_src g (i + prod_list shp)\<rparr>)"

definition randn :: "nat list \<Rightarrow> fl tensor comp" where
  "randn shp w =
     (Inr (fst (draw_normal shp (w_rng w))), w\<lparr>w_rng := snd (draw_normal shp (w_rng w))\<rparr>)"

definition randn_like :: "'a tensor \<Rightarrow> fl tensor comp" where
  "randn_like x = randn (shape x)"

text \<open>\<^verbatim>\<open>torch.randint(low, high, size=(n,))\<close>: \<open>n\<close> integers in \<open>[low, high)\<close>; raises when
  the range is empty.\<close>

definition randint :: "int \<Rightarrow> int \<Rightarrow> nat \<Rightarrow> int list comp" where
  "randint low high n w =
     (if high \<le> low then (Inl RuntimeError, w)
      else (Inr (map (\<lambda>i. low + int (int_src (w_rng w) i mod nat (high - low))) [0..<n]),
            w\<lparr>w_rng := (w_rng w)\<lparr>int_src := \<lambda>i. int_src (w_rng w) (i + n)\<rparr>\<rparr>))"

text \<open>The attributes of the module object at address \<open>self\<close>, read through its references.\<close>

definition self_network :: "nat \<Rightarrow> world \<Rightarrow> net" where
  "self_network self w = w_nets w (network (w_mods w self))"

definition self_scheduler :: "nat \<Rightarrow> world \<Rightarrow> scheduler" where
  "self_scheduler self w = w_scheds w (var_scheduler (w_mods w self))"

definition get_network :: "nat \<Rightarrow> net comp" where
  "get_network self w = (Inr (self_network self w), w)"

definition get_scheduler :: "nat \<Rightarrow> scheduler comp" where
  "get_scheduler self w = (Inr (self_scheduler self w), w)"

section \<open>The diffusion module\<close>

subsection \<open>extract\<close>

text \<open>The source's \<^verbatim>\<open>extract\<close>; the name is primed here because \<open>extract\<close> is a keyword.\<close>

text \<open>
  \<^verbatim>\<open>torch.gather(input, 0, t)\<close> for a one-dimensional index: the input must be
  one-dimensional too, and every index must lie in \<open>[0, size)\<close>.
\<close>

definition gather :: "'a tensor \<Rightarrow> int list \<Rightarrow> error + 'a tensor" where
  "gather input idx =
     (case shape input of
        [n] \<Rightarrow>
          if list_all (\<lambda>i. 0 \<le> i \<and> i < int n) idx
          then Inr \<lparr>shape = [length idx], data = map (\<lambda>i. data input ! nat i) idx\<rparr>
          else Inl RuntimeError
      | _ \<Rightarrow> Inl RuntimeError)"

text \<open>The elements of a timestep tensor, a zero-dimensional one unsqueezed.\<close>

fun lt_list :: "ltensor \<Rightarrow> int list" where
  "lt_list (L0 i) = [i]"
| "lt_list (L1 js) = js"

text \<open>
  The input is a buffer of the schedule; the scalars gathered from it are the float
  values that the arithmetic of the module continues with.
\<close>

definition extract' :: "real tensor \<Rightarrow> ltensor \<Rightarrow> 'a tensor \<Rightarrow> error + fl tensor" where
  "extract' input t x =
     (let ts = lt_list t in
      ebind (gather input ts) (\<lambda>out.
        Inr \<lparr>shape = length ts # replicate (length (shape x) - 1) 1,
             data = map Fin (data out)\<rparr>))"

subsection \<open>The device\<close>

text \<open>
  \<^verbatim>\<open>next(self.network.parameters()).device\<close>: the device of the first parameter of the
  network; \<^verbatim>\<open>next\<close> raises \<^verbatim>\<open>StopIteration\<close> when the network has no parameter. The
  device itself is not modelled, so the value read is the unit.
\<close>

definition parameters :: "net \<Rightarrow> (string \<times> real tensor) list" where
  "parameters n = filter (\<lambda>(k, v). k \<in> set (net_parameters n)) (net_state n)"

definition device :: "nat \<Rightarrow> unit comp" where
  "device self w =
     (case parameters (self_network self w) of
        [] \<Rightarrow> (Inl StopIteration, w)
      | p # ps \<Rightarrow> (Inr (), w))"

subsection \<open>q_sample\<close>

definition q_sample :: "nat \<Rightarrow> fl tensor \<Rightarrow> ltensor \<Rightarrow> fl tensor option \<Rightarrow> fl tensor comp" where
  "q_sample self x0 t noise =
     sbind (case noise of None \<Rightarrow> randn_like x0 | Some n \<Rightarrow> sreturn n) (\<lambda>nz.
     sbind (get_scheduler self) (\<lambda>s.
       lift (ebind (extract' (alphas_cumprod s) t x0) (\<lambda>alphas_prod_t.
             ebind (tmul (tsqrt alphas_prod_t) x0) (\<lambda>l.
             ebind (tmul (tsqrt (rsubf 1 alphas_prod_t)) nz) (\<lambda>r.
             tadd l r))))))"

subsection \<open>p_sample\<close>

datatype timestep = PyInt int | PyTensor ltensor

text \<open>\<^verbatim>\<open>(t != 0).float().view(-1, *[1]*(len(xt.shape)-1))\<close>\<close>

definition nonzero_mask :: "ltensor \<Rightarrow> 'a tensor \<Rightarrow> fl tensor" where
  "nonzero_mask t xt =
     \<lparr>shape = length (lt_list t) # replicate (length (shape xt) - 1) 1,
      data = map (\<lambda>i. if i \<noteq> 0 then Fin 1 else Fin 0) (lt_list t)\<rparr>"

definition p_sample :: "nat \<Rightarrow> fl tensor \<Rightarrow> timestep \<Rightarrow> fl tensor comp" where
  "p_sample self xt t0 =
     sbind (case t0 of
              PyInt i \<Rightarrow> sbind (device self) (\<lambda>d. sreturn (L1 [i]))
            | PyTensor l \<Rightarrow> sreturn l) (\<lambda>t.
     sbind (get_scheduler self) (\<lambda>s.
     sbind (lift (
        ebind (extract' (alphas_cumprod s) t xt) (\<lambda>alphas_cumprod_t.
        ebind (extract' (alphas s) t xt) (\<lambda>alphas_t.
        ebind (extract' (betas s) t xt) (\<lambda>betas_t.
        ebind (tdiv (rsubf 1 alphas_t) (tsqrt (rsubf 1 alphas_cumprod_t))) (\<lambda>eps_factor.
        Inr (alphas_t, betas_t, eps_factor))))))) (\<lambda>(alphas_t, betas_t, eps_factor).
     sbind (get_network self) (\<lambda>n.
     sbind (lift (net_call n xt t)) (\<lambda>eps_theta.
     sbind (randn_like xt) (\<lambda>noise.
     let nonzero = nonzero_mask t xt in
     lift (
        ebind (tmul eps_factor eps_theta) (\<lambda>scaled.
        ebind (tsub xt scaled) (\<lambda>diff.
        ebind (tmul (rdivf 1 (tsqrt alphas_t)) diff) (\<lambda>mean.
        ebind (tmul (tsqrt betas_t) noise) (\<lambda>sn.
        ebind (tmul nonzero sn) (\<lambda>masked.
        tadd mean masked))))))))))))"

subsection \<open>p_sample_loop\<close>

text \<open>
  \<^verbatim>\<open>for t in reversed(range(T))\<close>: the counter runs down from \<open>T - 1\<close> to \<open>0\<close>; with
  \<open>k + 1\<close> iterations left the timestep is \<open>k\<close>. Each iteration reads the device for
  its timestep tensor, and so does the initial draw.
\<close>

fun reverse_loop :: "nat \<Rightarrow> nat \<Rightarrow> fl tensor \<Rightarrow> fl tensor comp" where
  "reverse_loop self 0 x = sreturn x"
| "reverse_loop self (Suc k) x =
     sbind (device self) (\<lambda>d.
     sbind (p_sample self x (PyTensor (L1 [int k]))) (reverse_loop self k))"

definition p_sample_loop :: "nat \<Rightarrow> nat list \<Rightarrow> fl tensor comp" where
  "p_sample_loop self shp =
     sbind (randn shp) (\<lambda>x0_pred.
     sbind (device self) (\<lambda>d.
     sbind (get_scheduler self) (\<lambda>s.
       reverse_loop self (nat (num_train_timesteps s)) x0_pred)))"

subsection \<open>compute_loss\<close>

text \<open>
  \<^verbatim>\<open>F.mse_loss(input, target)\<close>: the two are broadcast against each other and the
  squared differences averaged into a zero-dimensional tensor; over no element at all
  the mean is \<open>0 / 0\<close>, which is NaN.
\<close>

definition fsum :: "fl list \<Rightarrow> fl" where
  "fsum xs = foldr fadd xs (Fin 0)"

definition mse_loss :: "fl tensor \<Rightarrow> fl tensor \<Rightarrow> error + fl tensor" where
  "mse_loss input target =
     ebind (binop (\<lambda>a b. fmul (fsub a b) (fsub a b)) input target) (\<lambda>d.
       Inr \<lparr>shape = [], data = [fdiv (fsum (data d)) (Fin (real (length (data d))))]\<rparr>)"

definition compute_loss :: "nat \<Rightarrow> fl tensor \<Rightarrow> fl tensor comp" where
  "compute_loss self x0 =
     sbind (lift (case shape x0 of [] \<Rightarrow> Inl IndexError | b # bs \<Rightarrow> Inr b)) (\<lambda>batch_size.
     sbind (get_scheduler self) (\<lambda>s.
     sbind (randint 0 (num_train_timesteps s) batch_size) (\<lambda>t.
     sbind (randn_like x0) (\<lambda>noise.
     sbind (q_sample self x0 (L1 t) (Some noise)) (\<lambda>xt.
     sbind (get_network self) (\<lambda>n.
     sbind (lift (net_call n xt (L1 t))) (\<lambda>pred_noise.
     lift (mse_loss pred_noise noise))))))))"

subsection \<open>save and load\<close>

text \<open>
  \<^verbatim>\<open>state_dict()\<close> lists the network's entries under the prefix \<^verbatim>\<open>network.\<close> and the
  scheduler's three registered buffers; \<^verbatim>\<open>timesteps\<close> is a plain attribute and not part
  of it.
\<close>

definition state_dict :: "net \<Rightarrow> scheduler \<Rightarrow> (string \<times> real tensor) list" where
  "state_dict n s =
     map (\<lambda>(k, v). (''network.'' @ k, v)) (net_state n) @
     [(''var_scheduler.betas'', betas s),
      (''var_scheduler.alphas'', alphas s),
      (''var_scheduler.alphas_cumprod'', alphas_cumprod s)]"

text \<open>
  \<^verbatim>\<open>torch.save\<close> and \<^verbatim>\<open>torch.load\<close> belong to the library and are not part of the
  source; they are modelled by what the library documents. \<^verbatim>\<open>torch.save(dic, path)\<close>
  opens the file, which fails for a path that cannot be written, and pickles the
  dictionary into it; when an object cannot be pickled the file is left damaged.
  \<^verbatim>\<open>torch.load(path)\<close> fails for a missing or damaged file, refuses a dictionary that
  holds module objects when unpickling is restricted, and otherwise returns a new copy
  of the dictionary written: the two objects under \<^verbatim>\<open>hparams\<close> are new objects, at an
  address not in use before. The dictionary returned holds their addresses.
\<close>

definition torch_save :: "checkpoint \<Rightarrow> string \<Rightarrow> unit comp" where
  "torch_save dic file_path w =
     (if \<not> w_writable w file_path then (Inl OSError, w)
      else if \<not> net_picklable (hp_network (ck_hparams dic))
        then (Inl PicklingError, w\<lparr>w_files := (w_files w)(file_path \<mapsto> Damaged)\<rparr>)
      else (Inr (), w\<lparr>w_files := (w_files w)(file_path \<mapsto> Pickled dic)\<rparr>))"

record loaded =
  ld_network :: nat
  ld_var_scheduler :: nat
  ld_state_dict :: "(string \<times> real tensor) list"

definition torch_load :: "string \<Rightarrow> loaded comp" where
  "torch_load file_path w =
     (case w_files w file_path of
        None \<Rightarrow> (Inl FileNotFoundError, w)
      | Some Damaged \<Rightarrow> (Inl RuntimeError, w)
      | Some (Pickled dic) \<Rightarrow>
          if w_weights_only w then (Inl UnpicklingError, w)
          else (Inr \<lparr>ld_network = w_next w, ld_var_scheduler = w_next w,
                     ld_state_dict = ck_state_dict dic\<rparr>,
                w\<lparr>w_nets := (w_nets w)(w_next w := hp_network (ck_hparams dic)),
                  w_scheds := (w_scheds w)(w_next w := hp_var_scheduler (ck_hparams dic)),
                  w_next := Suc (w_next w)\<rparr>))"

definition save :: "nat \<Rightarrow> string \<Rightarrow> unit comp" where
  "save self file_path =
     sbind (get_network self) (\<lambda>n.
     sbind (get_scheduler self) (\<lambda>s.
     let hp = \<lparr>hp_network = n, hp_var_scheduler = s\<rparr>;
         dic = \<lparr>ck_hparams = hp, ck_state_dict = state_dict n s\<rparr>
     in torch_save dic file_path))"

text \<open>
  \<^verbatim>\<open>load_state_dict(sd)\<close> (strict) copies into the objects the module refers to: every
  entry of theirs whose key is in \<open>sd\<close> with the same shape is overwritten; a missing
  key, an unexpected key or a shape mismatch raises after the copying.
\<close>

definition sd_entry :: "(string \<times> real tensor) list \<Rightarrow> string \<Rightarrow> real tensor \<Rightarrow> real tensor" where
  "sd_entry sd k v =
     (case map_of sd k of
        Some w \<Rightarrow> if shape w = shape v then w else v
      | None \<Rightarrow> v)"

definition sd_errors :: "net \<Rightarrow> scheduler \<Rightarrow> (string \<times> real tensor) list \<Rightarrow> bool" where
  "sd_errors n s sd \<longleftrightarrow>
     list_ex (\<lambda>(k, v). case map_of sd k of Some w \<Rightarrow> shape w \<noteq> shape v | None \<Rightarrow> True)
       (state_dict n s)
     \<or> list_ex (\<lambda>k. k \<notin> set (map fst (state_dict n s))) (map fst sd)"

definition load_state_dict :: "nat \<Rightarrow> (string \<times> real tensor) list \<Rightarrow> unit comp" where
  "load_state_dict self sd w =
     (let na = network (w_mods w self); sa = var_scheduler (w_mods w self);
          n = w_nets w na; s = w_scheds w sa;
          n' = n\<lparr>net_state :=
                    map (\<lambda>(k, v). (k, sd_entry sd (''network.'' @ k) v)) (net_state n)\<rparr>;
          s' = s\<lparr>betas := sd_entry sd ''var_scheduler.betas'' (betas s),
                 alphas := sd_entry sd ''var_scheduler.alphas'' (alphas s),
                 alphas_cumprod :=
                   sd_entry sd ''var_scheduler.alphas_cumprod'' (alphas_cumprod s)\<rparr>
      in (if sd_errors n s sd then Inl RuntimeError else Inr (),
          w\<lparr>w_nets := (w_nets w)(na := n'), w_scheds := (w_scheds w)(sa := s')\<rparr>))"

text \<open>The two assignments of \<^verbatim>\<open>load\<close> rebind the attributes of the module object.\<close>

definition set_network :: "nat \<Rightarrow> nat \<Rightarrow> unit comp" where
  "set_network self a w =
     (Inr (), w\<lparr>w_mods := (w_mods w)(self := (w_mods w self)\<lparr>network := a\<rparr>)\<rparr>)"

definition set_var_scheduler :: "nat \<Rightarrow> nat \<Rightarrow> unit comp" where
  "set_var_scheduler self a w =
     (Inr (), w\<lparr>w_mods := (w_mods w)(self := (w_mods w self)\<lparr>var_scheduler := a\<rparr>)\<rparr>)"

definition load :: "nat \<Rightarrow> string \<Rightarrow> unit comp" where
  "load self file_path =
     sbind (torch_load file_path) (\<lambda>dic.
     sbind (set_network self (ld_network dic)) (\<lambda>u.
     sbind (set_var_scheduler self (ld_var_scheduler dic)) (\<lambda>u.
     load_state_dict self (ld_state_dict dic))))"

subsection \<open>The operations of the module\<close>

text \<open>
  A call of a method on the module object at address \<open>self\<close>, and its outcome: the tensor
  returned (none for \<^verbatim>\<open>save\<close> and \<^verbatim>\<open>load\<close>) or the exception raised, and the state the
  call leaves.
\<close>

datatype call =
    QSample nat "fl tensor" ltensor "fl tensor option"
  | PSample nat "fl tensor" timestep
  | PSampleLoop nat "nat list"
  | ComputeLoss nat "fl tensor"
  | Save nat string
  | Load nat string

definition returning :: "'a comp \<Rightarrow> ('a \<Rightarrow> 'b) \<Rightarrow> 'b comp" where
  "returning c f = sbind c (\<lambda>v. sreturn (f v))"

fun exec :: "call \<Rightarrow> fl tensor option comp" where
  "exec (QSample self x0 t noise) = returning (q_sample self x0 t noise) Some"
| "exec (PSample self xt t) = returning (p_sample self xt t) Some"
| "exec (PSampleLoop self shp) = returning (p_sample_loop self shp) Some"
| "exec (ComputeLoss self x0) = returning (compute_loss self x0) Some"
| "exec (Save self file_path) = returning (save self file_path) (\<lambda>u. None)"
| "exec (Load self file_path) = returning (load self file_path) (\<lambda>u. None)"

text \<open>A sequence of calls, stopped by the first exception.\<close>

fun exec_all :: "call list \<Rightarrow> world \<Rightarrow> (error + unit) \<times> world" where
  "exec_all [] w = (Inr (), w)"
| "exec_all (c # cs) w =
     (case exec c w of (Inl e, w') \<Rightarrow> (Inl e, w') | (Inr v, w') \<Rightarrow> exec_all cs w')"

section \<open>The schedule as the specification words it\<close>

text \<open>
  Linear interpolation: the \<open>i\<close>-th of \<open>n\<close> evenly spaced points from \<open>a\<close> to \<open>b\<close>.
  The quadratic schedule interpolates the square roots and squares the result.
\<close>

definition spec_lerp :: "real \<Rightarrow> real \<Rightarrow> nat \<Rightarrow> nat \<Rightarrow> real" where
  "spec_lerp a b n i =
     (if n \<le> 1 then a
      else (1 - real i / real (n - 1)) * a + (real i / real (n - 1)) * b)"

definition spec_betas :: "string \<Rightarrow> real \<Rightarrow> real \<Rightarrow> nat \<Rightarrow> nat \<Rightarrow> real" where
  "spec_betas mode beta_1 beta_T n i =
     (if mode = ''quad'' then (spec_lerp (sqrt beta_1) (sqrt beta_T) n i) ^ 2
      else spec_lerp beta_1 beta_T n i)"

text \<open>The scheduler that construction returns for a tensor of betas.\<close>

definition sched_of :: "int \<Rightarrow> real tensor \<Rightarrow> scheduler" where
  "sched_of T bs = \<lparr>num_train_timesteps = T, timesteps = rev [0..T - 1],
      betas = bs, alphas = rsub 1 bs, alphas_cumprod = cumprod (rsub 1 bs)\<rparr>"

section \<open>Notions the statements use\<close>

text \<open>The tensor of a shape whose element at each index is given by a function.\<close>

definition tabulate :: "nat list \<Rightarrow> (nat list \<Rightarrow> 'a) \<Rightarrow> 'a tensor" where
  "tabulate s g = \<lparr>shape = s, data = map g (indices s)\<rparr>"

text \<open>
  A shape \<open>a\<close> broadcasts to a shape \<open>s\<close> when, aligned at the last dimension, every
  size of \<open>a\<close> is the size of \<open>s\<close> there or is 1.
\<close>

definition bcast_to :: "nat list \<Rightarrow> nat list \<Rightarrow> bool" where
  "bcast_to a s \<longleftrightarrow>
     length a \<le> length s
     \<and> list_all2 (\<lambda>d e. d = e \<or> d = 1) a (drop (length s - length a) s)"

text \<open>
  The shape \<open>[len(t), 1, ..., 1]\<close> in which \<open>extract\<close> returns the scalars gathered for
  the timesteps \<open>t\<close> and the data \<open>x\<close>; the position in the batch of timesteps that
  the element at \<open>idx\<close> of a result reads under broadcasting; and the schedule scalar
  gathered for that element. For an index of the data's own shape the position is the
  leading index, or \<open>0\<close> when a single timestep is broadcast over the batch
  (\<open>row_index\<close>).
\<close>

definition col_shape :: "ltensor \<Rightarrow> 'a tensor \<Rightarrow> nat list" where
  "col_shape t x = length (lt_list t) # replicate (length (shape x) - 1) 1"

definition batch_row :: "ltensor \<Rightarrow> 'a tensor \<Rightarrow> nat list \<Rightarrow> nat" where
  "batch_row t x idx = hd (bidx (col_shape t x) idx)"

definition row_index :: "nat \<Rightarrow> nat list \<Rightarrow> nat" where
  "row_index n idx = (if n = 1 then 0 else hd idx)"

definition gathered :: "real tensor \<Rightarrow> ltensor \<Rightarrow> 'a tensor \<Rightarrow> nat list \<Rightarrow> real" where
  "gathered buf t x idx = data buf ! nat (lt_list t ! batch_row t x idx)"

text \<open>The forward equation, elementwise, every operand read at its broadcast index.\<close>

definition spec_q_sample ::
  "real tensor \<Rightarrow> ltensor \<Rightarrow> fl tensor \<Rightarrow> fl tensor \<Rightarrow> nat list \<Rightarrow> fl" where
  "spec_q_sample acp t x0 noise idx =
     fadd (fmul (fsqrt (Fin (gathered acp t x0 idx))) (tensor_at x0 (bidx (shape x0) idx)))
          (fmul (fsqrt (Fin (1 - gathered acp t x0 idx)))
                (tensor_at noise (bidx (shape noise) idx)))"

text \<open>The reverse step, elementwise: the mask and the posterior sample.\<close>

definition spec_mask :: "ltensor \<Rightarrow> 'a tensor \<Rightarrow> nat list \<Rightarrow> real" where
  "spec_mask t x idx = (if lt_list t ! batch_row t x idx = 0 then 0 else 1)"

definition spec_p_sample ::
  "scheduler \<Rightarrow> ltensor \<Rightarrow> fl tensor \<Rightarrow> fl tensor \<Rightarrow> fl tensor \<Rightarrow> nat list \<Rightarrow> fl" where
  "spec_p_sample s t xt eps noise idx =
     fadd (fmul (fdiv (Fin 1) (fsqrt (Fin (gathered (alphas s) t xt idx))))
                (fsub (tensor_at xt (bidx (shape xt) idx))
                      (fmul (fdiv (Fin (1 - gathered (alphas s) t xt idx))
                                  (fsqrt (Fin (1 - gathered (alphas_cumprod s) t xt idx))))
                            (tensor_at eps (bidx (shape eps) idx)))))
          (fmul (Fin (spec_mask t xt idx))
                (fmul (fsqrt (Fin (gathered (betas s) t xt idx)))
                      (tensor_at noise (bidx (shape noise) idx))))"

text \<open>The same two equations in ordinary arithmetic, for finite operands.\<close>

definition real_q_sample :: "real \<Rightarrow> real \<Rightarrow> real \<Rightarrow> real" where
  "real_q_sample acp x n = sqrt acp * x + sqrt (1 - acp) * n"

definition real_p_sample :: "real \<Rightarrow> real \<Rightarrow> real \<Rightarrow> real \<Rightarrow> real \<Rightarrow> real \<Rightarrow> real \<Rightarrow> real" where
  "real_p_sample a acp b msk x e n =
     (1 / sqrt a) * (x - ((1 - a) / sqrt (1 - acp)) * e) + msk * sqrt b * n"

text \<open>
  The tensor a draw of standard-normal noise returns in a state and the state it leaves;
  the timestep tensor of a timestep argument; the computations of the forward process
  and of the reverse step on the values read from the module.
\<close>

definition fresh_noise :: "nat list \<Rightarrow> world \<Rightarrow> fl tensor" where
  "fresh_noise shp w = fst (draw_normal shp (w_rng w))"

definition after_draw :: "nat list \<Rightarrow> world \<Rightarrow> world" where
  "after_draw shp w = w\<lparr>w_rng := snd (draw_normal shp (w_rng w))\<rparr>"

definition as_tensor :: "timestep \<Rightarrow> ltensor" where
  "as_tensor t0 = (case t0 of PyInt i \<Rightarrow> L1 [i] | PyTensor l \<Rightarrow> l)"

definition has_parameters :: "net \<Rightarrow> bool" where
  "has_parameters n \<longleftrightarrow> parameters n \<noteq> []"

definition forward_chain ::
  "real tensor \<Rightarrow> ltensor \<Rightarrow> fl tensor \<Rightarrow> fl tensor \<Rightarrow> error + fl tensor" where
  "forward_chain acp t x0 nz =
     ebind (extract' acp t x0) (\<lambda>alphas_prod_t.
     ebind (tmul (tsqrt alphas_prod_t) x0) (\<lambda>l.
     ebind (tmul (tsqrt (rsubf 1 alphas_prod_t)) nz) (\<lambda>r.
     tadd l r)))"

definition reverse_factors ::
  "scheduler \<Rightarrow> ltensor \<Rightarrow> fl tensor \<Rightarrow> error + fl tensor \<times> fl tensor \<times> fl tensor" where
  "reverse_factors s t xt =
     ebind (extract' (alphas_cumprod s) t xt) (\<lambda>alphas_cumprod_t.
     ebind (extract' (alphas s) t xt) (\<lambda>alphas_t.
     ebind (extract' (betas s) t xt) (\<lambda>betas_t.
     ebind (tdiv (rsubf 1 alphas_t) (tsqrt (rsubf 1 alphas_cumprod_t))) (\<lambda>eps_factor.
     Inr (alphas_t, betas_t, eps_factor)))))"

definition reverse_chain ::
  "ltensor \<Rightarrow> fl tensor \<Rightarrow> fl tensor \<Rightarrow> fl tensor \<Rightarrow> fl tensor \<Rightarrow> fl tensor \<Rightarrow> fl tensor
     \<Rightarrow> error + fl tensor" where
  "reverse_chain t xt a_t b_t ef eps nz =
     ebind (tmul ef eps) (\<lambda>scaled.
     ebind (tsub xt scaled) (\<lambda>diff.
     ebind (tmul (rdivf 1 (tsqrt a_t)) diff) (\<lambda>mean.
     ebind (tmul (tsqrt b_t) nz) (\<lambda>sn.
     ebind (tmul (nonzero_mask t xt) sn) (\<lambda>masked.
     tadd mean masked)))))"

text \<open>The sizes of the broadcast of two shapes of one length, when they are compatible.\<close>

definition join_dims :: "nat list \<Rightarrow> nat list \<Rightarrow> nat list" where
  "join_dims xs ys = map2 (\<lambda>x y. if x = y \<or> y = 1 then x else y) xs ys"

text \<open>The noise of a forward step: the tensor supplied, or else the fresh draw.\<close>

definition noise_used :: "fl tensor option \<Rightarrow> fl tensor \<Rightarrow> world \<Rightarrow> fl tensor" where
  "noise_used noise x0 w = (case noise of Some n \<Rightarrow> n | None \<Rightarrow> fresh_noise (shape x0) w)"

text \<open>
  The two terms of the reverse step for one element: the posterior mean from the schedule
  scalars \<open>alpha_t\<close> and \<open>alphas_cumprod_t\<close>, the sample and the prediction; and the added
  noise from the mask, \<open>beta_t\<close> and the noise.
\<close>

definition posterior_mean :: "real \<Rightarrow> real \<Rightarrow> fl \<Rightarrow> fl \<Rightarrow> fl" where
  "posterior_mean a acp x e =
     fmul (fdiv (Fin 1) (fsqrt (Fin a)))
          (fsub x (fmul (fdiv (Fin (1 - a)) (fsqrt (Fin (1 - acp)))) e))"

definition added_noise :: "real \<Rightarrow> real \<Rightarrow> fl \<Rightarrow> fl" where
  "added_noise msk b n = fmul (Fin msk) (fmul (fsqrt (Fin b)) n)"

text \<open>
  The reverse loop as the specification words it: \<open>p_sample\<close> applied at each timestep
  of a list, in order, each result the input of the next step. A network keeps shapes
  when a prediction it returns has the shape of the sample it is given (as the
  specification requires of the collaborator), and always returns when it never raises.
\<close>

fun run_steps :: "nat \<Rightarrow> int list \<Rightarrow> fl tensor \<Rightarrow> fl tensor comp" where
  "run_steps self [] x = sreturn x"
| "run_steps self (t # ts) x = sbind (p_sample self x (PyTensor (L1 [t]))) (run_steps self ts)"

definition shape_preserving :: "net \<Rightarrow> bool" where
  "shape_preserving n \<longleftrightarrow> (\<forall>x t r. net_call n x t = Inr r \<longrightarrow> shape r = shape x)"

definition always_returns :: "net \<Rightarrow> bool" where
  "always_returns n \<longleftrightarrow> (\<forall>x t. \<exists>r. net_call n x t = Inr r)"

text \<open>
  The timesteps that \<^verbatim>\<open>torch.randint(0, T, size=(B,))\<close> draws in a state, one for each
  position of the batch and each from its own element of the generator's sequence, and
  the state the draw leaves.
\<close>

definition drawn_timesteps :: "int \<Rightarrow> nat \<Rightarrow> world \<Rightarrow> int list" where
  "drawn_timesteps T B w = map (\<lambda>i. int (int_src (w_rng w) i mod nat T)) [0..<B]"

definition after_randint :: "nat \<Rightarrow> world \<Rightarrow> world" where
  "after_randint B w = w\<lparr>w_rng := (w_rng w)\<lparr>int_src := \<lambda>i. int_src (w_rng w) (i + B)\<rparr>\<rparr>"

text \<open>The mean of the squared differences of two tensors of one shape.\<close>

definition spec_mse :: "fl tensor \<Rightarrow> fl tensor \<Rightarrow> fl" where
  "spec_mse p n =
     fdiv (fsum (map (\<lambda>idx. fmul (fsub (tensor_at p idx) (tensor_at n idx))
                                (fsub (tensor_at p idx) (tensor_at n idx)))
                     (indices (shape n))))
          (Fin (real (prod_list (shape n))))"

subsection \<open>Concrete values for the worked instances\<close>

definition example_net :: net where
  "example_net = \<lparr>net_state = [(''w'', \<lparr>shape = [1], data = [2]\<rparr>)],
                  net_parameters = [''w''],
                  net_picklable = True,
                  net_forward = (\<lambda>st x t. Inr (tmap (\<lambda>v. fmul v (Fin (hd (data (snd (hd st)))))) x))\<rparr>"

definition example_scheduler :: scheduler where
  "example_scheduler = \<lparr>num_train_timesteps = 2, timesteps = [1, 0],
      betas = \<lparr>shape = [2], data = [16 / 25, 3 / 4]\<rparr>,
      alphas = \<lparr>shape = [2], data = [9 / 25, 1 / 4]\<rparr>,
      alphas_cumprod = \<lparr>shape = [2], data = [9 / 25, 9 / 100]\<rparr>\<rparr>"

definition example_rng :: rng where
  "example_rng = \<lparr>normal_src = (\<lambda>i. real i), int_src = (\<lambda>i. i)\<rparr>"

definition example_x :: "fl tensor" where
  "example_x = \<lparr>shape = [2, 1], data = [Fin 4, Fin 9]\<rparr>"

text \<open>
  A state with one module object, at address 0, that refers to the network and the
  scheduler at address 0.
\<close>

definition example_world :: world where
  "example_world =
     \<lparr>w_rng = example_rng, w_nets = (\<lambda>a. example_net), w_scheds = (\<lambda>a. example_scheduler),
      w_mods = (\<lambda>a. \<lparr>network = 0, var_scheduler = 0\<rparr>), w_next = 1,
      w_files = Map.empty, w_writable = (\<lambda>p. True), w_weights_only = False\<rparr>"

text \<open>The scheduler that construction returns for \<open>T = 2\<close>, \<open>beta_1 = -1/2\<close>, \<open>beta_T = 1/2\<close>.\<close>

definition negative_beta_scheduler :: scheduler where
  "negative_beta_scheduler = \<lparr>num_train_timesteps = 2, timesteps = [1, 0],
      betas = \<lparr>shape = [2], data = [- (1 / 2), 1 / 2]\<rparr>,
      alphas = \<lparr>shape = [2], data = [3 / 2, 1 / 2]\<rparr>,
      alphas_cumprod = \<lparr>shape = [2], data = [3 / 2, 3 / 4]\<rparr>\<rparr>"

text \<open>A network whose prediction has two rows whatever the sample.\<close>

definition widening_net :: net where
  "widening_net = \<lparr>net_state = [], net_parameters = [], net_picklable = True,
                   net_forward = (\<lambda>st x t. Inr \<lparr>shape = [2, 1], data = [Fin 0, Fin 0]\<rparr>)\<rparr>"

text \<open>The example state with a generator whose normal draws are all zero.\<close>

definition quiet_world :: world where
  "quiet_world = example_world\<lparr>w_rng := \<lparr>normal_src = (\<lambda>i. 0), int_src = (\<lambda>i. i)\<rparr>\<rparr>"

section \<open>Lemmas on the schedule\<close>

lemma length_cumprod_from: "length (cumprod_from acc xs) = length xs"
  by (induction xs arbitrary: acc) auto

lemma cumprod_from_nth:
  "i < length xs \<Longrightarrow> cumprod_from acc xs ! i = acc * prod_list (take (Suc i) xs)"
proof (induction xs arbitrary: acc i)
  case Nil
  then show ?case by simp
next
  case (Cons x xs)
  then show ?case by (cases i) (simp_all add: mult.assoc)
qed

lemma cumprod_from_bounds:
  "0 < acc \<Longrightarrow> list_all (\<lambda>x. 0 < x \<and> x \<le> 1) xs \<Longrightarrow>
     list_all (\<lambda>y. 0 < y \<and> y \<le> acc) (cumprod_from acc xs)"
proof (induction xs arbitrary: acc)
  case Nil
  then show ?case by simp
next
  case (Cons x xs)
  have px: "0 < acc * x" using Cons.prems by simp
  have le: "acc * x \<le> acc" using Cons.prems by (simp add: mult_left_le)
  have "list_all (\<lambda>y. 0 < y \<and> y \<le> acc * x) (cumprod_from (acc * x) xs)"
    using Cons.IH [OF px] Cons.prems by simp
  then have "list_all (\<lambda>y. 0 < y \<and> y \<le> acc) (cumprod_from (acc * x) xs)"
    using le by (auto simp: list_all_iff)
  then show ?case using px le by simp
qed

lemma cumprod_from_nonincreasing:
  "0 < acc \<Longrightarrow> list_all (\<lambda>x. 0 < x \<and> x \<le> 1) xs \<Longrightarrow>
     sorted_wrt (\<lambda>x y. y \<le> x) (cumprod_from acc xs)"
proof (induction xs arbitrary: acc)
  case Nil
  then show ?case by simp
next
  case (Cons x xs)
  have px: "0 < acc * x" using Cons.prems by simp
  have "list_all (\<lambda>y. 0 < y \<and> y \<le> acc * x) (cumprod_from (acc * x) xs)"
    using cumprod_from_bounds [OF px] Cons.prems by simp
  then show ?case using Cons.IH [OF px] Cons.prems by (auto simp: list_all_iff)
qed

lemma cumprod_from_strict_bounds:
  "0 < acc \<Longrightarrow> list_all (\<lambda>x. 0 < x \<and> x < 1) xs \<Longrightarrow>
     list_all (\<lambda>y. 0 < y \<and> y < acc) (cumprod_from acc xs)"
proof (induction xs arbitrary: acc)
  case Nil
  then show ?case by simp
next
  case (Cons x xs)
  have px: "0 < acc * x" using Cons.prems by simp
  have lt: "acc * x < acc" using Cons.prems by simp
  have "list_all (\<lambda>y. 0 < y \<and> y < acc * x) (cumprod_from (acc * x) xs)"
    using Cons.IH [OF px] Cons.prems by simp
  then have "list_all (\<lambda>y. 0 < y \<and> y < acc) (cumprod_from (acc * x) xs)"
    using lt by (auto simp: list_all_iff)
  then show ?case using px lt by simp
qed

lemma cumprod_from_decreasing:
  "0 < acc \<Longrightarrow> list_all (\<lambda>x. 0 < x \<and> x < 1) xs \<Longrightarrow>
     sorted_wrt (\<lambda>x y. y < x) (cumprod_from acc xs)"
proof (induction xs arbitrary: acc)
  case Nil
  then show ?case by simp
next
  case (Cons x xs)
  have px: "0 < acc * x" using Cons.prems by simp
  have lt: "acc * x < acc" using Cons.prems by simp
  have "list_all (\<lambda>y. 0 < y \<and> y < acc * x) (cumprod_from (acc * x) xs)"
    using cumprod_from_strict_bounds [OF px] Cons.prems by simp
  then show ?case using Cons.IH [OF px] Cons.prems lt by (auto simp: list_all_iff)
qed

lemma linspace_ok:
  "0 \<le> T \<Longrightarrow> \<exists>r. linspace a b T = Inr r \<and> shape r = [nat T] \<and> length (data r) = nat T
      \<and> (\<forall>i<nat T. data r ! i = spec_lerp a b (nat T) i)"
proof -
  assume T: "0 \<le> T"
  let ?r = "\<lparr>shape = [nat T],
             data = (if T = 1 then [a]
                     else map (\<lambda>i. a + real i * ((b - a) / real_of_int (T - 1))) [0..<nat T])\<rparr>"
  have eq: "linspace a b T = Inr ?r" using T by (simp add: linspace_def)
  have len: "length (data ?r) = nat T" by simp
  have nth: "data ?r ! i = spec_lerp a b (nat T) i" if i: "i < nat T" for i
  proof (cases "T = 1")
    case True
    then show ?thesis using i by (simp add: spec_lerp_def)
  next
    case False
    then have gt: "1 < nat T" using i by linarith
    have conv: "real_of_int (T - 1) = real (nat T - 1)" using gt by (simp add: of_nat_diff)
    have pos: "0 < real (nat T - 1)" using gt by simp
    have "a + real i * ((b - a) / real (nat T - 1))
          = (1 - real i / real (nat T - 1)) * a + (real i / real (nat T - 1)) * b"
      by (simp add: algebra_simps diff_divide_distrib)
    moreover have "\<not> nat T \<le> 1" using gt by simp
    moreover have "data ?r ! i = a + real i * ((b - a) / real (nat T - 1))"
      using False i conv by simp
    ultimately show ?thesis by (simp only: spec_lerp_def if_False)
  qed
  show ?thesis using eq len nth by (intro exI [of _ ?r]) simp
qed

lemma linspace_eq:
  assumes "0 \<le> T"
  shows "linspace a b T = Inr \<lparr>shape = [nat T], data = map (spec_lerp a b (nat T)) [0..<nat T]\<rparr>"
proof -
  obtain r where r: "linspace a b T = Inr r" "shape r = [nat T]" "length (data r) = nat T"
    "\<forall>i<nat T. data r ! i = spec_lerp a b (nat T) i"
    using linspace_ok [OF assms] by blast
  have "data r = map (spec_lerp a b (nat T)) [0..<nat T]"
    using r(3,4) by (intro nth_equalityI) simp_all
  then have "r = \<lparr>shape = [nat T], data = map (spec_lerp a b (nat T)) [0..<nat T]\<rparr>"
    using r(2) by simp
  then show ?thesis using r(1) by simp
qed

lemma spec_betas_linear: "spec_betas ''linear'' b1 bT n = spec_lerp b1 bT n"
  by (rule ext) (simp add: spec_betas_def)

lemma spec_betas_quad:
  "map (spec_betas ''quad'' b1 bT n) xs = map (\<lambda>x. x\<^sup>2) (map (spec_lerp (sqrt b1) (sqrt bT) n) xs)"
  by (simp add: spec_betas_def)

lemma BaseScheduler_eq:
  assumes "0 \<le> T"
    and "mode = ''linear'' \<or> mode = ''quad'' \<and> 0 \<le> beta_1 \<and> 0 \<le> beta_T"
  shows "BaseScheduler T beta_1 beta_T mode =
    Inr (sched_of T \<lparr>shape = [nat T], data = map (spec_betas mode beta_1 beta_T (nat T)) [0..<nat T]\<rparr>)"
  using assms
  by (auto simp: BaseScheduler_def linspace_eq ebind_def Let_def sched_of_def spec_betas_linear
      spec_betas_quad tsquare_def tmap_def)

lemma spec_lerp_bounds:
  assumes "a \<le> b" and "i < n"
  shows "a \<le> spec_lerp a b n i \<and> spec_lerp a b n i \<le> b"
proof (cases "n \<le> 1")
  case True
  then show ?thesis using assms by (simp add: spec_lerp_def)
next
  case False
  define w where "w = real i / real (n - 1)"
  have w: "0 \<le> w" "w \<le> 1" using False assms(2) by (simp_all add: w_def)
  have eq: "spec_lerp a b n i = a + w * (b - a)"
    using False by (simp add: spec_lerp_def w_def algebra_simps diff_divide_distrib)
  have "0 \<le> w * (b - a)" using w assms(1) by simp
  moreover have "w * (b - a) \<le> 1 * (b - a)" using w assms(1) by (intro mult_right_mono) simp_all
  ultimately show ?thesis using eq by simp
qed

lemma spec_lerp_mono:
  assumes "a \<le> b" and "i \<le> j"
  shows "spec_lerp a b n i \<le> spec_lerp a b n j"
proof (cases "n \<le> 1")
  case True
  then show ?thesis by (simp add: spec_lerp_def)
next
  case False
  have "real i / real (n - 1) \<le> real j / real (n - 1)"
    using assms(2) by (simp add: divide_right_mono)
  then have "real i / real (n - 1) * (b - a) \<le> real j / real (n - 1) * (b - a)"
    using assms(1) by (intro mult_right_mono) simp_all
  moreover have "spec_lerp a b n k = a + real k / real (n - 1) * (b - a)" for k
    using False by (simp add: spec_lerp_def algebra_simps diff_divide_distrib)
  ultimately show ?thesis by simp
qed

lemma spec_betas_bounds:
  assumes "0 \<le> beta_1" and "beta_1 \<le> beta_T" and "i < n"
  shows "beta_1 \<le> spec_betas mode beta_1 beta_T n i \<and> spec_betas mode beta_1 beta_T n i \<le> beta_T"
proof (cases "mode = ''quad''")
  case False
  then show ?thesis using spec_lerp_bounds [OF assms(2,3)] by (simp add: spec_betas_def)
next
  case True
  let ?x = "spec_lerp (sqrt beta_1) (sqrt beta_T) n i"
  have sq: "sqrt beta_1 \<le> sqrt beta_T" using assms(2) by simp
  have b: "sqrt beta_1 \<le> ?x" "?x \<le> sqrt beta_T" using spec_lerp_bounds [OF sq assms(3)] by simp_all
  have nn: "0 \<le> sqrt beta_1" using assms(1) by simp
  have xnn: "0 \<le> ?x" using b(1) nn by linarith
  have "(sqrt beta_1)\<^sup>2 \<le> ?x\<^sup>2" using b(1) nn by (rule power_mono)
  moreover have "?x\<^sup>2 \<le> (sqrt beta_T)\<^sup>2" using b(2) xnn by (rule power_mono)
  ultimately show ?thesis using True assms(1,2) by (simp add: spec_betas_def)
qed

lemma spec_betas_mono:
  assumes "0 \<le> beta_1" and "beta_1 \<le> beta_T" and "i \<le> j" and "i < n"
  shows "spec_betas mode beta_1 beta_T n i \<le> spec_betas mode beta_1 beta_T n j"
proof (cases "mode = ''quad''")
  case False
  then show ?thesis using spec_lerp_mono [OF assms(2,3)] by (simp add: spec_betas_def)
next
  case True
  have sq: "sqrt beta_1 \<le> sqrt beta_T" using assms(2) by simp
  have "0 \<le> sqrt beta_1" using assms(1) by simp
  then have "0 \<le> spec_lerp (sqrt beta_1) (sqrt beta_T) n i"
    using spec_lerp_bounds [OF sq assms(4)] by linarith
  then have "(spec_lerp (sqrt beta_1) (sqrt beta_T) n i)\<^sup>2
     \<le> (spec_lerp (sqrt beta_1) (sqrt beta_T) n j)\<^sup>2"
    using spec_lerp_mono [OF sq assms(3)] by (intro power_mono) simp_all
  then show ?thesis using True by (simp add: spec_betas_def)
qed

lemma sorted_spec_betas:
  assumes "0 \<le> beta_1" and "beta_1 \<le> beta_T"
  shows "sorted (map (spec_betas mode beta_1 beta_T n) [0..<n])"
  using spec_betas_mono [OF assms] by (simp add: sorted_iff_nth_mono)

lemma sched_of_simps:
  "betas (sched_of T bs) = bs" "alphas (sched_of T bs) = rsub 1 bs"
  "alphas_cumprod (sched_of T bs) = cumprod (rsub 1 bs)"
  "timesteps (sched_of T bs) = rev [0..T - 1]" "num_train_timesteps (sched_of T bs) = T"
  by (simp_all add: sched_of_def)

lemma rsub_simps: "shape (rsub c a) = shape a" "data (rsub c a) = map (\<lambda>x. c - x) (data a)"
  by (simp_all add: rsub_def tmap_def)

lemma cumprod_simps: "shape (cumprod a) = shape a" "data (cumprod a) = cumprod_from 1 (data a)"
  by (simp_all add: cumprod_def)

lemma alphas_range:
  assumes "0 \<le> beta_1" "beta_1 \<le> beta_T" "beta_T < 1"
  shows "list_all (\<lambda>x. 0 < x \<and> x \<le> 1)
           (map (\<lambda>x. 1 - x) (map (spec_betas mode beta_1 beta_T n) [0..<n]))"
proof -
  have "0 < 1 - spec_betas mode beta_1 beta_T n i \<and> 1 - spec_betas mode beta_1 beta_T n i \<le> 1"
    if "i < n" for i
    using spec_betas_bounds [OF assms(1,2) that, of mode] assms(1,3) by linarith
  then show ?thesis by (simp add: list_all_iff)
qed

lemma alphas_strict_range:
  assumes "0 < beta_1" "beta_1 \<le> beta_T" "beta_T < 1"
  shows "list_all (\<lambda>x. 0 < x \<and> x < 1)
           (map (\<lambda>x. 1 - x) (map (spec_betas mode beta_1 beta_T n) [0..<n]))"
proof -
  have nn: "0 \<le> beta_1" using assms(1) by simp
  have "0 < 1 - spec_betas mode beta_1 beta_T n i \<and> 1 - spec_betas mode beta_1 beta_T n i < 1"
    if "i < n" for i
    using spec_betas_bounds [OF nn assms(2) that, of mode] assms(1,3) by linarith
  then show ?thesis by (simp add: list_all_iff)
qed

lemma sorted_spec_betas_gen:
  assumes "beta_1 \<le> beta_T" and "mode = ''quad'' \<longrightarrow> 0 \<le> beta_1"
  shows "sorted (map (spec_betas mode beta_1 beta_T n) [0..<n])"
proof (cases "mode = ''quad''")
  case True
  then show ?thesis using sorted_spec_betas [of beta_1 beta_T mode n] assms by simp
next
  case False
  have "spec_betas mode beta_1 beta_T n i \<le> spec_betas mode beta_1 beta_T n j" if "i \<le> j" for i j
    using spec_lerp_mono [OF assms(1) that] False by (simp add: spec_betas_def)
  then show ?thesis by (simp add: sorted_iff_nth_mono)
qed

lemma cumprod_from_weak_bounds:
  "0 \<le> acc \<Longrightarrow> list_all (\<lambda>x. 0 \<le> x \<and> x \<le> 1) xs \<Longrightarrow>
     list_all (\<lambda>y. 0 \<le> y \<and> y \<le> acc) (cumprod_from acc xs)"
proof (induction xs arbitrary: acc)
  case Nil
  then show ?case by simp
next
  case (Cons x xs)
  have px: "0 \<le> acc * x" using Cons.prems by simp
  have le: "acc * x \<le> acc" using Cons.prems by (simp add: mult_left_le)
  have "list_all (\<lambda>y. 0 \<le> y \<and> y \<le> acc * x) (cumprod_from (acc * x) xs)"
    using Cons.IH [OF px] Cons.prems by simp
  then have "list_all (\<lambda>y. 0 \<le> y \<and> y \<le> acc) (cumprod_from (acc * x) xs)"
    using le by (auto simp: list_all_iff)
  then show ?case using px le by simp
qed

lemma cumprod_from_weak_nonincreasing:
  "0 \<le> acc \<Longrightarrow> list_all (\<lambda>x. 0 \<le> x \<and> x \<le> 1) xs \<Longrightarrow>
     sorted_wrt (\<lambda>x y. y \<le> x) (cumprod_from acc xs)"
proof (induction xs arbitrary: acc)
  case Nil
  then show ?case by simp
next
  case (Cons x xs)
  have px: "0 \<le> acc * x" using Cons.prems by simp
  have "list_all (\<lambda>y. 0 \<le> y \<and> y \<le> acc * x) (cumprod_from (acc * x) xs)"
    using cumprod_from_weak_bounds [OF px] Cons.prems by simp
  then show ?case using Cons.IH [OF px] Cons.prems by (auto simp: list_all_iff)
qed

lemma alphas_weak_range:
  assumes "0 \<le> beta_1" "beta_1 \<le> beta_T" "beta_T \<le> 1"
  shows "list_all (\<lambda>x. 0 \<le> x \<and> x \<le> 1)
           (map (\<lambda>x. 1 - x) (map (spec_betas mode beta_1 beta_T n) [0..<n]))"
proof -
  have "0 \<le> 1 - spec_betas mode beta_1 beta_T n i \<and> 1 - spec_betas mode beta_1 beta_T n i \<le> 1"
    if "i < n" for i
    using spec_betas_bounds [OF assms(1,2) that, of mode] assms(1,3) by linarith
  then show ?thesis by (simp add: list_all_iff)
qed

lemma BaseScheduler_Inr:
  assumes "BaseScheduler T beta_1 beta_T mode = Inr s"
  shows "0 \<le> T \<and> (mode = ''linear'' \<or> mode = ''quad'' \<and> 0 \<le> beta_1 \<and> 0 \<le> beta_T)"
  using assms
  by (auto simp: BaseScheduler_def linspace_def ebind_def Let_def split: if_splits sum.splits)

section \<open>Lemmas on indexing and broadcasting\<close>

lemma length_indices: "length (indices s) = prod_list s"
proof (induction s)
  case Nil
  then show ?case by simp
next
  case (Cons d ds)
  have "length (concat (map (\<lambda>i. map ((#) i) (indices ds)) [0..<d])) = d * prod_list ds"
    using Cons.IH by (induction d) simp_all
  then show ?case by simp
qed

lemma concat_blocks: "concat (map (\<lambda>i. map (\<lambda>k. i * p + k) [0..<p]) [0..<d]) = [0..<d * p]"
proof (induction d)
  case 0
  then show ?case by simp
next
  case (Suc d)
  have "map (\<lambda>k. d * p + k) [0..<p] = [d * p..<d * p + p]"
    using map_add_upt [of "d * p" p] by (simp add: add.commute)
  moreover have "[0..<d * p + p] = [0..<d * p] @ [d * p..<d * p + p]"
    by (rule upt_add_eq_append) simp
  ultimately show ?case using Suc.IH by (simp add: add.commute)
qed

lemma ravel_indices: "map (ravel s) (indices s) = [0..<prod_list s]"
proof (induction s)
  case Nil
  then show ?case by simp
next
  case (Cons d ds)
  have "map (ravel (d # ds)) (indices (d # ds))
      = concat (map (\<lambda>i. map (\<lambda>js. i * prod_list ds + ravel ds js) (indices ds)) [0..<d])"
    by (simp add: map_concat comp_def)
  also have "\<dots> = concat (map (\<lambda>i. map (\<lambda>k. i * prod_list ds + k) (map (ravel ds) (indices ds))) [0..<d])"
    by (simp add: comp_def)
  also have "\<dots> = [0..<d * prod_list ds]"
    unfolding Cons.IH by (rule concat_blocks)
  finally show ?case by simp
qed

lemma indices_nth_ravel:
  assumes "idx \<in> set (indices s)"
  shows "ravel s idx < prod_list s \<and> indices s ! ravel s idx = idx"
proof -
  obtain k where k: "k < length (indices s)" "indices s ! k = idx"
    using assms by (auto simp: in_set_conv_nth)
  have "ravel s idx = map (ravel s) (indices s) ! k" using k by simp
  also have "\<dots> = k" using k(1) by (simp add: ravel_indices length_indices)
  finally show ?thesis using k by (simp add: length_indices)
qed

lemma set_indices_Cons:
  "set (indices (d # ds)) = (\<Union>x\<in>{0..<d}. (#) x ` set (indices ds))"
  by simp

lemma cons_mem_indices:
  "i # js \<in> set (indices (d # ds)) \<longleftrightarrow> i < d \<and> js \<in> set (indices ds)"
  unfolding set_indices_Cons by auto

lemma nil_mem_indices: "[] \<notin> set (indices (d # ds))"
  unfolding set_indices_Cons by auto

lemma set_indices: "idx \<in> set (indices s) \<longleftrightarrow> list_all2 (<) idx s"
proof (induction s arbitrary: idx)
  case Nil
  show ?case by simp
next
  case step: (Cons d ds)
  show ?case
  proof (cases idx)
    case Nil
    then show ?thesis using nil_mem_indices [of d ds] by (simp del: indices.simps)
  next
    case (Cons i js)
    have "i # js \<in> set (indices (d # ds)) \<longleftrightarrow> i < d \<and> list_all2 (<) js ds"
      unfolding cons_mem_indices step.IH ..
    then show ?thesis unfolding Cons by (simp del: indices.simps)
  qed
qed

lemma shape_tabulate: "shape (tabulate s g) = s"
  by (simp add: tabulate_def)

lemma tensor_at_tabulate:
  "idx \<in> set (indices s) \<Longrightarrow> tensor_at (tabulate s g) idx = g idx"
  using indices_nth_ravel [of idx s] by (simp add: tabulate_def tensor_at_def length_indices)

lemma tabulate_cong:
  "(\<And>idx. idx \<in> set (indices s) \<Longrightarrow> g idx = h idx) \<Longrightarrow> tabulate s g = tabulate s h"
  by (simp add: tabulate_def)

lemma wf_tabulate: "wf_tensor (tabulate s g)"
  by (simp add: tabulate_def wf_tensor_def length_indices)

lemma binop_tabulate:
  "broadcast_shapes (shape a) (shape b) = Inr s \<Longrightarrow>
   binop f a b = Inr (tabulate s (\<lambda>idx. f (tensor_at a (bidx (shape a) idx))
                                         (tensor_at b (bidx (shape b) idx))))"
  by (simp add: binop_def ebind_def tabulate_def)

lemma bdims_same: "bdims s s = Inr s"
  by (induction s) (simp_all add: ebind_def)

lemma broadcast_shapes_same: "broadcast_shapes s s = Inr s"
  by (simp add: broadcast_shapes_def pad_shape_def bdims_same)

lemma bdims_step_left:
  "bdims xs ds = Inr ds \<Longrightarrow> bdims (Suc 0 # xs) (d # ds) = Inr (d # ds)"
proof (cases "d = Suc 0")
  case True
  assume "bdims xs ds = Inr ds"
  then show ?thesis unfolding True by (simp add: ebind_def)
next
  case False
  assume a: "bdims xs ds = Inr ds"
  have "Suc 0 \<noteq> d" using False by simp
  then show ?thesis using False a by (simp add: ebind_def)
qed

lemma bdims_step_right:
  "bdims ds xs = Inr ds \<Longrightarrow> bdims (d # ds) (Suc 0 # xs) = Inr (d # ds)"
  by (simp add: ebind_def)

lemma bdims_ones_left: "bdims (replicate (length ds) (Suc 0)) ds = Inr ds"
  by (induction ds) (simp_all add: bdims_step_left del: bdims.simps(2))

lemma bdims_ones_right: "bdims ds (replicate (length ds) (Suc 0)) = Inr ds"
  by (induction ds) (simp_all add: bdims_step_right del: bdims.simps(2))

lemma pad_shape_same: "length s = n \<Longrightarrow> pad_shape n s = s"
  by (simp add: pad_shape_def)

lemma broadcast_shapes_col_left:
  assumes "length ds = k" and "n = b \<or> n = 1"
  shows "broadcast_shapes (n # replicate k 1) (b # ds) = Inr (b # ds)"
proof -
  have tl: "bdims (replicate k (Suc 0)) ds = Inr ds"
    using bdims_ones_left [of ds] assms(1) by simp
  have "bdims (n # replicate k (Suc 0)) (b # ds) = Inr (b # ds)"
  proof (cases "n = b")
    case True
    then show ?thesis using tl by (simp add: ebind_def)
  next
    case False
    then have "n = Suc 0" using assms(2) by simp
    then show ?thesis using bdims_step_left [OF tl] by simp
  qed
  then show ?thesis
    using assms(1) by (simp add: broadcast_shapes_def pad_shape_same del: bdims.simps)
qed

lemma broadcast_shapes_col_right:
  assumes "length ds = k" and "n = b \<or> n = 1"
  shows "broadcast_shapes (b # ds) (n # replicate k 1) = Inr (b # ds)"
proof -
  have tl: "bdims ds (replicate k (Suc 0)) = Inr ds"
    using bdims_ones_right [of ds] assms(1) by simp
  have "bdims (b # ds) (n # replicate k (Suc 0)) = Inr (b # ds)"
  proof (cases "n = b")
    case True
    then show ?thesis using tl by (simp add: ebind_def)
  next
    case False
    then have "n = Suc 0" using assms(2) by simp
    then show ?thesis using bdims_step_right [OF tl] by simp
  qed
  then show ?thesis
    using assms(1) by (simp add: broadcast_shapes_def pad_shape_same del: bdims.simps)
qed

lemma bidx_same: "idx \<in> set (indices s) \<Longrightarrow> bidx s idx = idx"
proof -
  assume "idx \<in> set (indices s)"
  then have "list_all2 (<) idx s" by (simp add: set_indices)
  then have "map2 (\<lambda>d i. if d = 1 then 0 else i) s idx = idx"
    by (induction idx s rule: list_all2_induct) auto
  moreover have "length idx = length s"
    using \<open>list_all2 (<) idx s\<close> by (rule list_all2_lengthD)
  ultimately show ?thesis by (simp add: bidx_def)
qed

lemma map2_ones:
  "map2 (\<lambda>d i. if d = Suc 0 then 0 else i) (replicate (length js) (Suc 0)) js
     = replicate (length js) (0::nat)"
  by (induction js) simp_all

lemma bidx_col:
  "length js = k \<Longrightarrow> bidx (n # replicate k 1) (i # js) = (if n = 1 then 0 else i) # replicate k 0"
  using map2_ones [of js] by (auto simp: bidx_def)

lemma prod_list_ones: "prod_list (replicate k (Suc 0)) = Suc 0"
  by (induction k) simp_all

lemma ravel_col: "ravel (n # replicate k 1) (j # replicate k 0) = j"
  by (induction k arbitrary: n j) (simp_all add: prod_list_ones)

lemma tensor_at_col:
  assumes "shape c = n # replicate k 1" and "length js = k"
  shows "tensor_at c (bidx (shape c) (i # js)) = data c ! (if n = 1 then 0 else i)"
proof -
  have "bidx (shape c) (i # js) = (if n = 1 then 0 else i) # replicate k 0"
    using assms bidx_col [of js k n i] by simp
  then show ?thesis using assms(1) ravel_col [of n k "if n = 1 then 0 else i"]
    by (simp add: tensor_at_def del: ravel.simps)
qed

lemma indices_Cons_elim:
  assumes "idx \<in> set (indices (b # ds))"
  obtains i js where "idx = i # js" "i < b" "js \<in> set (indices ds)" "length js = length ds"
proof -
  have l: "list_all2 (<) idx (b # ds)" using assms by (simp only: set_indices)
  then obtain i js where idx: "idx = i # js" by (cases idx) auto
  have "i < b" "list_all2 (<) js ds" using l unfolding idx by simp_all
  moreover have "js \<in> set (indices ds)" using \<open>list_all2 (<) js ds\<close> by (simp only: set_indices)
  moreover have "length js = length ds" using \<open>list_all2 (<) js ds\<close> by (rule list_all2_lengthD)
  ultimately show ?thesis using idx that by blast
qed

lemma row_index_less:
  assumes "idx \<in> set (indices (b # ds))" and "n = b \<or> n = 1"
  shows "row_index n idx < n"
proof -
  obtain i js where "idx = i # js" "i < b"
    using assms(1) by (rule indices_Cons_elim)
  then show ?thesis using assms(2) by (auto simp: row_index_def)
qed

lemma batch_row_std:
  assumes "shape x = b # ds" and "idx \<in> set (indices (b # ds))"
  shows "batch_row t x idx = row_index (length (lt_list t)) idx"
proof -
  obtain i js where idx: "idx = i # js" and len: "length js = length ds"
    using assms(2) by (rule indices_Cons_elim)
  show ?thesis
    unfolding batch_row_def col_shape_def assms(1) idx
    using bidx_col [OF len, of "length (lt_list t)" i] by (simp add: row_index_def)
qed

lemma binop_col_left:
  assumes c: "shape c = n # replicate (length ds) 1" and x: "shape x = b # ds"
    and n: "n = b \<or> n = 1"
  shows "binop f c x = Inr (tabulate (b # ds) (\<lambda>idx. f (data c ! row_index n idx) (tensor_at x idx)))"
proof -
  have bs: "broadcast_shapes (shape c) (shape x) = Inr (b # ds)"
    unfolding c x by (rule broadcast_shapes_col_left [OF refl n])
  have "tabulate (b # ds) (\<lambda>idx. f (tensor_at c (bidx (shape c) idx)) (tensor_at x (bidx (shape x) idx)))
      = tabulate (b # ds) (\<lambda>idx. f (data c ! row_index n idx) (tensor_at x idx))"
  proof (rule tabulate_cong)
    fix idx assume mem: "idx \<in> set (indices (b # ds))"
    obtain i js where idx: "idx = i # js" and len: "length js = length ds"
      using mem by (rule indices_Cons_elim)
    have "tensor_at c (bidx (shape c) idx) = data c ! row_index n idx"
      unfolding idx using tensor_at_col [OF c len, of i] by (simp add: row_index_def)
    moreover have "bidx (shape x) idx = idx" unfolding x using mem by (rule bidx_same)
    ultimately show "f (tensor_at c (bidx (shape c) idx)) (tensor_at x (bidx (shape x) idx))
        = f (data c ! row_index n idx) (tensor_at x idx)" by simp
  qed
  then show ?thesis using binop_tabulate [OF bs, of f] by simp
qed

lemma binop_same:
  assumes "shape a = s" and "shape b = s"
  shows "binop f a b = Inr (tabulate s (\<lambda>idx. f (tensor_at a idx) (tensor_at b idx)))"
proof -
  have bs: "broadcast_shapes (shape a) (shape b) = Inr s"
    unfolding assms by (rule broadcast_shapes_same)
  have "tabulate s (\<lambda>idx. f (tensor_at a (bidx (shape a) idx)) (tensor_at b (bidx (shape b) idx)))
      = tabulate s (\<lambda>idx. f (tensor_at a idx) (tensor_at b idx))"
    by (rule tabulate_cong) (simp add: assms bidx_same)
  then show ?thesis using binop_tabulate [OF bs, of f] by simp
qed

lemma indices_col: "indices (n # replicate k (Suc 0)) = map (\<lambda>i. i # replicate k 0) [0..<n]"
proof -
  have one: "indices (replicate k (Suc 0)) = [replicate k 0]"
    by (induction k) simp_all
  have "concat (map (\<lambda>i. [i # replicate k 0]) [0..<n]) = map (\<lambda>i. i # replicate k 0) [0..<n]"
    by (induction n) simp_all
  then show ?thesis by (simp add: one)
qed

lemma binop_col_col:
  assumes a: "shape a = n # replicate k 1" and b: "shape b = n # replicate k 1"
  shows "binop f a b = Inr \<lparr>shape = n # replicate k 1,
            data = map (\<lambda>i. f (data a ! i) (data b ! i)) [0..<n]\<rparr>"
proof -
  have at: "tensor_at c (i # replicate k 0) = data c ! i" if "shape c = n # replicate k 1" for c i
    using that ravel_col [of n k i] by (simp add: tensor_at_def del: ravel.simps)
  have "binop f a b = Inr (tabulate (n # replicate k 1) (\<lambda>idx. f (tensor_at a idx) (tensor_at b idx)))"
    by (rule binop_same [OF a b])
  also have "tabulate (n # replicate k 1) (\<lambda>idx. f (tensor_at a idx) (tensor_at b idx))
     = \<lparr>shape = n # replicate k 1, data = map (\<lambda>i. f (data a ! i) (data b ! i)) [0..<n]\<rparr>"
    using at [OF a] at [OF b] by (simp add: tabulate_def indices_col comp_def del: indices.simps)
  finally show ?thesis .
qed

lemma gather_ok:
  assumes "shape input = [T]" and "list_all (\<lambda>i. 0 \<le> i \<and> i < int T) ts"
  shows "gather input ts = Inr \<lparr>shape = [length ts], data = map (\<lambda>i. data input ! nat i) ts\<rparr>"
  using assms by (simp add: gather_def)

lemma extract_ok:
  assumes "shape input = [T]" and "list_all (\<lambda>i. 0 \<le> i \<and> i < int T) (lt_list t)"
  shows "extract' input t x =
    Inr \<lparr>shape = length (lt_list t) # replicate (length (shape x) - 1) 1,
         data = map (\<lambda>i. Fin (data input ! nat i)) (lt_list t)\<rparr>"
  using gather_ok [OF assms] by (simp add: extract'_def ebind_def Let_def comp_def)

lemma tmap_simps: "shape (tmap f a) = shape a" "data (tmap f a) = map f (data a)"
  by (simp_all add: tmap_def)

subsection \<open>Broadcasting in general\<close>

lemma bdims_Inr:
  "bdims xs ys = Inr s \<Longrightarrow>
     length xs = length ys \<and> list_all2 (\<lambda>d e. d = e \<or> d = 1) xs s
     \<and> list_all2 (\<lambda>d e. d = e \<or> d = 1) ys s"
proof (induction xs ys arbitrary: s rule: bdims.induct)
  case 1
  then show ?case by simp
next
  case (2 x xs y ys)
  show ?case
  proof (cases "x = y \<or> y = 1")
    case True
    then obtain r where r: "bdims xs ys = Inr r" "s = x # r"
      using "2.prems" by (cases "bdims xs ys") (auto simp: ebind_def)
    show ?thesis using "2.IH"(1) [OF True r(1)] r(2) True by auto
  next
    case False
    then have x1: "x = 1" using "2.prems" by (auto split: if_splits)
    obtain r where r: "bdims xs ys = Inr r" "s = y # r"
      using "2.prems" False x1 by (cases "bdims xs ys") (auto simp: ebind_def)
    show ?thesis using "2.IH"(2) [OF False x1 r(1)] r(2) x1 by auto
  qed
qed simp_all

lemma list_all2_pad:
  assumes "list_all2 P (replicate k c @ a) s"
  shows "list_all2 P a (drop k s)"
proof -
  have "length s = k + length a" using list_all2_lengthD [OF assms] by simp
  then have "s = take k s @ drop k s" "length (take k s) = k" by simp_all
  then show ?thesis using assms
    by (metis append_eq_conv_conj length_replicate list_all2_append2 list_all2_lengthD)
qed

lemma broadcast_shapes_Inr:
  assumes "broadcast_shapes a b = Inr s"
  shows "bcast_to a s \<and> bcast_to b s"
proof -
  let ?n = "max (length a) (length b)"
  have bd: "bdims (pad_shape ?n a) (pad_shape ?n b) = Inr s"
    using assms by (simp add: broadcast_shapes_def Let_def)
  have la: "list_all2 (\<lambda>d e. d = e \<or> d = 1) (pad_shape ?n a) s"
    and lb: "list_all2 (\<lambda>d e. d = e \<or> d = 1) (pad_shape ?n b) s"
    using bdims_Inr [OF bd] by simp_all
  have len: "length s = ?n" using list_all2_lengthD [OF la] by (simp add: pad_shape_def)
  have "list_all2 (\<lambda>d e. d = e \<or> d = 1) a (drop (?n - length a) s)"
    using la unfolding pad_shape_def by (rule list_all2_pad)
  moreover have "list_all2 (\<lambda>d e. d = e \<or> d = 1) b (drop (?n - length b) s)"
    using lb unfolding pad_shape_def by (rule list_all2_pad)
  ultimately show ?thesis by (simp add: bcast_to_def len)
qed

lemma bcast_to_refl: "bcast_to s s"
  by (simp add: bcast_to_def list_all2_same)

lemma bcast_to_nth:
  assumes "bcast_to a s" and "k < length a"
  shows "a ! k = s ! (length s - length a + k) \<or> a ! k = 1"
proof -
  have "list_all2 (\<lambda>d e. d = e \<or> d = 1) a (drop (length s - length a) s)"
    using assms(1) by (simp add: bcast_to_def)
  then have "a ! k = drop (length s - length a) s ! k \<or> a ! k = 1"
    using assms(2) by (simp add: list_all2_conv_all_nth)
  moreover have "length a \<le> length s" using assms(1) by (simp add: bcast_to_def)
  ultimately show ?thesis using assms(2) by simp
qed

lemma bcast_toI:
  assumes "length a \<le> length s"
    and "\<And>k. k < length a \<Longrightarrow> a ! k = s ! (length s - length a + k) \<or> a ! k = 1"
  shows "bcast_to a s"
  using assms by (simp add: bcast_to_def list_all2_conv_all_nth)

lemma bcast_to_trans:
  assumes "bcast_to a s1" and "bcast_to s1 s"
  shows "bcast_to a s"
proof (rule bcast_toI)
  have l1: "length a \<le> length s1" and l2: "length s1 \<le> length s"
    using assms by (simp_all add: bcast_to_def)
  show "length a \<le> length s" using l1 l2 by simp
  fix k assume k: "k < length a"
  let ?j = "length s1 - length a + k"
  have j: "?j < length s1" using k l1 by simp
  have e: "length s - length s1 + ?j = length s - length a + k" using k l1 l2 by simp
  show "a ! k = s ! (length s - length a + k) \<or> a ! k = 1"
    using bcast_to_nth [OF assms(1) k] bcast_to_nth [OF assms(2) j] unfolding e by auto
qed

lemma length_bidx:
  "length a \<le> length idx \<Longrightarrow> length (bidx a idx) = length a"
  by (simp add: bidx_def)

lemma nth_bidx:
  assumes "length a \<le> length idx" and "k < length a"
  shows "bidx a idx ! k = (if a ! k = 1 then 0 else idx ! (length idx - length a + k))"
  using assms by (simp add: bidx_def)

lemma length_mem_indices: "idx \<in> set (indices s) \<Longrightarrow> length idx = length s"
  by (simp add: set_indices list_all2_lengthD)

lemma nth_mem_indices: "idx \<in> set (indices s) \<Longrightarrow> k < length s \<Longrightarrow> idx ! k < s ! k"
  by (simp add: set_indices list_all2_conv_all_nth)

lemma bidx_mem:
  assumes "bcast_to a s" and "idx \<in> set (indices s)"
  shows "bidx a idx \<in> set (indices a)"
proof -
  have li: "length idx = length s" by (rule length_mem_indices [OF assms(2)])
  have la: "length a \<le> length idx" using assms(1) li by (simp add: bcast_to_def)
  have "bidx a idx ! k < a ! k" if k: "k < length a" for k
  proof (cases "a ! k = 1")
    case True
    then show ?thesis using nth_bidx [OF la k] by simp
  next
    case False
    then have "a ! k = s ! (length s - length a + k)" using bcast_to_nth [OF assms(1) k] by simp
    moreover have "idx ! (length s - length a + k) < s ! (length s - length a + k)"
      using k la li by (intro nth_mem_indices [OF assms(2)]) simp
    ultimately show ?thesis using nth_bidx [OF la k] False li by simp
  qed
  then show ?thesis
    unfolding set_indices by (simp add: list_all2_conv_all_nth length_bidx [OF la])
qed

lemma bidx_bidx:
  assumes a: "bcast_to a s1" and s1: "bcast_to s1 s" and idx: "idx \<in> set (indices s)"
  shows "bidx a (bidx s1 idx) = bidx a idx"
proof (rule nth_equalityI)
  have li: "length idx = length s" by (rule length_mem_indices [OF idx])
  have l1: "length a \<le> length s1" and l2: "length s1 \<le> length s"
    using a s1 by (simp_all add: bcast_to_def)
  have lj: "length (bidx s1 idx) = length s1" using l2 li by (simp add: length_bidx)
  have la: "length a \<le> length idx" using l1 l2 li by simp
  have la1: "length a \<le> length (bidx s1 idx)" using l1 lj by simp
  show "length (bidx a (bidx s1 idx)) = length (bidx a idx)"
    by (simp add: length_bidx [OF la] length_bidx [OF la1])
  fix k assume "k < length (bidx a (bidx s1 idx))"
  then have k: "k < length a" by (simp add: length_bidx [OF la1])
  let ?j = "length s1 - length a + k"
  have j: "?j < length s1" using k l1 by simp
  have e: "length idx - length s1 + ?j = length idx - length a + k" using k l1 l2 li by simp
  show "bidx a (bidx s1 idx) ! k = bidx a idx ! k"
  proof (cases "a ! k = 1")
    case True
    then show ?thesis using nth_bidx [OF la k] nth_bidx [OF la1 k] by simp
  next
    case False
    then have "a ! k = s1 ! ?j" using bcast_to_nth [OF a k] by simp
    then have "s1 ! ?j \<noteq> 1" using False by simp
    then have "bidx s1 idx ! ?j = idx ! (length idx - length a + k)"
      using nth_bidx [of s1 idx ?j] j l2 li e by simp
    then show ?thesis using nth_bidx [OF la k] nth_bidx [OF la1 k] False lj by simp
  qed
qed

lemma binop_Inr:
  assumes "binop f a b = Inr c"
  shows "bcast_to (shape a) (shape c) \<and> bcast_to (shape b) (shape c)
       \<and> c = tabulate (shape c) (\<lambda>idx. f (tensor_at a (bidx (shape a) idx))
                                          (tensor_at b (bidx (shape b) idx)))"
proof -
  obtain s where s: "broadcast_shapes (shape a) (shape b) = Inr s"
    using assms by (cases "broadcast_shapes (shape a) (shape b)") (simp_all add: binop_def ebind_def)
  have "c = tabulate s (\<lambda>idx. f (tensor_at a (bidx (shape a) idx)) (tensor_at b (bidx (shape b) idx)))"
    using binop_tabulate [OF s, of f] assms by simp
  then show ?thesis using broadcast_shapes_Inr [OF s] by (simp add: shape_tabulate)
qed

lemma binop_at:
  assumes c: "binop f a b = Inr c" and s: "bcast_to (shape c) s" and idx: "idx \<in> set (indices s)"
  shows "tensor_at c (bidx (shape c) idx)
       = f (tensor_at a (bidx (shape a) idx)) (tensor_at b (bidx (shape b) idx))"
proof -
  note r = binop_Inr [OF c]
  have mem: "bidx (shape c) idx \<in> set (indices (shape c))" by (rule bidx_mem [OF s idx])
  have "tensor_at c (bidx (shape c) idx)
      = f (tensor_at a (bidx (shape a) (bidx (shape c) idx)))
          (tensor_at b (bidx (shape b) (bidx (shape c) idx)))"
    using r tensor_at_tabulate [OF mem] by metis
  moreover have "bidx (shape a) (bidx (shape c) idx) = bidx (shape a) idx"
    using r s idx by (intro bidx_bidx) simp_all
  moreover have "bidx (shape b) (bidx (shape c) idx) = bidx (shape b) idx"
    using r s idx by (intro bidx_bidx) simp_all
  ultimately show ?thesis by simp
qed

lemma ebind_Inr_iff: "ebind r f = Inr v \<longleftrightarrow> (\<exists>u. r = Inr u \<and> f u = Inr v)"
  by (cases r) (simp_all add: ebind_def)

lemma fsub_Fin [simp]: "fsub (Fin a) (Fin b) = Fin (a - b)"
  by (simp add: fsub_def)

lemma fadd_zero_right [simp]: "fadd x (Fin 0) = x"
  by (cases x) simp_all

lemma extract_Inr:
  assumes "extract' buf t x = Inr c"
  shows "shape c = col_shape t x \<and> data c = map (\<lambda>i. Fin (data buf ! nat i)) (lt_list t)"
proof -
  obtain out where out: "gather buf (lt_list t) = Inr out"
    and c: "c = \<lparr>shape = length (lt_list t) # replicate (length (shape x) - 1) 1,
                 data = map Fin (data out)\<rparr>"
    using assms by (auto simp: extract'_def Let_def ebind_Inr_iff)
  have "data out = map (\<lambda>i. data buf ! nat i) (lt_list t)"
    using out by (auto simp: gather_def split: list.splits if_splits)
  then show ?thesis using c by (simp add: col_shape_def comp_def)
qed

lemma col_index:
  assumes "j \<in> set (indices (n # replicate k 1))"
  shows "ravel (n # replicate k 1) j = hd j \<and> hd j < n"
proof -
  obtain i where "i < n" "j = i # replicate k 0"
    using assms by (auto simp: indices_col simp del: indices.simps)
  then show ?thesis using ravel_col [of n k i] by (simp del: ravel.simps)
qed

lemma col_at:
  assumes c: "shape c = col_shape t x" and len: "length (data c) = length (lt_list t)"
    and s: "bcast_to (col_shape t x) s" and idx: "idx \<in> set (indices s)"
  shows "tensor_at (tmap f c) (bidx (shape (tmap f c)) idx) = f (data c ! batch_row t x idx)"
    and "tensor_at c (bidx (shape c) idx) = data c ! batch_row t x idx"
    and "batch_row t x idx < length (lt_list t)"
proof -
  have "bidx (col_shape t x) idx \<in> set (indices (col_shape t x))" by (rule bidx_mem [OF s idx])
  then have r: "ravel (col_shape t x) (bidx (col_shape t x) idx) = batch_row t x idx"
    and lt: "batch_row t x idx < length (lt_list t)"
    using col_index [of "bidx (col_shape t x) idx" "length (lt_list t)" "length (shape x) - 1"]
    by (simp_all add: col_shape_def batch_row_def del: ravel.simps)
  show "batch_row t x idx < length (lt_list t)" by (rule lt)
  show "tensor_at c (bidx (shape c) idx) = data c ! batch_row t x idx"
    using r by (simp add: tensor_at_def c)
  show "tensor_at (tmap f c) (bidx (shape (tmap f c)) idx) = f (data c ! batch_row t x idx)"
    using r lt len by (simp add: tensor_at_def tmap_simps c)
qed

text \<open>The element that a result reads from a tensor \<open>extract\<close> returned, mapped or not.\<close>

lemma extract_at:
  assumes c: "extract' buf t x = Inr c"
    and s: "bcast_to (col_shape t x) s" and idx: "idx \<in> set (indices s)"
  shows "tensor_at (tmap f c) (bidx (shape (tmap f c)) idx) = f (Fin (gathered buf t x idx))"
    and "tensor_at c (bidx (shape c) idx) = Fin (gathered buf t x idx)"
proof -
  note ec = extract_Inr [OF c]
  have cs: "shape c = col_shape t x" and len: "length (data c) = length (lt_list t)"
    using ec by simp_all
  have lt: "batch_row t x idx < length (lt_list t)" by (rule col_at(3) [OF cs len s idx])
  have d: "data c ! batch_row t x idx = Fin (gathered buf t x idx)"
    using lt by (simp add: ec gathered_def)
  show "tensor_at (tmap f c) (bidx (shape (tmap f c)) idx) = f (Fin (gathered buf t x idx))"
    using col_at(1) [OF cs len s idx, of f] d by simp
  show "tensor_at c (bidx (shape c) idx) = Fin (gathered buf t x idx)"
    using col_at(2) [OF cs len s idx] d by simp
qed

lemma q_sample_general:
  assumes run: "ebind (extract' acp t x0) (\<lambda>alphas_prod_t.
             ebind (tmul (tsqrt alphas_prod_t) x0) (\<lambda>l.
             ebind (tmul (tsqrt (rsubf 1 alphas_prod_t)) nz) (\<lambda>r.
             tadd l r))) = Inr xt"
    and idx: "idx \<in> set (indices (shape xt))"
  shows "tensor_at xt idx = spec_q_sample acp t x0 nz idx"
    and "bcast_to (col_shape t x0) (shape xt)"
    and "bcast_to (shape x0) (shape xt)"
    and "bcast_to (shape nz) (shape xt)"
proof -
  obtain c l r where c: "extract' acp t x0 = Inr c"
    and l: "binop fmul (tsqrt c) x0 = Inr l"
    and r: "binop fmul (tsqrt (rsubf 1 c)) nz = Inr r"
    and xt: "binop fadd l r = Inr xt"
    using run by (auto simp: ebind_Inr_iff tmul_def tadd_def)
  note ec = extract_Inr [OF c]
  have cs: "shape c = col_shape t x0" using ec by simp
  have bl: "bcast_to (shape l) (shape xt)" and br: "bcast_to (shape r) (shape xt)"
    using binop_Inr [OF xt] by simp_all
  show bc: "bcast_to (col_shape t x0) (shape xt)"
    using binop_Inr [OF l] bl by (auto simp: tsqrt_def tmap_simps cs intro: bcast_to_trans)
  show "bcast_to (shape x0) (shape xt)"
    using binop_Inr [OF l] bl by (auto intro: bcast_to_trans)
  show "bcast_to (shape nz) (shape xt)"
    using binop_Inr [OF r] br by (auto intro: bcast_to_trans)
  have "tensor_at xt idx = tensor_at xt (bidx (shape xt) idx)"
    using idx by (simp add: bidx_same)
  also have "\<dots> = fadd (tensor_at l (bidx (shape l) idx)) (tensor_at r (bidx (shape r) idx))"
    by (rule binop_at [OF xt bcast_to_refl idx])
  also have "tensor_at l (bidx (shape l) idx)
      = fmul (tensor_at (tsqrt c) (bidx (shape (tsqrt c)) idx)) (tensor_at x0 (bidx (shape x0) idx))"
    by (rule binop_at [OF l bl idx])
  also have "tensor_at r (bidx (shape r) idx)
      = fmul (tensor_at (tsqrt (rsubf 1 c)) (bidx (shape (tsqrt (rsubf 1 c))) idx))
             (tensor_at nz (bidx (shape nz) idx))"
    by (rule binop_at [OF r br idx])
  also have "tensor_at (tsqrt c) (bidx (shape (tsqrt c)) idx) = fsqrt (Fin (gathered acp t x0 idx))"
    unfolding tsqrt_def by (rule extract_at(1) [OF c bc idx])
  also have "tsqrt (rsubf 1 c) = tmap (\<lambda>v. fsqrt (fsub (Fin 1) v)) c"
    by (simp add: tsqrt_def rsubf_def tmap_def comp_def)
  also have "tensor_at (tmap (\<lambda>v. fsqrt (fsub (Fin 1) v)) c)
        (bidx (shape (tmap (\<lambda>v. fsqrt (fsub (Fin 1) v)) c)) idx)
      = fsqrt (fsub (Fin 1) (Fin (gathered acp t x0 idx)))"
    by (rule extract_at(1) [OF c bc idx])
  finally show "tensor_at xt idx = spec_q_sample acp t x0 nz idx"
    by (simp add: spec_q_sample_def)
qed

lemma p_sample_general:
  assumes c1: "ebind (extract' (alphas_cumprod s) t xt) (\<lambda>alphas_cumprod_t.
        ebind (extract' (alphas s) t xt) (\<lambda>alphas_t.
        ebind (extract' (betas s) t xt) (\<lambda>betas_t.
        ebind (tdiv (rsubf 1 alphas_t) (tsqrt (rsubf 1 alphas_cumprod_t))) (\<lambda>eps_factor.
        Inr (alphas_t, betas_t, eps_factor))))) = Inr (a_t, b_t, ef)"
    and c2: "ebind (tmul ef eps) (\<lambda>scaled.
         ebind (tsub xt scaled) (\<lambda>diff.
         ebind (tmul (rdivf 1 (tsqrt a_t)) diff) (\<lambda>mean.
         ebind (tmul (tsqrt b_t) nz) (\<lambda>sn.
         ebind (tmul (nonzero_mask t xt) sn) (\<lambda>masked.
         tadd mean masked))))) = Inr r"
    and idx: "idx \<in> set (indices (shape r))"
  shows "tensor_at r idx = spec_p_sample s t xt eps nz idx"
    and "bcast_to (col_shape t xt) (shape r)"
    and "bcast_to (shape xt) (shape r)"
    and "bcast_to (shape eps) (shape r)"
    and "bcast_to (shape nz) (shape r)"
proof -
  let ?mk = "nonzero_mask t xt"
  let ?S = "shape r"
  obtain ac_t where e1: "extract' (alphas_cumprod s) t xt = Inr ac_t"
    and e2: "extract' (alphas s) t xt = Inr a_t"
    and e3: "extract' (betas s) t xt = Inr b_t"
    and ef: "binop fdiv (rsubf 1 a_t) (tsqrt (rsubf 1 ac_t)) = Inr ef"
    using c1 by (auto simp: ebind_Inr_iff tdiv_def)
  obtain sc df mn sn mk where sc: "binop fmul ef eps = Inr sc"
    and df: "binop fsub xt sc = Inr df"
    and mn: "binop fmul (rdivf 1 (tsqrt a_t)) df = Inr mn"
    and sn: "binop fmul (tsqrt b_t) nz = Inr sn"
    and mk: "binop fmul ?mk sn = Inr mk"
    and r: "binop fadd mn mk = Inr r"
    using c2 by (auto simp: ebind_Inr_iff tmul_def tsub_def tadd_def)
  have lenm: "length (data ?mk) = length (lt_list t)" by (simp add: nonzero_mask_def)
  have shm: "shape ?mk = col_shape t xt" by (simp add: nonzero_mask_def col_shape_def)
  have b_mn: "bcast_to (shape mn) ?S" and b_mk: "bcast_to (shape mk) ?S"
    using binop_Inr [OF r] by simp_all
  have b_df: "bcast_to (shape df) ?S"
    using binop_Inr [OF mn] b_mn by (blast intro: bcast_to_trans)
  have b_sn: "bcast_to (shape sn) ?S"
    using binop_Inr [OF mk] b_mk by (blast intro: bcast_to_trans)
  have b_sc: "bcast_to (shape sc) ?S"
    using binop_Inr [OF df] b_df by (blast intro: bcast_to_trans)
  have b_ef: "bcast_to (shape ef) ?S"
    using binop_Inr [OF sc] b_sc by (blast intro: bcast_to_trans)
  have "bcast_to (shape ?mk) (shape mk)" using binop_Inr [OF mk] by simp
  then show bc: "bcast_to (col_shape t xt) ?S"
    using b_mk unfolding shm by (rule bcast_to_trans)
  show "bcast_to (shape xt) ?S"
    using binop_Inr [OF df] b_df by (blast intro: bcast_to_trans)
  show "bcast_to (shape eps) ?S"
    using binop_Inr [OF sc] b_sc by (blast intro: bcast_to_trans)
  show "bcast_to (shape nz) ?S"
    using binop_Inr [OF sn] b_sn by (blast intro: bcast_to_trans)
  have lt: "batch_row t xt idx < length (lt_list t)"
    by (rule col_at(3) [OF shm lenm bc idx])
  have v_ef: "tensor_at ef (bidx (shape ef) idx)
      = fdiv (Fin (1 - gathered (alphas s) t xt idx))
             (fsqrt (Fin (1 - gathered (alphas_cumprod s) t xt idx)))"
  proof -
    have "tensor_at ef (bidx (shape ef) idx)
        = fdiv (tensor_at (rsubf 1 a_t) (bidx (shape (rsubf 1 a_t)) idx))
               (tensor_at (tsqrt (rsubf 1 ac_t)) (bidx (shape (tsqrt (rsubf 1 ac_t))) idx))"
      by (rule binop_at [OF ef b_ef idx])
    moreover have "tensor_at (rsubf 1 a_t) (bidx (shape (rsubf 1 a_t)) idx)
        = fsub (Fin 1) (Fin (gathered (alphas s) t xt idx))"
      unfolding rsubf_def by (rule extract_at(1) [OF e2 bc idx])
    moreover have "tsqrt (rsubf 1 ac_t) = tmap (\<lambda>v. fsqrt (fsub (Fin 1) v)) ac_t"
      by (simp add: tsqrt_def rsubf_def tmap_def comp_def)
    moreover have "tensor_at (tmap (\<lambda>v. fsqrt (fsub (Fin 1) v)) ac_t)
          (bidx (shape (tmap (\<lambda>v. fsqrt (fsub (Fin 1) v)) ac_t)) idx)
        = fsqrt (fsub (Fin 1) (Fin (gathered (alphas_cumprod s) t xt idx)))"
      by (rule extract_at(1) [OF e1 bc idx])
    ultimately show ?thesis by simp
  qed
  have v_a: "tensor_at (rdivf 1 (tsqrt a_t)) (bidx (shape (rdivf 1 (tsqrt a_t))) idx)
      = fdiv (Fin 1) (fsqrt (Fin (gathered (alphas s) t xt idx)))"
  proof -
    have "rdivf 1 (tsqrt a_t) = tmap (\<lambda>v. fdiv (Fin 1) (fsqrt v)) a_t"
      by (simp add: tsqrt_def rdivf_def tmap_def comp_def)
    moreover have "tensor_at (tmap (\<lambda>v. fdiv (Fin 1) (fsqrt v)) a_t)
          (bidx (shape (tmap (\<lambda>v. fdiv (Fin 1) (fsqrt v)) a_t)) idx)
        = fdiv (Fin 1) (fsqrt (Fin (gathered (alphas s) t xt idx)))"
      by (rule extract_at(1) [OF e2 bc idx])
    ultimately show ?thesis by simp
  qed
  have v_b: "tensor_at (tsqrt b_t) (bidx (shape (tsqrt b_t)) idx)
      = fsqrt (Fin (gathered (betas s) t xt idx))"
    unfolding tsqrt_def by (rule extract_at(1) [OF e3 bc idx])
  have v_m: "tensor_at ?mk (bidx (shape ?mk) idx) = Fin (spec_mask t xt idx)"
    using col_at(2) [OF shm lenm bc idx] lt
    by (simp add: nonzero_mask_def spec_mask_def)
  have "tensor_at r idx = tensor_at r (bidx ?S idx)" using idx by (simp add: bidx_same)
  also have "\<dots> = fadd (tensor_at mn (bidx (shape mn) idx)) (tensor_at mk (bidx (shape mk) idx))"
    by (rule binop_at [OF r bcast_to_refl idx])
  also have "tensor_at mn (bidx (shape mn) idx)
      = fmul (tensor_at (rdivf 1 (tsqrt a_t)) (bidx (shape (rdivf 1 (tsqrt a_t))) idx))
             (tensor_at df (bidx (shape df) idx))"
    by (rule binop_at [OF mn b_mn idx])
  also have "tensor_at df (bidx (shape df) idx)
      = fsub (tensor_at xt (bidx (shape xt) idx)) (tensor_at sc (bidx (shape sc) idx))"
    by (rule binop_at [OF df b_df idx])
  also have "tensor_at sc (bidx (shape sc) idx)
      = fmul (tensor_at ef (bidx (shape ef) idx)) (tensor_at eps (bidx (shape eps) idx))"
    by (rule binop_at [OF sc b_sc idx])
  also have "tensor_at mk (bidx (shape mk) idx)
      = fmul (tensor_at ?mk (bidx (shape ?mk) idx)) (tensor_at sn (bidx (shape sn) idx))"
    by (rule binop_at [OF mk b_mk idx])
  also have "tensor_at sn (bidx (shape sn) idx)
      = fmul (tensor_at (tsqrt b_t) (bidx (shape (tsqrt b_t)) idx))
             (tensor_at nz (bidx (shape nz) idx))"
    by (rule binop_at [OF sn b_sn idx])
  finally show "tensor_at r idx = spec_p_sample s t xt eps nz idx"
    unfolding v_ef v_a v_b v_m spec_p_sample_def by simp
qed

subsection \<open>The broadcast of two shapes as their join\<close>

lemma pad_shape_nth:
  assumes "length a \<le> n" and "k < n"
  shows "pad_shape n a ! k = (if k < n - length a then 1 else a ! (k - (n - length a)))"
  using assms by (simp add: pad_shape_def nth_append)

lemma length_pad_shape: "length a \<le> n \<Longrightarrow> length (pad_shape n a) = n"
  by (simp add: pad_shape_def)

lemma bcast_to_length: "bcast_to a s \<Longrightarrow> length a \<le> length s"
  by (simp add: bcast_to_def)

lemma bcast_to_pad_nth:
  assumes b: "bcast_to a s" and la: "length a \<le> n" and ns: "n \<le> length s" and k: "k < n"
  shows "pad_shape n a ! k = s ! (length s - n + k) \<or> pad_shape n a ! k = 1"
proof (cases "k < n - length a")
  case True
  then show ?thesis using pad_shape_nth [OF la k] by simp
next
  case False
  let ?j = "k - (n - length a)"
  have j: "?j < length a" using False k la by linarith
  have eq: "length s - length a + ?j = length s - n + k" using False k la ns by linarith
  have "a ! ?j = s ! (length s - length a + ?j) \<or> a ! ?j = 1" by (rule bcast_to_nth [OF b j])
  then show ?thesis using pad_shape_nth [OF la k] False eq by simp
qed

lemma bdims_join:
  "list_all2 (\<lambda>x y. x = y \<or> y = 1 \<or> x = 1) xs ys \<Longrightarrow> bdims xs ys = Inr (join_dims xs ys)"
proof (induction xs ys rule: list_all2_induct)
  case Nil
  then show ?case by (simp add: join_dims_def)
next
  case (Cons x xs y ys)
  then show ?case by (auto simp: join_dims_def ebind_def)
qed

lemma broadcast_shapes_join:
  assumes a: "bcast_to a s" and b: "bcast_to b s"
  shows "\<exists>r. broadcast_shapes a b = Inr r \<and> bcast_to r s"
proof -
  let ?n = "max (length a) (length b)"
  let ?pa = "pad_shape ?n a" and ?pb = "pad_shape ?n b"
  have la: "length a \<le> ?n" and lb: "length b \<le> ?n" by simp_all
  have ns: "?n \<le> length s" using bcast_to_length [OF a] bcast_to_length [OF b] by simp
  have len: "length ?pa = ?n" "length ?pb = ?n"
    using length_pad_shape [OF la] length_pad_shape [OF lb] by simp_all
  have pa: "?pa ! k = s ! (length s - ?n + k) \<or> ?pa ! k = 1" if "k < ?n" for k
    by (rule bcast_to_pad_nth [OF a la ns that])
  have pb: "?pb ! k = s ! (length s - ?n + k) \<or> ?pb ! k = 1" if "k < ?n" for k
    by (rule bcast_to_pad_nth [OF b lb ns that])
  have compat: "list_all2 (\<lambda>x y. x = y \<or> y = 1 \<or> x = 1) ?pa ?pb"
    unfolding list_all2_conv_all_nth using len pa pb by metis
  have r: "broadcast_shapes a b = Inr (join_dims ?pa ?pb)"
    using bdims_join [OF compat] by (simp add: broadcast_shapes_def Let_def)
  have lr: "length (join_dims ?pa ?pb) = ?n" using len by (simp add: join_dims_def)
  have "bcast_to (join_dims ?pa ?pb) s"
  proof (rule bcast_toI)
    show "length (join_dims ?pa ?pb) \<le> length s" using lr ns by simp
  next
    fix k assume "k < length (join_dims ?pa ?pb)"
    then have k: "k < ?n" using lr by simp
    have "join_dims ?pa ?pb ! k = (if ?pa ! k = ?pb ! k \<or> ?pb ! k = 1 then ?pa ! k else ?pb ! k)"
      using k len by (simp add: join_dims_def)
    then show "join_dims ?pa ?pb ! k = s ! (length s - length (join_dims ?pa ?pb) + k)
        \<or> join_dims ?pa ?pb ! k = 1"
      using pa [OF k] pb [OF k] lr by auto
  qed
  then show ?thesis using r by blast
qed

lemma bcast_to_antisym:
  assumes "bcast_to r s" and "bcast_to s r"
  shows "r = s"
proof -
  have len: "length r = length s"
    using bcast_to_length [OF assms(1)] bcast_to_length [OF assms(2)] by simp
  have "r ! k = s ! k" if "k < length r" for k
  proof -
    have k': "k < length s" using that len by simp
    have "r ! k = s ! k \<or> r ! k = 1" using bcast_to_nth [OF assms(1) that] len by simp
    moreover have "s ! k = r ! k \<or> s ! k = 1" using bcast_to_nth [OF assms(2) k'] len by simp
    ultimately show ?thesis by auto
  qed
  then show ?thesis using len by (simp add: nth_equalityI)
qed

lemma broadcast_shapes_into:
  assumes "bcast_to a s"
  shows "broadcast_shapes s a = Inr s" and "broadcast_shapes a s = Inr s"
proof -
  obtain r where r: "broadcast_shapes s a = Inr r" and rs: "bcast_to r s"
    using broadcast_shapes_join [OF bcast_to_refl assms] by blast
  have "bcast_to s r" using broadcast_shapes_Inr [OF r] by simp
  then show "broadcast_shapes s a = Inr s" using r bcast_to_antisym [OF rs] by simp
  obtain r' where r': "broadcast_shapes a s = Inr r'" and rs': "bcast_to r' s"
    using broadcast_shapes_join [OF assms bcast_to_refl] by blast
  have "bcast_to s r'" using broadcast_shapes_Inr [OF r'] by simp
  then show "broadcast_shapes a s = Inr s" using r' bcast_to_antisym [OF rs'] by simp
qed

lemma binop_total:
  "broadcast_shapes (shape a) (shape b) = Inr s \<Longrightarrow> \<exists>c. binop f a b = Inr c \<and> shape c = s"
  by (simp add: binop_def ebind_def)

lemma binop_join:
  assumes "bcast_to (shape a) s" and "bcast_to (shape b) s"
  shows "\<exists>c. binop f a b = Inr c \<and> bcast_to (shape c) s"
proof -
  obtain r where "broadcast_shapes (shape a) (shape b) = Inr r" "bcast_to r s"
    using broadcast_shapes_join [OF assms] by blast
  then show ?thesis using binop_total [of a b r f] by auto
qed

lemma binop_onto:
  assumes "shape a = s \<or> shape b = s" and "bcast_to (shape a) s" and "bcast_to (shape b) s"
  shows "\<exists>c. binop f a b = Inr c \<and> shape c = s"
proof -
  obtain c where c: "binop f a b = Inr c" and cs: "bcast_to (shape c) s"
    using binop_join [OF assms(2,3)] by blast
  have "bcast_to s (shape c)" using binop_Inr [OF c] assms(1) by auto
  then have "shape c = s" using bcast_to_antisym [OF cs] by simp
  then show ?thesis using c by simp
qed

lemma col_bcast_to:
  assumes "shape x = b # ds" and "length (lt_list t) = b \<or> length (lt_list t) = 1"
  shows "bcast_to (col_shape t x) (shape x)"
proof (rule bcast_toI)
  show "length (col_shape t x) \<le> length (shape x)" using assms(1) by (simp add: col_shape_def)
next
  fix k assume "k < length (col_shape t x)"
  then show "col_shape t x ! k = shape x ! (length (shape x) - length (col_shape t x) + k)
      \<or> col_shape t x ! k = 1"
    using assms by (cases k) (auto simp: col_shape_def)
qed

subsection \<open>When the forward process and the reverse step return\<close>

lemma extract_shape_ok:
  assumes "shape buf = [T]" and "list_all (\<lambda>i. 0 \<le> i \<and> i < int T) (lt_list t)"
  shows "\<exists>c. extract' buf t x = Inr c \<and> shape c = col_shape t x"
  using extract_ok [OF assms, of x] by (simp add: col_shape_def)

lemma forward_chain_ok:
  assumes acp: "shape acp = [T]"
    and rng: "list_all (\<lambda>i. 0 \<le> i \<and> i < int T) (lt_list t)"
    and col: "bcast_to (col_shape t x0) (shape x0)"
    and nz: "bcast_to (shape nz) (shape x0)"
  shows "\<exists>xt. forward_chain acp t x0 nz = Inr xt \<and> shape xt = shape x0"
proof -
  obtain c where c: "extract' acp t x0 = Inr c" and cs: "shape c = col_shape t x0"
    using extract_shape_ok [OF acp rng] by blast
  have s1: "shape (tsqrt c) = col_shape t x0" by (simp add: tsqrt_def tmap_simps cs)
  have s2: "shape (tsqrt (rsubf 1 c)) = col_shape t x0"
    by (simp add: tsqrt_def rsubf_def tmap_simps cs)
  obtain l where l: "binop fmul (tsqrt c) x0 = Inr l" and ls: "shape l = shape x0"
    using binop_onto [where a = "tsqrt c" and b = x0 and s = "shape x0" and f = fmul] col s1 bcast_to_refl by auto
  obtain r where r: "binop fmul (tsqrt (rsubf 1 c)) nz = Inr r"
    and rs: "bcast_to (shape r) (shape x0)"
    using binop_join [where a = "tsqrt (rsubf 1 c)" and b = nz and s = "shape x0" and f = fmul] col s2 nz by auto
  obtain xt where xt: "binop fadd l r = Inr xt" and xs: "shape xt = shape x0"
    using binop_onto [where a = l and b = r and s = "shape x0" and f = fadd] ls rs bcast_to_refl by auto
  show ?thesis using c l r xt xs
    by (simp add: forward_chain_def ebind_def tmul_def tadd_def)
qed

lemma reverse_factors_ok:
  assumes "shape (alphas_cumprod s) = [T]" and "shape (alphas s) = [T]"
    and "shape (betas s) = [T]"
    and rng: "list_all (\<lambda>i. 0 \<le> i \<and> i < int T) (lt_list t)"
  shows "\<exists>a_t b_t ef. reverse_factors s t xt = Inr (a_t, b_t, ef)
           \<and> shape a_t = col_shape t xt \<and> shape b_t = col_shape t xt
           \<and> shape ef = col_shape t xt"
proof -
  obtain c1 where c1: "extract' (alphas_cumprod s) t xt = Inr c1" "shape c1 = col_shape t xt"
    using extract_shape_ok [OF assms(1) rng] by blast
  obtain c2 where c2: "extract' (alphas s) t xt = Inr c2" "shape c2 = col_shape t xt"
    using extract_shape_ok [OF assms(2) rng] by blast
  obtain c3 where c3: "extract' (betas s) t xt = Inr c3" "shape c3 = col_shape t xt"
    using extract_shape_ok [OF assms(3) rng] by blast
  have s1: "shape (rsubf 1 c2) = col_shape t xt" by (simp add: rsubf_def tmap_simps c2)
  have s2: "shape (tsqrt (rsubf 1 c1)) = col_shape t xt"
    by (simp add: tsqrt_def rsubf_def tmap_simps c1)
  obtain ef where ef: "binop fdiv (rsubf 1 c2) (tsqrt (rsubf 1 c1)) = Inr ef"
    and es: "shape ef = col_shape t xt"
    using binop_onto [where a = "rsubf 1 c2" and b = "tsqrt (rsubf 1 c1)" and s = "col_shape t xt" and f = fdiv]
      s1 s2 bcast_to_refl by auto
  show ?thesis using c1 c2 c3 ef es
    by (simp add: reverse_factors_def ebind_def tdiv_def)
qed

lemma reverse_chain_ok:
  assumes a: "shape a_t = col_shape t xt" and b: "shape b_t = col_shape t xt"
    and e: "shape ef = col_shape t xt"
    and col: "bcast_to (col_shape t xt) (shape xt)"
    and eps: "bcast_to (shape eps) (shape xt)"
    and nz: "bcast_to (shape nz) (shape xt)"
  shows "\<exists>r. reverse_chain t xt a_t b_t ef eps nz = Inr r \<and> shape r = shape xt"
proof -
  let ?S = "shape xt"
  have e': "bcast_to (shape ef) ?S" using col e by simp
  have a': "bcast_to (shape (rdivf 1 (tsqrt a_t))) ?S"
    using col a by (simp add: rdivf_def tsqrt_def tmap_simps)
  have b': "bcast_to (shape (tsqrt b_t)) ?S" using col b by (simp add: tsqrt_def tmap_simps)
  have m': "bcast_to (shape (nonzero_mask t xt)) ?S"
    using col by (simp add: nonzero_mask_def col_shape_def)
  obtain sc where sc: "binop fmul ef eps = Inr sc" and scs: "bcast_to (shape sc) ?S"
    using binop_join [OF e' eps] by blast
  obtain df where df: "binop fsub xt sc = Inr df" and dfs: "shape df = ?S"
    using binop_onto [where a = xt and b = sc and s = ?S and f = fsub] scs bcast_to_refl by auto
  obtain mn where mn: "binop fmul (rdivf 1 (tsqrt a_t)) df = Inr mn" and mns: "shape mn = ?S"
    using binop_onto [where a = "rdivf 1 (tsqrt a_t)" and b = df and s = ?S and f = fmul] a' dfs bcast_to_refl by auto
  obtain sn where sn: "binop fmul (tsqrt b_t) nz = Inr sn" and sns: "bcast_to (shape sn) ?S"
    using binop_join [OF b' nz] by blast
  obtain mk where mk: "binop fmul (nonzero_mask t xt) sn = Inr mk"
    and mks: "bcast_to (shape mk) ?S"
    using binop_join [OF m' sns] by blast
  obtain r where r: "binop fadd mn mk = Inr r" and rs: "shape r = ?S"
    using binop_onto [where a = mn and b = mk and s = ?S and f = fadd] mns mks bcast_to_refl by auto
  show ?thesis using sc df mn sn mk r rs
    by (simp add: reverse_chain_def ebind_def tmul_def tsub_def tadd_def)
qed

section \<open>Lemmas on the operations as computations on the state\<close>

lemma after_draw_simps [simp]:
  "w_nets (after_draw shp w) = w_nets w" "w_scheds (after_draw shp w) = w_scheds w"
  "w_mods (after_draw shp w) = w_mods w" "w_next (after_draw shp w) = w_next w"
  "w_files (after_draw shp w) = w_files w" "w_writable (after_draw shp w) = w_writable w"
  "w_weights_only (after_draw shp w) = w_weights_only w"
  "self_scheduler self (after_draw shp w) = self_scheduler self w"
  "self_network self (after_draw shp w) = self_network self w"
  by (simp_all add: after_draw_def self_scheduler_def self_network_def)

lemma randn_eq: "randn shp w = (Inr (fresh_noise shp w), after_draw shp w)"
  by (simp add: randn_def fresh_noise_def after_draw_def)

lemma randn_like_eq: "randn_like x w = (Inr (fresh_noise (shape x) w), after_draw (shape x) w)"
  by (simp add: randn_like_def randn_eq)

lemma fresh_noise_simps:
  "shape (fresh_noise shp w) = shp"
  "data (fresh_noise shp w) = map (\<lambda>i. Fin (normal_src (w_rng w) i)) [0..<prod_list shp]"
  by (simp_all add: fresh_noise_def draw_normal_def)

lemma q_sample_unfold:
  "q_sample self x0 t noise w =
     (case noise of
        Some nz \<Rightarrow> (forward_chain (alphas_cumprod (self_scheduler self w)) t x0 nz, w)
      | None \<Rightarrow> (forward_chain (alphas_cumprod (self_scheduler self w)) t x0
                    (fresh_noise (shape x0) w), after_draw (shape x0) w))"
  by (cases noise)
    (simp_all add: q_sample_def sbind_def sreturn_def lift_def get_scheduler_def randn_like_eq
      forward_chain_def)

lemma device_eq:
  "device self w = (if has_parameters (self_network self w) then Inr () else Inl StopIteration, w)"
  by (simp add: device_def has_parameters_def split: list.splits)

lemma p_sample_unfold:
  "p_sample self xt t0 w =
     (if (\<exists>i. t0 = PyInt i) \<and> \<not> has_parameters (self_network self w)
      then (Inl StopIteration, w)
      else case reverse_factors (self_scheduler self w) (as_tensor t0) xt of
        Inl e \<Rightarrow> (Inl e, w)
      | Inr (a_t, b_t, ef) \<Rightarrow>
          (case net_call (self_network self w) xt (as_tensor t0) of
             Inl e \<Rightarrow> (Inl e, w)
           | Inr eps \<Rightarrow>
               (reverse_chain (as_tensor t0) xt a_t b_t ef eps (fresh_noise (shape xt) w),
                after_draw (shape xt) w)))"
  by (cases t0)
    (auto simp: p_sample_def sbind_def sreturn_def lift_def get_scheduler_def get_network_def
      randn_like_eq device_eq as_tensor_def reverse_factors_def reverse_chain_def Let_def
      split: sum.splits prod.splits)

lemma example_facts:
  "self_scheduler 0 example_world = example_scheduler"
  "self_network 0 example_world = example_net"
  "shape (alphas_cumprod example_scheduler) = [2]"
  "shape (alphas example_scheduler) = [2]"
  "shape (betas example_scheduler) = [2]"
  "num_train_timesteps example_scheduler = 2"
  "shape example_x = [2, 1]"
  "w_rng example_world = example_rng"
  by (simp_all add: example_world_def example_scheduler_def example_x_def self_scheduler_def
      self_network_def)

lemma sqrt_examples:
  "sqrt (9 / 100) = 3 / 10" "sqrt (9 / 25) = 3 / 5" "sqrt (1 / 4) = 1 / 2"
  "sqrt (16 / 25) = 4 / 5" "sqrt (3 / 4) = sqrt 3 / 2"
  by (simp_all add: real_sqrt_divide)

subsection \<open>The reverse step and the noise\<close>

lemma spec_p_sample_terms:
  "spec_p_sample s t xt eps nz idx =
     fadd (posterior_mean (gathered (alphas s) t xt idx) (gathered (alphas_cumprod s) t xt idx)
             (tensor_at xt (bidx (shape xt) idx)) (tensor_at eps (bidx (shape eps) idx)))
          (added_noise (spec_mask t xt idx) (gathered (betas s) t xt idx)
             (tensor_at nz (bidx (shape nz) idx)))"
  by (simp add: spec_p_sample_def posterior_mean_def added_noise_def)

lemma added_noise_zero:
  "added_noise 0 b (Fin n) = added_noise 0 b (Fin 0)"
  "0 \<le> b \<Longrightarrow> added_noise 0 b (Fin n) = Fin 0"
  by (simp_all add: added_noise_def)

lemma binop_shape_only:
  assumes "binop f a b = Inr c" and "shape a' = shape a" and "shape b' = shape b"
  shows "\<exists>c'. binop g a' b' = Inr c' \<and> shape c' = shape c"
  using assms by (auto simp: binop_def ebind_def split: sum.splits)

lemma binop_is_tabulate:
  assumes "binop f a b = Inr c"
  shows "c = tabulate (shape c) (tensor_at c)"
proof -
  let ?F = "\<lambda>idx. f (tensor_at a (bidx (shape a) idx)) (tensor_at b (bidx (shape b) idx))"
  have c: "c = tabulate (shape c) ?F" using binop_Inr [OF assms] by simp
  have "tabulate (shape c) ?F = tabulate (shape c) (tensor_at c)"
  proof (rule tabulate_cong)
    fix idx assume "idx \<in> set (indices (shape c))"
    then have "tensor_at (tabulate (shape c) ?F) idx = ?F idx" by (rule tensor_at_tabulate)
    then show "?F idx = tensor_at c idx" using c by simp
  qed
  then show ?thesis using c by simp
qed

lemma reverse_chain_last:
  assumes "reverse_chain t xt a_t b_t ef eps nz = Inr r"
  shows "\<exists>mn mk. binop fadd mn mk = Inr r"
  using assms by (auto simp: reverse_chain_def ebind_Inr_iff tadd_def)

lemma reverse_chain_shape_only:
  assumes "reverse_chain t xt a_t b_t ef eps nz = Inr r" and "shape nz' = shape nz"
  shows "\<exists>r'. reverse_chain t xt a_t b_t ef eps nz' = Inr r' \<and> shape r' = shape r"
proof -
  obtain sc df mn sn mk where sc: "binop fmul ef eps = Inr sc"
    and df: "binop fsub xt sc = Inr df"
    and mn: "binop fmul (rdivf 1 (tsqrt a_t)) df = Inr mn"
    and sn: "binop fmul (tsqrt b_t) nz = Inr sn"
    and mk: "binop fmul (nonzero_mask t xt) sn = Inr mk"
    and r: "binop fadd mn mk = Inr r"
    using assms(1) by (auto simp: reverse_chain_def ebind_Inr_iff tmul_def tsub_def tadd_def)
  obtain sn' where sn': "binop fmul (tsqrt b_t) nz' = Inr sn'" "shape sn' = shape sn"
    using binop_shape_only [OF sn refl assms(2)] by blast
  obtain mk' where mk': "binop fmul (nonzero_mask t xt) sn' = Inr mk'" "shape mk' = shape mk"
    using binop_shape_only [OF mk refl sn'(2)] by blast
  obtain r' where r': "binop fadd mn mk' = Inr r'" "shape r' = shape r"
    using binop_shape_only [OF r refl mk'(2)] by blast
  show ?thesis using sc df mn sn' mk' r'
    by (simp add: reverse_chain_def ebind_def tmul_def tsub_def tadd_def)
qed

lemma fresh_noise_at:
  assumes "bcast_to shp s" and "idx \<in> set (indices s)"
  shows "\<exists>n. tensor_at (fresh_noise shp w) (bidx (shape (fresh_noise shp w)) idx) = Fin n"
proof -
  have "bidx shp idx \<in> set (indices shp)" by (rule bidx_mem [OF assms])
  then have "ravel shp (bidx shp idx) < prod_list shp" using indices_nth_ravel by blast
  then show ?thesis by (simp add: tensor_at_def fresh_noise_simps)
qed

lemma reverse_chain_deterministic:
  assumes c1: "reverse_factors s t xt = Inr (a_t, b_t, ef)"
    and c2: "reverse_chain t xt a_t b_t ef eps (fresh_noise (shape xt) w) = Inr r"
    and z: "\<forall>i\<in>set (lt_list t). i = 0"
  shows "reverse_chain t xt a_t b_t ef eps (fresh_noise (shape xt) w2) = Inr r"
proof -
  let ?n = "fresh_noise (shape xt) w" and ?n2 = "fresh_noise (shape xt) w2"
  have sh: "shape ?n2 = shape ?n" by (simp add: fresh_noise_simps)
  obtain r2 where r2: "reverse_chain t xt a_t b_t ef eps ?n2 = Inr r2" and s2: "shape r2 = shape r"
    using reverse_chain_shape_only [OF c2 sh] by blast
  have "tensor_at r2 idx = tensor_at r idx" if idx: "idx \<in> set (indices (shape r))" for idx
  proof -
    have idx2: "idx \<in> set (indices (shape r2))" using idx s2 by simp
    note g = p_sample_general [OF c1 [unfolded reverse_factors_def] c2 [unfolded reverse_chain_def] idx]
    note g2 = p_sample_general [OF c1 [unfolded reverse_factors_def] r2 [unfolded reverse_chain_def] idx2]
    have "batch_row t xt idx < length (lt_list t)"
      using col_at(3) [of "nonzero_mask t xt" t xt "shape r" idx] g(2) idx
      by (simp add: nonzero_mask_def col_shape_def)
    then have m: "spec_mask t xt idx = 0" using z by (simp add: spec_mask_def)
    obtain n where n: "tensor_at ?n (bidx (shape ?n) idx) = Fin n"
      using fresh_noise_at [of "shape xt" "shape r" idx w] g(5) idx by (auto simp: fresh_noise_simps)
    obtain n2 where n2: "tensor_at ?n2 (bidx (shape ?n2) idx) = Fin n2"
      using fresh_noise_at [of "shape xt" "shape r" idx w2] g(5) idx by (auto simp: fresh_noise_simps)
    show ?thesis
      unfolding g(1) g2(1) spec_p_sample_terms m n n2 by (simp add: added_noise_zero(1) [of _ n]
          added_noise_zero(1) [of _ n2])
  qed
  then have "tabulate (shape r) (tensor_at r2) = tabulate (shape r) (tensor_at r)"
    by (intro tabulate_cong) simp
  moreover obtain mn mk where "binop fadd mn mk = Inr r" using reverse_chain_last [OF c2] by blast
  then have "r = tabulate (shape r) (tensor_at r)" by (rule binop_is_tabulate)
  moreover obtain mn2 mk2 where "binop fadd mn2 mk2 = Inr r2" using reverse_chain_last [OF r2] by blast
  then have "r2 = tabulate (shape r2) (tensor_at r2)" by (rule binop_is_tabulate)
  ultimately have "r2 = r" using s2 by simp
  then show ?thesis using r2 by simp
qed

section \<open>Lemmas on the loop\<close>

lemma p_sample_state:
  assumes "p_sample self xt t0 w = (res, w')"
  shows "w' = w \<or> w' = after_draw (shape xt) w"
  using assms unfolding p_sample_unfold
  by (auto split: if_splits sum.splits prod.splits)

lemma p_sample_objects:
  assumes "p_sample self xt t0 w = (res, w')"
  shows "self_network self w' = self_network self w"
    and "self_scheduler self w' = self_scheduler self w"
  using p_sample_state [OF assms] by auto

lemma reverse_loop_steps:
  "has_parameters (self_network self w) \<Longrightarrow>
     reverse_loop self k x w = run_steps self (rev (map int [0..<k])) x w"
proof (induction k arbitrary: x w)
  case 0
  then show ?case by simp
next
  case (Suc k)
  obtain res w' where p: "p_sample self x (PyTensor (L1 [int k])) w = (res, w')"
    by (cases "p_sample self x (PyTensor (L1 [int k])) w")
  have par: "has_parameters (self_network self w')"
    using p_sample_objects(1) [OF p] Suc.prems by simp
  show ?case
  proof (cases res)
    case (Inl e)
    then show ?thesis using p Suc.prems by (simp add: sbind_def device_eq)
  next
    case (Inr v)
    then show ?thesis using p Suc.prems Suc.IH [OF par, of v]
      by (simp add: sbind_def device_eq)
  qed
qed

lemma p_sample_loop_eq:
  "p_sample_loop self shp w =
     (if has_parameters (self_network self w)
      then run_steps self (rev (map int [0..<nat (num_train_timesteps (self_scheduler self w))]))
             (fresh_noise shp w) (after_draw shp w)
      else (Inl StopIteration, after_draw shp w))"
  using reverse_loop_steps [of self "after_draw shp w"]
  by (simp add: p_sample_loop_def sbind_def randn_eq device_eq get_scheduler_def)

lemma descending_nth: "k < n \<Longrightarrow> rev (map int [0..<n]) ! k = int n - 1 - int k"
  by (simp add: rev_nth)

lemma reverse_factors_shapes:
  assumes "reverse_factors s t xt = Inr (a_t, b_t, ef)"
  shows "shape a_t = col_shape t xt" "shape b_t = col_shape t xt" "shape ef = col_shape t xt"
proof -
  obtain ac_t where e1: "extract' (alphas_cumprod s) t xt = Inr ac_t"
    and e2: "extract' (alphas s) t xt = Inr a_t"
    and e3: "extract' (betas s) t xt = Inr b_t"
    and ef: "binop fdiv (rsubf 1 a_t) (tsqrt (rsubf 1 ac_t)) = Inr ef"
    using assms by (auto simp: reverse_factors_def ebind_Inr_iff tdiv_def)
  show a: "shape a_t = col_shape t xt" using extract_Inr [OF e2] by simp
  show "shape b_t = col_shape t xt" using extract_Inr [OF e3] by simp
  have s1: "shape (rsubf 1 a_t) = col_shape t xt" using a by (simp add: rsubf_def tmap_simps)
  have s2: "shape (tsqrt (rsubf 1 ac_t)) = col_shape t xt"
    using extract_Inr [OF e1] by (simp add: tsqrt_def rsubf_def tmap_simps)
  obtain c where "binop fdiv (rsubf 1 a_t) (tsqrt (rsubf 1 ac_t)) = Inr c" "shape c = col_shape t xt"
    using binop_onto [where a = "rsubf 1 a_t" and b = "tsqrt (rsubf 1 ac_t)"
        and s = "col_shape t xt" and f = fdiv] s1 s2 bcast_to_refl by auto
  then show "shape ef = col_shape t xt" using ef by simp
qed

lemma reverse_chain_onto:
  assumes a: "shape a_t = col_shape t xt" and b: "shape b_t = col_shape t xt"
    and e: "shape ef = col_shape t xt"
    and col: "bcast_to (col_shape t xt) S" and x: "bcast_to (shape xt) S"
    and eps: "bcast_to (shape eps) S" and nz: "bcast_to (shape nz) S"
    and S: "S = col_shape t xt \<or> S = shape xt"
  shows "\<exists>r. reverse_chain t xt a_t b_t ef eps nz = Inr r \<and> shape r = S"
proof -
  have e': "bcast_to (shape ef) S" using col e by simp
  have as: "shape (rdivf 1 (tsqrt a_t)) = col_shape t xt"
    using a by (simp add: rdivf_def tsqrt_def tmap_simps)
  have a': "bcast_to (shape (rdivf 1 (tsqrt a_t))) S" using col as by simp
  have b': "bcast_to (shape (tsqrt b_t)) S" using col b by (simp add: tsqrt_def tmap_simps)
  have m': "bcast_to (shape (nonzero_mask t xt)) S"
    using col by (simp add: nonzero_mask_def col_shape_def)
  obtain sc where sc: "binop fmul ef eps = Inr sc" and scs: "bcast_to (shape sc) S"
    using binop_join [OF e' eps] by blast
  obtain df where df: "binop fsub xt sc = Inr df" and dfs: "bcast_to (shape df) S"
    using binop_join [OF x scs] by blast
  have "shape (rdivf 1 (tsqrt a_t)) = S \<or> shape df = S"
  proof (cases "S = col_shape t xt")
    case True
    then show ?thesis using as by simp
  next
    case False
    then have "S = shape xt" using S by simp
    moreover have "bcast_to (shape xt) (shape df)" using binop_Inr [OF df] by simp
    ultimately have "shape df = S" using bcast_to_antisym [OF dfs] by simp
    then show ?thesis by simp
  qed
  then obtain mn where mn: "binop fmul (rdivf 1 (tsqrt a_t)) df = Inr mn" and mns: "shape mn = S"
    using binop_onto [where a = "rdivf 1 (tsqrt a_t)" and b = df and s = S and f = fmul] a' dfs
    by blast
  obtain sn where sn: "binop fmul (tsqrt b_t) nz = Inr sn" and sns: "bcast_to (shape sn) S"
    using binop_join [OF b' nz] by blast
  obtain mk where mk: "binop fmul (nonzero_mask t xt) sn = Inr mk"
    and mks: "bcast_to (shape mk) S"
    using binop_join [OF m' sns] by blast
  obtain r where r: "binop fadd mn mk = Inr r" and rs: "shape r = S"
    using binop_onto [where a = mn and b = mk and s = S and f = fadd] mns mks bcast_to_refl
    by auto
  show ?thesis using sc df mn sn mk r rs
    by (simp add: reverse_chain_def ebind_def tmul_def tsub_def tadd_def)
qed

lemma p_sample_shape:
  assumes run: "p_sample self xt t0 w = (Inr r, w')"
    and call: "net_call (self_network self w) xt (as_tensor t0) = Inr eps"
    and eps: "bcast_to (shape eps) (shape xt)"
    and x: "shape xt = b # ds"
    and n: "length (lt_list (as_tensor t0)) = b \<or> length (lt_list (as_tensor t0)) = 1"
  shows "shape r = shape xt"
proof -
  let ?s = "self_scheduler self w" and ?t = "as_tensor t0"
  have par: "\<not> ((\<exists>j. t0 = PyInt j) \<and> \<not> has_parameters (self_network self w))"
    using run by (auto simp: p_sample_unfold)
  obtain a_t b_t ef where c1: "reverse_factors ?s ?t xt = Inr (a_t, b_t, ef)"
    using run par unfolding p_sample_unfold by (cases "reverse_factors ?s ?t xt") auto
  have c2: "reverse_chain ?t xt a_t b_t ef eps (fresh_noise (shape xt) w) = Inr r"
    using run par c1 call unfolding p_sample_unfold by simp
  have nz: "bcast_to (shape (fresh_noise (shape xt) w)) (shape xt)"
    by (simp add: fresh_noise_simps bcast_to_refl)
  obtain r' where "reverse_chain ?t xt a_t b_t ef eps (fresh_noise (shape xt) w) = Inr r'"
    "shape r' = shape xt"
    using reverse_chain_onto [OF reverse_factors_shapes [OF c1] col_bcast_to [OF x n]
        bcast_to_refl eps nz] by blast
  then show ?thesis using c2 by simp
qed

lemma p_sample_single_ok:
  assumes buf: "shape (alphas_cumprod (self_scheduler self w)) = [T]"
      "shape (alphas (self_scheduler self w)) = [T]" "shape (betas (self_scheduler self w)) = [T]"
    and k: "0 \<le> k" "k < int T"
    and net: "always_returns (self_network self w)" "shape_preserving (self_network self w)"
  shows "\<exists>r w'. p_sample self x (PyTensor (L1 [k])) w = (Inr r, w')
           \<and> (shape x \<noteq> [] \<longrightarrow> shape r = shape x)"
proof -
  let ?s = "self_scheduler self w" and ?t = "L1 [k]"
  let ?S = "if shape x = [] then col_shape ?t x else shape x"
  have t: "as_tensor (PyTensor ?t) = ?t" by (simp add: as_tensor_def)
  have rng: "list_all (\<lambda>j. 0 \<le> j \<and> j < int T) (lt_list ?t)" using k by simp
  obtain a_t b_t ef where c1: "reverse_factors ?s ?t x = Inr (a_t, b_t, ef)"
    and sh: "shape a_t = col_shape ?t x" "shape b_t = col_shape ?t x" "shape ef = col_shape ?t x"
    using reverse_factors_ok [OF buf rng] by blast
  obtain eps where call: "net_call (self_network self w) x ?t = Inr eps"
    using net(1) by (auto simp: always_returns_def)
  have es: "shape eps = shape x" using net(2) call by (auto simp: shape_preserving_def)
  have col: "bcast_to (col_shape ?t x) ?S"
  proof (cases "shape x")
    case Nil
    then show ?thesis by (simp add: bcast_to_refl)
  next
    case (Cons b ds)
    then show ?thesis using col_bcast_to [of x b ds ?t] by simp
  qed
  have xs: "bcast_to (shape x) ?S"
  proof (cases "shape x = []")
    case True
    then show ?thesis by (simp add: bcast_to_def)
  next
    case False
    then show ?thesis by (simp add: bcast_to_refl)
  qed
  have S: "?S = col_shape ?t x \<or> ?S = shape x" by simp
  obtain r where c2: "reverse_chain ?t x a_t b_t ef eps (fresh_noise (shape x) w) = Inr r"
    and rs: "shape r = ?S"
    using reverse_chain_onto [OF sh col xs _ _ S, of eps "fresh_noise (shape x) w"] xs es
    by (auto simp: fresh_noise_simps)
  have "p_sample self x (PyTensor ?t) w = (Inr r, after_draw (shape x) w)"
    using c1 call c2 unfolding p_sample_unfold t by simp
  then show ?thesis using rs by auto
qed

lemma run_steps_ok:
  assumes "shape (alphas_cumprod (self_scheduler self w)) = [T]"
      "shape (alphas (self_scheduler self w)) = [T]" "shape (betas (self_scheduler self w)) = [T]"
    and "list_all (\<lambda>j. 0 \<le> j \<and> j < int T) ts"
    and "always_returns (self_network self w)" "shape_preserving (self_network self w)"
  shows "\<exists>r w'. run_steps self ts x w = (Inr r, w') \<and> (shape x \<noteq> [] \<longrightarrow> shape r = shape x)"
  using assms
proof (induction ts arbitrary: x w)
  case Nil
  then show ?case by (simp add: sreturn_def)
next
  case (Cons k ts)
  have k: "0 \<le> k" "k < int T" using Cons.prems(4) by simp_all
  obtain v w1 where p: "p_sample self x (PyTensor (L1 [k])) w = (Inr v, w1)"
    and vs: "shape x \<noteq> [] \<longrightarrow> shape v = shape x"
    using p_sample_single_ok [OF Cons.prems(1,2,3) k Cons.prems(5,6)] by blast
  note o = p_sample_objects [OF p]
  obtain r w' where r: "run_steps self ts v w1 = (Inr r, w')"
    and rs: "shape v \<noteq> [] \<longrightarrow> shape r = shape v"
    using Cons.IH [of w1 v] Cons.prems o by auto
  show ?case using p r vs rs by (auto simp: sbind_def)
qed

lemma run_steps_shape:
  assumes "run_steps self ts x w = (Inr r, w')"
    and "shape_preserving (self_network self w)" and "shape x = b # ds"
  shows "shape r = shape x"
  using assms
proof (induction ts arbitrary: x w)
  case Nil
  then show ?case by (simp add: sreturn_def)
next
  case (Cons k ts)
  obtain res w1 where p: "p_sample self x (PyTensor (L1 [k])) w = (res, w1)"
    by (cases "p_sample self x (PyTensor (L1 [k])) w")
  then obtain v where v: "res = Inr v" and rest: "run_steps self ts v w1 = (Inr r, w')"
    using Cons.prems(1) by (cases res) (auto simp: sbind_def)
  have t: "as_tensor (PyTensor (L1 [k])) = L1 [k]" by (simp add: as_tensor_def)
  obtain eps where call: "net_call (self_network self w) x (L1 [k]) = Inr eps"
    using p v unfolding p_sample_unfold t
    by (cases "net_call (self_network self w) x (L1 [k])") (auto split: sum.splits prod.splits)
  have es: "bcast_to (shape eps) (shape x)"
    using Cons.prems(2) call by (auto simp: shape_preserving_def bcast_to_refl)
  have call': "net_call (self_network self w) x (as_tensor (PyTensor (L1 [k]))) = Inr eps"
    using call t by simp
  have p': "p_sample self x (PyTensor (L1 [k])) w = (Inr v, w1)" using p v by simp
  have one: "length (lt_list (as_tensor (PyTensor (L1 [k])))) = b
      \<or> length (lt_list (as_tensor (PyTensor (L1 [k])))) = 1"
    by (simp add: t)
  have vs: "shape v = shape x"
    by (rule p_sample_shape [OF p' call' es Cons.prems(3) one])
  note o = p_sample_objects [OF p]
  have "shape r = shape v"
    using Cons.IH [OF rest] Cons.prems(2,3) o vs by simp
  then show ?case using vs by simp
qed

section \<open>Lemmas on the shapes of the results\<close>

lemma forward_chain_bcast:
  assumes "forward_chain acp t x0 nz = Inr xt"
  shows "bcast_to (col_shape t x0) (shape xt)" and "bcast_to (shape x0) (shape xt)"
    and "bcast_to (shape nz) (shape xt)"
proof -
  obtain c l r where c: "extract' acp t x0 = Inr c"
    and l: "binop fmul (tsqrt c) x0 = Inr l"
    and r: "binop fmul (tsqrt (rsubf 1 c)) nz = Inr r"
    and xt: "binop fadd l r = Inr xt"
    using assms by (auto simp: forward_chain_def ebind_Inr_iff tmul_def tadd_def)
  have cs: "shape c = col_shape t x0" using extract_Inr [OF c] by simp
  have bl: "bcast_to (shape l) (shape xt)" and br: "bcast_to (shape r) (shape xt)"
    using binop_Inr [OF xt] by simp_all
  show "bcast_to (col_shape t x0) (shape xt)"
    using binop_Inr [OF l] bl by (auto simp: tsqrt_def tmap_simps cs intro: bcast_to_trans)
  show "bcast_to (shape x0) (shape xt)"
    using binop_Inr [OF l] bl by (auto intro: bcast_to_trans)
  show "bcast_to (shape nz) (shape xt)"
    using binop_Inr [OF r] br by (auto intro: bcast_to_trans)
qed

lemma forward_chain_shape:
  assumes run: "forward_chain acp t x0 nz = Inr xt"
    and col: "bcast_to (col_shape t x0) (shape x0)"
  shows "shape xt = shape x0 \<longleftrightarrow> bcast_to (shape nz) (shape x0)"
proof
  assume "shape xt = shape x0"
  then show "bcast_to (shape nz) (shape x0)" using forward_chain_bcast(3) [OF run] by simp
next
  assume nz: "bcast_to (shape nz) (shape x0)"
  obtain c l r where c: "extract' acp t x0 = Inr c"
    and l: "binop fmul (tsqrt c) x0 = Inr l"
    and r: "binop fmul (tsqrt (rsubf 1 c)) nz = Inr r"
    and xt: "binop fadd l r = Inr xt"
    using run by (auto simp: forward_chain_def ebind_Inr_iff tmul_def tadd_def)
  have cs: "shape c = col_shape t x0" using extract_Inr [OF c] by simp
  have s1: "bcast_to (shape (tsqrt c)) (shape x0)" using col cs by (simp add: tsqrt_def tmap_simps)
  have s2: "bcast_to (shape (tsqrt (rsubf 1 c))) (shape x0)"
    using col cs by (simp add: tsqrt_def rsubf_def tmap_simps)
  have ls: "bcast_to (shape l) (shape x0)" using binop_join [where a = "tsqrt c" and b = x0 and s = "shape x0" and f = fmul] s1 bcast_to_refl l
    by auto
  have rs: "bcast_to (shape r) (shape x0)" using binop_join [where a = "tsqrt (rsubf 1 c)" and b = nz and s = "shape x0" and f = fmul] s2 nz r
    by auto
  have "bcast_to (shape xt) (shape x0)" using binop_join [where a = l and b = r and s = "shape x0" and f = fadd] ls rs xt by auto
  then show "shape xt = shape x0"
    using bcast_to_antisym forward_chain_bcast(2) [OF run] by blast
qed

lemma reverse_chain_bcast:
  assumes "reverse_chain t xt a_t b_t ef eps nz = Inr r"
  shows "bcast_to (shape xt) (shape r)" and "bcast_to (shape eps) (shape r)"
proof -
  obtain sc df mn sn mk where sc: "binop fmul ef eps = Inr sc"
    and df: "binop fsub xt sc = Inr df"
    and mn: "binop fmul (rdivf 1 (tsqrt a_t)) df = Inr mn"
    and sn: "binop fmul (tsqrt b_t) nz = Inr sn"
    and mk: "binop fmul (nonzero_mask t xt) sn = Inr mk"
    and r: "binop fadd mn mk = Inr r"
    using assms by (auto simp: reverse_chain_def ebind_Inr_iff tmul_def tsub_def tadd_def)
  have b_mn: "bcast_to (shape mn) (shape r)" using binop_Inr [OF r] by simp
  have b_df: "bcast_to (shape df) (shape r)"
    using binop_Inr [OF mn] b_mn by (blast intro: bcast_to_trans)
  have b_sc: "bcast_to (shape sc) (shape r)"
    using binop_Inr [OF df] b_df by (blast intro: bcast_to_trans)
  show "bcast_to (shape xt) (shape r)"
    using binop_Inr [OF df] b_df by (blast intro: bcast_to_trans)
  show "bcast_to (shape eps) (shape r)"
    using binop_Inr [OF sc] b_sc by (blast intro: bcast_to_trans)
qed

lemma p_sample_Inr:
  assumes "p_sample self xt t0 w = (Inr r, w')"
  shows "\<exists>a_t b_t ef eps.
           reverse_factors (self_scheduler self w) (as_tensor t0) xt = Inr (a_t, b_t, ef)
         \<and> net_call (self_network self w) xt (as_tensor t0) = Inr eps
         \<and> reverse_chain (as_tensor t0) xt a_t b_t ef eps (fresh_noise (shape xt) w) = Inr r
         \<and> w' = after_draw (shape xt) w"
proof -
  let ?s = "self_scheduler self w" and ?t = "as_tensor t0" and ?n = "self_network self w"
  have par: "\<not> ((\<exists>j. t0 = PyInt j) \<and> \<not> has_parameters ?n)"
    using assms by (auto simp: p_sample_unfold)
  obtain a_t b_t ef where c1: "reverse_factors ?s ?t xt = Inr (a_t, b_t, ef)"
    using assms par unfolding p_sample_unfold by (cases "reverse_factors ?s ?t xt") auto
  obtain eps where e: "net_call ?n xt ?t = Inr eps"
    using assms par c1 unfolding p_sample_unfold by (cases "net_call ?n xt ?t") auto
  have "reverse_chain ?t xt a_t b_t ef eps (fresh_noise (shape xt) w) = Inr r
      \<and> w' = after_draw (shape xt) w"
    using assms par c1 e unfolding p_sample_unfold by simp
  then show ?thesis using c1 e by blast
qed

lemma q_sample_ok:
  assumes "shape (alphas_cumprod (self_scheduler self w)) = [T]"
    and "list_all (\<lambda>i. 0 \<le> i \<and> i < int T) (lt_list t)"
    and "shape x0 = b # ds" and "length (lt_list t) = b \<or> length (lt_list t) = 1"
    and "bcast_to (shape (noise_used noise x0 w)) (shape x0)"
  shows "\<exists>xt w'. q_sample self x0 t noise w = (Inr xt, w') \<and> shape xt = shape x0"
proof -
  obtain xt where "forward_chain (alphas_cumprod (self_scheduler self w)) t x0
      (noise_used noise x0 w) = Inr xt" "shape xt = shape x0"
    using forward_chain_ok [OF assms(1,2) col_bcast_to [OF assms(3,4)] assms(5)] by blast
  then show ?thesis by (cases noise) (auto simp: q_sample_unfold noise_used_def)
qed

lemma p_sample_ok:
  assumes "shape (alphas_cumprod (self_scheduler self w)) = [T]"
      "shape (alphas (self_scheduler self w)) = [T]" "shape (betas (self_scheduler self w)) = [T]"
    and "list_all (\<lambda>j. 0 \<le> j \<and> j < int T) (lt_list (as_tensor t0))"
    and "shape xt = b # ds"
    and "length (lt_list (as_tensor t0)) = b \<or> length (lt_list (as_tensor t0)) = 1"
    and "(\<exists>j. t0 = PyInt j) \<longrightarrow> has_parameters (self_network self w)"
    and "net_call (self_network self w) xt (as_tensor t0) = Inr eps"
    and "bcast_to (shape eps) (shape xt)"
  shows "\<exists>r w'. p_sample self xt t0 w = (Inr r, w') \<and> shape r = shape xt"
proof -
  let ?t = "as_tensor t0"
  obtain a_t b_t ef where c1: "reverse_factors (self_scheduler self w) ?t xt = Inr (a_t, b_t, ef)"
    and sh: "shape a_t = col_shape ?t xt" "shape b_t = col_shape ?t xt" "shape ef = col_shape ?t xt"
    using reverse_factors_ok [OF assms(1,2,3,4)] by blast
  have nzb: "bcast_to (shape (fresh_noise (shape xt) w)) (shape xt)"
    by (simp add: fresh_noise_simps bcast_to_refl)
  obtain r where c2: "reverse_chain ?t xt a_t b_t ef eps (fresh_noise (shape xt) w) = Inr r"
    and rs: "shape r = shape xt"
    using reverse_chain_ok [OF sh col_bcast_to [OF assms(5,6)] assms(9) nzb] by blast
  have "p_sample self xt t0 w = (Inr r, after_draw (shape xt) w)"
    using assms(7,8) c1 c2 unfolding p_sample_unfold by auto
  then show ?thesis using rs by blast
qed

section \<open>Lemmas on the loss\<close>

lemma after_randint_simps [simp]:
  "w_nets (after_randint B w) = w_nets w" "w_scheds (after_randint B w) = w_scheds w"
  "w_mods (after_randint B w) = w_mods w" "w_next (after_randint B w) = w_next w"
  "w_files (after_randint B w) = w_files w" "w_writable (after_randint B w) = w_writable w"
  "w_weights_only (after_randint B w) = w_weights_only w"
  "self_scheduler self (after_randint B w) = self_scheduler self w"
  "self_network self (after_randint B w) = self_network self w"
  by (simp_all add: after_randint_def self_scheduler_def self_network_def)

lemma randint_eq:
  "randint 0 T B w =
     (if T \<le> 0 then (Inl RuntimeError, w) else (Inr (drawn_timesteps T B w), after_randint B w))"
  by (simp add: randint_def drawn_timesteps_def after_randint_def)

lemma drawn_timesteps_range:
  assumes "0 < T"
  shows "length (drawn_timesteps T B w) = B
     \<and> list_all (\<lambda>i. 0 \<le> i \<and> i < T) (drawn_timesteps T B w)"
proof -
  have "int (k mod nat T) < T" for k
  proof -
    have "k mod nat T < nat T" using assms by simp
    then show ?thesis using assms by linarith
  qed
  then show ?thesis by (auto simp: drawn_timesteps_def list_all_iff)
qed

lemma compute_loss_unfold:
  "compute_loss self x0 w =
     (case shape x0 of
        [] \<Rightarrow> (Inl IndexError, w)
      | B # rest \<Rightarrow>
          if num_train_timesteps (self_scheduler self w) \<le> 0 then (Inl RuntimeError, w)
          else
            let t = drawn_timesteps (num_train_timesteps (self_scheduler self w)) B w;
                w1 = after_randint B w;
                noise = fresh_noise (shape x0) w1;
                w2 = after_draw (shape x0) w1
            in case forward_chain (alphas_cumprod (self_scheduler self w)) (L1 t) x0 noise of
                 Inl e \<Rightarrow> (Inl e, w2)
               | Inr xt \<Rightarrow>
                   (case net_call (self_network self w) xt (L1 t) of
                      Inl e \<Rightarrow> (Inl e, w2)
                    | Inr pred_noise \<Rightarrow> (mse_loss pred_noise noise, w2)))"
  by (cases "shape x0")
    (auto simp: compute_loss_def sbind_def lift_def get_scheduler_def get_network_def randint_eq
      randn_like_eq q_sample_unfold Let_def split: sum.splits)

lemma mse_loss_same:
  assumes "shape p = shape n"
  shows "mse_loss p n = Inr \<lparr>shape = [], data = [spec_mse p n]\<rparr>"
proof -
  let ?f = "\<lambda>a b. fmul (fsub a b) (fsub a b)"
  have "binop ?f p n = Inr (tabulate (shape n) (\<lambda>idx. ?f (tensor_at p idx) (tensor_at n idx)))"
    by (rule binop_same [OF assms refl])
  then show ?thesis
    by (simp add: mse_loss_def ebind_def tabulate_def spec_mse_def length_indices)
qed

lemma batch_row_full:
  assumes "shape x = b # ds" and "idx \<in> set (indices (b # ds))" and "length (lt_list t) = b"
  shows "batch_row t x idx = hd idx"
proof -
  obtain i js where "idx = i # js" "i < b" using assms(2) by (rule indices_Cons_elim)
  then show ?thesis using batch_row_std [OF assms(1,2), of t] assms(3)
    by (auto simp: row_index_def)
qed

section \<open>The claims\<close>

text \<open>
  C4. For \<open>T \<ge> 0\<close> timesteps, construction in mode \<open>linear\<close> (or in mode \<open>quad\<close> with
  non-negative boundary values) returns a scheduler whose three buffers have length
  \<open>T\<close>: \<open>betas\<close> is the linear interpolation from \<open>beta_1\<close> to \<open>beta_T\<close> (in mode
  \<open>quad\<close> the square of the linear interpolation of the square roots), \<open>alphas\<close> is
  \<open>1 - betas\<close> elementwise and \<open>alphas_cumprod\<close> is the running product of \<open>alphas\<close>.
  For \<open>T = 1000\<close>, \<open>beta_1 = 1e-4\<close>, \<open>beta_T = 0.02\<close>, mode \<open>linear\<close>: \<open>betas[0] = 1e-4\<close>
  and \<open>betas[999] = 0.02\<close>.
\<close>

theorem BaseScheduler_sequences:
  assumes "0 \<le> T"
    and "mode = ''linear'' \<or> mode = ''quad'' \<and> 0 \<le> beta_1 \<and> 0 \<le> beta_T"
  shows "(\<exists>s. BaseScheduler T beta_1 beta_T mode = Inr s
          \<and> shape (betas s) = [nat T] \<and> length (data (betas s)) = nat T
          \<and> shape (alphas s) = [nat T] \<and> length (data (alphas s)) = nat T
          \<and> shape (alphas_cumprod s) = [nat T] \<and> length (data (alphas_cumprod s)) = nat T
          \<and> (\<forall>i<nat T.
                data (betas s) ! i = spec_betas mode beta_1 beta_T (nat T) i
              \<and> data (alphas s) ! i = 1 - data (betas s) ! i
              \<and> data (alphas_cumprod s) ! i = prod_list (take (Suc i) (data (alphas s)))))
       \<and> (\<exists>s. BaseScheduler 1000 (1 / 10000) (2 / 100) ''linear'' = Inr s
          \<and> data (betas s) ! 0 = 1 / 10000 \<and> data (betas s) ! 999 = 2 / 100)"
proof -
  let ?bs = "\<lparr>shape = [nat T], data = map (spec_betas mode beta_1 beta_T (nat T)) [0..<nat T]\<rparr>"
  have eq: "BaseScheduler T beta_1 beta_T mode = Inr (sched_of T ?bs)"
    by (rule BaseScheduler_eq [OF assms(1) assms(2)])
  have first: "\<exists>s. BaseScheduler T beta_1 beta_T mode = Inr s
          \<and> shape (betas s) = [nat T] \<and> length (data (betas s)) = nat T
          \<and> shape (alphas s) = [nat T] \<and> length (data (alphas s)) = nat T
          \<and> shape (alphas_cumprod s) = [nat T] \<and> length (data (alphas_cumprod s)) = nat T
          \<and> (\<forall>i<nat T.
                data (betas s) ! i = spec_betas mode beta_1 beta_T (nat T) i
              \<and> data (alphas s) ! i = 1 - data (betas s) ! i
              \<and> data (alphas_cumprod s) ! i = prod_list (take (Suc i) (data (alphas s))))"
    unfolding eq
    by (intro exI [of _ "sched_of T ?bs"])
      (simp add: sched_of_simps rsub_simps cumprod_simps length_cumprod_from cumprod_from_nth)
  have ex: "BaseScheduler 1000 (1 / 10000) (2 / 100) ''linear'' =
      Inr (sched_of 1000 \<lparr>shape = [nat 1000],
        data = map (spec_betas ''linear'' (1 / 10000) (2 / 100) (nat 1000)) [0..<nat 1000]\<rparr>)"
    by (rule BaseScheduler_eq) simp_all
  have second: "\<exists>s. BaseScheduler 1000 (1 / 10000) (2 / 100) ''linear'' = Inr s
          \<and> data (betas s) ! 0 = 1 / 10000 \<and> data (betas s) ! 999 = 2 / 100"
    unfolding ex
    by (intro exI [of _ "sched_of 1000 \<lparr>shape = [nat 1000],
        data = map (spec_betas ''linear'' (1 / 10000) (2 / 100) (nat 1000)) [0..<nat 1000]\<rparr>"])
      (simp add: sched_of_simps spec_betas_def spec_lerp_def)
  show ?thesis using first second by blast
qed

theorem BaseScheduler_sequences_witness:
  "(0::int) \<le> 3 \<and> (\<exists>s. BaseScheduler 3 (1 / 10) (1 / 2) ''linear'' = Inr s
      \<and> shape (betas s) = [3] \<and> data (betas s) ! 1 = 3 / 10
      \<and> data (alphas s) ! 1 = 7 / 10)"
proof -
  obtain s where s: "BaseScheduler 3 (1 / 10) (1 / 2) ''linear'' = Inr s"
    "shape (betas s) = [nat 3]"
    "\<forall>i<nat 3. data (betas s) ! i = spec_betas ''linear'' (1 / 10) (1 / 2) (nat 3) i
              \<and> data (alphas s) ! i = 1 - data (betas s) ! i
              \<and> data (alphas_cumprod s) ! i = prod_list (take (Suc i) (data (alphas s)))"
    using BaseScheduler_sequences [of 3 "''linear''" "1 / 10" "1 / 2"] by auto
  have "data (betas s) ! 1 = 3 / 10" using s(3) by (simp add: spec_betas_def spec_lerp_def)
  moreover have "data (alphas s) ! 1 = 1 - data (betas s) ! 1" using s(3) by simp
  ultimately show ?thesis using s(1,2) by simp
qed

text \<open>
  C5, as amended. Whenever construction with \<open>beta_1 < beta_T\<close> returns a scheduler (that
  is for \<open>T \<ge> 0\<close> in mode \<open>linear\<close>, and in mode \<open>quad\<close> with non-negative boundary
  values), \<open>betas\<close> is non-decreasing. When moreover \<open>0 \<le> beta_1\<close> and \<open>beta_T \<le> 1\<close>,
  \<open>alphas_cumprod\<close> is non-increasing and every element lies in \<open>[0, 1]\<close>. For \<open>T = 1000\<close>,
  \<open>beta_1 = 1e-4\<close>, \<open>beta_T = 0.02\<close>, mode \<open>linear\<close>, \<open>alphas_cumprod\<close> is strictly
  decreasing. The counterexample shows that \<open>beta_1 < beta_T\<close> alone is not enough for
  the part on \<open>alphas_cumprod\<close>: with \<open>beta_T = 3/2\<close> the second cumulative product is
  negative, with \<open>beta_1 = -1\<close> the cumulative products increase beyond 1, and with
  \<open>beta_T = 1\<close> the last cumulative product is 0, outside \<open>(0, 1]\<close>.
\<close>

theorem BaseScheduler_monotone:
  assumes "BaseScheduler T beta_1 beta_T mode = Inr s" and "beta_1 < beta_T"
  shows "sorted (data (betas s))
       \<and> (0 \<le> beta_1 \<and> beta_T \<le> 1 \<longrightarrow>
            sorted_wrt (\<lambda>x y. y \<le> x) (data (alphas_cumprod s))
          \<and> list_all (\<lambda>x. 0 \<le> x \<and> x \<le> 1) (data (alphas_cumprod s)))
       \<and> (\<exists>s. BaseScheduler 1000 (1 / 10000) (2 / 100) ''linear'' = Inr s
          \<and> sorted_wrt (\<lambda>x y. y < x) (data (alphas_cumprod s)))"
proof -
  let ?bs = "\<lparr>shape = [nat T], data = map (spec_betas mode beta_1 beta_T (nat T)) [0..<nat T]\<rparr>"
  have le: "beta_1 \<le> beta_T" using assms(2) by simp
  have ok: "0 \<le> T" "mode = ''linear'' \<or> mode = ''quad'' \<and> 0 \<le> beta_1 \<and> 0 \<le> beta_T"
    using BaseScheduler_Inr [OF assms(1)] by simp_all
  have "BaseScheduler T beta_1 beta_T mode = Inr (sched_of T ?bs)"
    by (rule BaseScheduler_eq [OF ok])
  then have s: "s = sched_of T ?bs" using assms(1) by simp
  have q: "mode = ''quad'' \<longrightarrow> 0 \<le> beta_1" using ok(2) by auto
  have a: "sorted (data (betas s))"
    using sorted_spec_betas_gen [OF le q] by (simp add: s sched_of_simps)
  have bc: "sorted_wrt (\<lambda>x y. y \<le> x) (data (alphas_cumprod s))
          \<and> list_all (\<lambda>x. 0 \<le> x \<and> x \<le> 1) (data (alphas_cumprod s))"
    if h: "0 \<le> beta_1 \<and> beta_T \<le> 1"
  proof -
    have r: "list_all (\<lambda>x. 0 \<le> x \<and> x \<le> 1) (data (alphas s))"
      using alphas_weak_range [of beta_1 beta_T mode "nat T"] h le
      by (simp add: s sched_of_simps rsub_simps)
    have z: "(0::real) \<le> 1" by simp
    show ?thesis
      using cumprod_from_weak_nonincreasing [OF z r] cumprod_from_weak_bounds [OF z r]
      by (simp add: s sched_of_simps cumprod_simps rsub_simps)
  qed
  let ?ex = "\<lparr>shape = [nat 1000],
        data = map (spec_betas ''linear'' (1 / 10000) (2 / 100) (nat 1000)) [0..<nat 1000]\<rparr>"
  have ex: "BaseScheduler 1000 (1 / 10000) (2 / 100) ''linear'' = Inr (sched_of 1000 ?ex)"
    by (rule BaseScheduler_eq) simp_all
  have "list_all (\<lambda>x. 0 < x \<and> x < 1) (data (alphas (sched_of 1000 ?ex)))"
    using alphas_strict_range [of "1 / 10000" "2 / 100" "''linear''" "nat 1000"]
    by (simp add: sched_of_simps rsub_simps)
  then have d: "sorted_wrt (\<lambda>x y. y < x) (data (alphas_cumprod (sched_of 1000 ?ex)))"
    using cumprod_from_decreasing [OF zero_less_one]
    by (simp add: sched_of_simps cumprod_simps)
  show ?thesis using a bc ex d by blast
qed

theorem BaseScheduler_monotone_witness:
  "BaseScheduler 2 (1 / 4) 1 ''quad'' =
     Inr \<lparr>num_train_timesteps = 2, timesteps = [1, 0],
          betas = \<lparr>shape = [2], data = [1 / 4, 1]\<rparr>,
          alphas = \<lparr>shape = [2], data = [3 / 4, 0]\<rparr>,
          alphas_cumprod = \<lparr>shape = [2], data = [3 / 4, 0]\<rparr>\<rparr>
   \<and> (1 / 4 :: real) < 1
   \<and> sorted [1 / 4, 1 :: real]
   \<and> sorted_wrt (\<lambda>x y. y \<le> x) [3 / 4, 0 :: real]
   \<and> list_all (\<lambda>x. 0 \<le> x \<and> x \<le> 1) [3 / 4, 0 :: real]"
proof -
  have sq: "sqrt (1 / 4) = 1 / 2" by (rule real_sqrt_unique) (simp_all add: power2_eq_square)
  have eq: "BaseScheduler 2 (1 / 4) 1 ''quad'' =
     Inr \<lparr>num_train_timesteps = 2, timesteps = [1, 0],
          betas = \<lparr>shape = [2], data = [1 / 4, 1]\<rparr>,
          alphas = \<lparr>shape = [2], data = [3 / 4, 0]\<rparr>,
          alphas_cumprod = \<lparr>shape = [2], data = [3 / 4, 0]\<rparr>\<rparr>"
    by (simp add: BaseScheduler_def linspace_def ebind_def Let_def rsub_def tmap_def cumprod_def
        tsquare_def numeral_2_eq_2 sq power2_eq_square upto.simps)
  have lt: "(1 / 4 :: real) < 1" by simp
  show ?thesis using BaseScheduler_monotone [OF eq lt] eq by simp
qed

theorem BaseScheduler_monotone_counterexample:
  "(1 / 2 :: real) < 3 / 2
   \<and> (case BaseScheduler 2 (1 / 2) (3 / 2) ''linear'' of
        Inl e \<Rightarrow> False
      | Inr s \<Rightarrow> data (alphas_cumprod s) = [1 / 2, - (1 / 4)]
          \<and> \<not> (0 < data (alphas_cumprod s) ! 1 \<and> data (alphas_cumprod s) ! 1 \<le> 1))
   \<and> (- 1 :: real) < - (1 / 2)
   \<and> (case BaseScheduler 2 (- 1) (- (1 / 2)) ''linear'' of
        Inl e \<Rightarrow> False
      | Inr s \<Rightarrow> data (alphas_cumprod s) = [2, 3]
          \<and> \<not> sorted_wrt (\<lambda>x y. y \<le> x) (data (alphas_cumprod s)))
   \<and> (1 / 2 :: real) < 1
   \<and> (case BaseScheduler 2 (1 / 2) 1 ''linear'' of
        Inl e \<Rightarrow> False
      | Inr s \<Rightarrow> data (alphas_cumprod s) = [1 / 2, 0]
          \<and> \<not> (0 < data (alphas_cumprod s) ! 1 \<and> data (alphas_cumprod s) ! 1 \<le> 1))"
  by (simp add: BaseScheduler_def linspace_def ebind_def Let_def rsub_def tmap_def cumprod_def
      numeral_2_eq_2)

text \<open>
  C1, as amended. Whenever \<open>q_sample\<close> returns, its result is
  \<open>xt = sqrt(alphas_cumprod[t]) * x0 + sqrt(1 - alphas_cumprod[t]) * noise\<close> at every
  index, in float arithmetic, each operand read at its broadcast index and the schedule
  scalar being the one gathered for the element's position in the batch of timesteps; the
  noise is the supplied tensor, or the draw of \<^verbatim>\<open>randn_like\<close>, which has the shape of
  \<open>x0\<close> and finite elements. Where the schedule scalar lies in \<open>[0, 1]\<close> and the operands
  are finite this is the equation in ordinary arithmetic. With the noise zero the result
  is \<open>sqrt(alphas_cumprod[t]) * x0\<close> wherever \<open>alphas_cumprod[t] \<le> 1\<close>; the counterexample
  shows that this condition is needed: for the schedule built from \<open>beta_1 = -1/2\<close>,
  \<open>beta_T = 1/2\<close> the first cumulative product is \<open>3/2\<close>, the square root of
  \<open>1 - 3/2\<close> is NaN and so is the result, zero noise or not.
  \<open>q_sample\<close> returns when the scheduler's \<open>alphas_cumprod\<close> has \<open>T\<close> entries, \<open>x0\<close> has
  a leading batch dimension \<open>b\<close>, the timesteps lie in \<open>[0, T)\<close> and are one per example
  or a single one (a scalar included), and the shape of the noise broadcasts to that of
  \<open>x0\<close>: then \<open>xt\<close> has the shape of \<open>x0\<close> and the schedule scalar depends on the leading
  index only.
\<close>

theorem q_sample_forward:
  assumes "acp = alphas_cumprod (self_scheduler self w)" and "nz = noise_used noise x0 w"
  shows "(noise = None \<longrightarrow> shape nz = shape x0 \<and> (\<forall>v\<in>set (data nz). \<exists>r. v = Fin r))
    \<and> (\<forall>xt w'. q_sample self x0 t noise w = (Inr xt, w') \<longrightarrow>
         (\<forall>idx\<in>set (indices (shape xt)).
            tensor_at xt idx =
              fadd (fmul (fsqrt (Fin (gathered acp t x0 idx))) (tensor_at x0 (bidx (shape x0) idx)))
                   (fmul (fsqrt (Fin (1 - gathered acp t x0 idx)))
                         (tensor_at nz (bidx (shape nz) idx)))
          \<and> (\<forall>x n. 0 \<le> gathered acp t x0 idx \<and> gathered acp t x0 idx \<le> 1
                 \<and> tensor_at x0 (bidx (shape x0) idx) = Fin x
                 \<and> tensor_at nz (bidx (shape nz) idx) = Fin n \<longrightarrow>
                 tensor_at xt idx = Fin (real_q_sample (gathered acp t x0 idx) x n))
          \<and> (gathered acp t x0 idx \<le> 1 \<and> tensor_at nz (bidx (shape nz) idx) = Fin 0 \<longrightarrow>
                 tensor_at xt idx =
                   fmul (fsqrt (Fin (gathered acp t x0 idx)))
                        (tensor_at x0 (bidx (shape x0) idx)))))
    \<and> (shape acp = [T]
        \<and> list_all (\<lambda>i. 0 \<le> i \<and> i < int T) (lt_list t)
        \<and> shape x0 = b # ds
        \<and> (length (lt_list t) = b \<or> length (lt_list t) = 1)
        \<and> bcast_to (shape nz) (shape x0) \<longrightarrow>
         (\<exists>xt w'. q_sample self x0 t noise w = (Inr xt, w')
            \<and> shape xt = shape x0
            \<and> (\<forall>idx\<in>set (indices (shape x0)).
                 batch_row t x0 idx = (if length (lt_list t) = 1 then 0 else hd idx))))"
proof -
  obtain w1 where run: "q_sample self x0 t noise w = (forward_chain acp t x0 nz, w1)"
    by (cases noise) (simp_all add: q_sample_unfold assms noise_used_def)
  have p1: "noise = None \<longrightarrow> shape nz = shape x0 \<and> (\<forall>v\<in>set (data nz). \<exists>r. v = Fin r)"
    by (auto simp: assms(2) noise_used_def fresh_noise_simps)
  have p2: "tensor_at xt idx =
              fadd (fmul (fsqrt (Fin (gathered acp t x0 idx))) (tensor_at x0 (bidx (shape x0) idx)))
                   (fmul (fsqrt (Fin (1 - gathered acp t x0 idx)))
                         (tensor_at nz (bidx (shape nz) idx)))
          \<and> (\<forall>x n. 0 \<le> gathered acp t x0 idx \<and> gathered acp t x0 idx \<le> 1
                 \<and> tensor_at x0 (bidx (shape x0) idx) = Fin x
                 \<and> tensor_at nz (bidx (shape nz) idx) = Fin n \<longrightarrow>
                 tensor_at xt idx = Fin (real_q_sample (gathered acp t x0 idx) x n))
          \<and> (gathered acp t x0 idx \<le> 1 \<and> tensor_at nz (bidx (shape nz) idx) = Fin 0 \<longrightarrow>
                 tensor_at xt idx =
                   fmul (fsqrt (Fin (gathered acp t x0 idx)))
                        (tensor_at x0 (bidx (shape x0) idx)))"
    if r: "q_sample self x0 t noise w = (Inr xt, w')" and idx: "idx \<in> set (indices (shape xt))"
    for xt w' idx
  proof -
    have "forward_chain acp t x0 nz = Inr xt" using run r by simp
    then have "tensor_at xt idx = spec_q_sample acp t x0 nz idx"
      using idx unfolding forward_chain_def by (rule q_sample_general(1))
    then show ?thesis by (simp add: spec_q_sample_def real_q_sample_def)
  qed
  have p3: "\<exists>xt w'. q_sample self x0 t noise w = (Inr xt, w')
            \<and> shape xt = shape x0
            \<and> (\<forall>idx\<in>set (indices (shape x0)).
                 batch_row t x0 idx = (if length (lt_list t) = 1 then 0 else hd idx))"
    if h: "shape acp = [T]" "list_all (\<lambda>i. 0 \<le> i \<and> i < int T) (lt_list t)"
      "shape x0 = b # ds" "length (lt_list t) = b \<or> length (lt_list t) = 1"
      "bcast_to (shape nz) (shape x0)"
  proof -
    obtain xt where c: "forward_chain acp t x0 nz = Inr xt" and sh: "shape xt = shape x0"
      using forward_chain_ok [OF h(1,2) col_bcast_to [OF h(3,4)] h(5)] by blast
    have "batch_row t x0 idx = (if length (lt_list t) = 1 then 0 else hd idx)"
      if "idx \<in> set (indices (shape x0))" for idx
      using batch_row_std [OF h(3), of idx t] that h(3) by (simp add: row_index_def)
    then show ?thesis using run c sh by auto
  qed
  show ?thesis using p1 p2 p3 by blast
qed

theorem q_sample_forward_witness:
  "shape (alphas_cumprod (self_scheduler 0 example_world)) = [2]
   \<and> list_all (\<lambda>i. 0 \<le> i \<and> i < int 2) (lt_list (L1 [1, 0]))
   \<and> shape example_x = [2, 1]
   \<and> length (lt_list (L1 [1, 0])) = 2
   \<and> bcast_to (shape \<lparr>shape = [2, 1], data = [Fin 0, Fin 0]\<rparr>) (shape example_x)
   \<and> (\<exists>xt w'. q_sample 0 example_x (L1 [1, 0])
          (Some \<lparr>shape = [2, 1], data = [Fin 0, Fin 0]\<rparr>) example_world = (Inr xt, w')
        \<and> shape xt = [2, 1]
        \<and> tensor_at xt [0, 0] = Fin (6 / 5)
        \<and> tensor_at xt [1, 0] = Fin (27 / 5))"
proof -
  let ?nz = "\<lparr>shape = [2, 1], data = [Fin 0, Fin 0 :: fl]\<rparr>"
  let ?acp = "alphas_cumprod (self_scheduler 0 example_world)"
  have nz: "noise_used (Some ?nz) example_x example_world = ?nz" by (simp add: noise_used_def)
  note th = q_sample_forward [OF refl refl, where self = 0 and w = example_world
      and noise = "Some ?nz" and ?x0.0 = example_x and t = "L1 [1, 0]" and T = 2 and b = 2
      and ds = "[1]", unfolded nz]
  have h: "shape ?acp = [2]
        \<and> list_all (\<lambda>i. 0 \<le> i \<and> i < int 2) (lt_list (L1 [1, 0]))
        \<and> shape example_x = [2, 1]
        \<and> (length (lt_list (L1 [1, 0])) = 2 \<or> length (lt_list (L1 [1, 0])) = 1)
        \<and> bcast_to (shape ?nz) (shape example_x)"
    by (simp add: example_facts bcast_to_def)
  have idxs: "set (indices (shape example_x)) = {[0, 0], [1, 0]}"
    by (simp add: example_facts numeral_2_eq_2)
  obtain xt w' where r: "q_sample 0 example_x (L1 [1, 0]) (Some ?nz) example_world = (Inr xt, w')"
    and sh: "shape xt = shape example_x"
    and row: "\<forall>idx\<in>set (indices (shape example_x)).
        batch_row (L1 [1, 0]) example_x idx = (if length (lt_list (L1 [1, 0])) = 1 then 0 else hd idx)"
    using th h by blast
  have m0: "[0, 0] \<in> set (indices (shape xt))" and m1: "[1, 0] \<in> set (indices (shape xt))"
    unfolding sh idxs by simp_all
  have b: "bidx [2, 1] [0, 0] = [0, 0]" "bidx [2, 1] [1, 0] = [0, 0] \<or> bidx [2, 1] [1, 0] = [1, 0]"
    by (simp_all add: bidx_def)
  have g0: "gathered ?acp (L1 [1, 0]) example_x [0, 0] = 9 / 100"
    using row unfolding idxs by (simp add: gathered_def example_facts example_scheduler_def)
  have g1: "gathered ?acp (L1 [1, 0]) example_x [1, 0] = 9 / 25"
    using row unfolding idxs by (simp add: gathered_def example_facts example_scheduler_def)
  have val: "\<forall>idx\<in>set (indices (shape xt)).
      gathered ?acp (L1 [1, 0]) example_x idx \<le> 1
      \<and> tensor_at ?nz (bidx (shape ?nz) idx) = Fin 0 \<longrightarrow>
      tensor_at xt idx =
        fmul (fsqrt (Fin (gathered ?acp (L1 [1, 0]) example_x idx)))
             (tensor_at example_x (bidx (shape example_x) idx))"
    using th r by blast
  have z0: "gathered ?acp (L1 [1, 0]) example_x [0, 0] \<le> 1
      \<and> tensor_at ?nz (bidx (shape ?nz) [0, 0]) = Fin 0 \<longrightarrow>
      tensor_at xt [0, 0] =
        fmul (fsqrt (Fin (gathered ?acp (L1 [1, 0]) example_x [0, 0])))
             (tensor_at example_x (bidx (shape example_x) [0, 0]))"
    using val m0 by blast
  have z1: "gathered ?acp (L1 [1, 0]) example_x [1, 0] \<le> 1
      \<and> tensor_at ?nz (bidx (shape ?nz) [1, 0]) = Fin 0 \<longrightarrow>
      tensor_at xt [1, 0] =
        fmul (fsqrt (Fin (gathered ?acp (L1 [1, 0]) example_x [1, 0])))
             (tensor_at example_x (bidx (shape example_x) [1, 0]))"
    using val m1 by blast
  have v0: "tensor_at xt [0, 0] = Fin (6 / 5)"
    using z0 unfolding g0 by (simp add: sqrt_examples example_x_def tensor_at_def bidx_def)
  have v1: "tensor_at xt [1, 0] = Fin (27 / 5)"
    using z1 unfolding g1 by (simp add: sqrt_examples example_x_def tensor_at_def bidx_def)
  show ?thesis using r sh v0 v1 h by (auto simp: example_facts)
qed

theorem q_sample_forward_counterexample:
  "BaseScheduler 2 (- (1 / 2)) (1 / 2) ''linear'' = Inr negative_beta_scheduler
   \<and> fst (q_sample 0 \<lparr>shape = [1], data = [Fin 4]\<rparr> (L1 [0])
            (Some \<lparr>shape = [1], data = [Fin 0]\<rparr>)
            (example_world\<lparr>w_scheds := \<lambda>a. negative_beta_scheduler\<rparr>))
       = Inr \<lparr>shape = [1], data = [NaN]\<rparr>
   \<and> data (alphas_cumprod negative_beta_scheduler) ! 0 = 3 / 2
   \<and> fmul (fsqrt (Fin (3 / 2))) (Fin 4) \<noteq> NaN"
proof -
  have a: "BaseScheduler 2 (- (1 / 2)) (1 / 2) ''linear'' = Inr negative_beta_scheduler"
    by (simp add: BaseScheduler_def linspace_def ebind_def Let_def rsub_def tmap_def cumprod_def
        numeral_2_eq_2 negative_beta_scheduler_def upto.simps)
  have b: "fst (q_sample 0 \<lparr>shape = [1], data = [Fin 4]\<rparr> (L1 [0])
            (Some \<lparr>shape = [1], data = [Fin 0]\<rparr>)
            (example_world\<lparr>w_scheds := \<lambda>a. negative_beta_scheduler\<rparr>))
       = Inr \<lparr>shape = [1], data = [NaN]\<rparr>"
    by (simp add: q_sample_unfold forward_chain_def self_scheduler_def example_world_def
        negative_beta_scheduler_def extract'_def gather_def ebind_def Let_def tmul_def tadd_def
        binop_def broadcast_shapes_def pad_shape_def tsqrt_def rsubf_def tmap_def tensor_at_def
        bidx_def)
  show ?thesis using a b by (simp add: negative_beta_scheduler_def)
qed

text \<open>
  C2. The timestep is a plain integer (then the batch \<open>[t]\<close> of one) or a tensor;
  \<open>eps_theta\<close> is the network's prediction on \<open>(xt, t)\<close> and \<open>noise\<close> the draw of
  \<^verbatim>\<open>randn_like\<close>, of the shape of \<open>xt\<close> and with finite elements. Whenever \<open>p_sample\<close>
  returns, the network has returned its prediction and the result is, in float arithmetic,
  \<open>(1/sqrt(alpha_t)) * (xt - ((1 - alpha_t)/sqrt(1 - alphas_cumprod_t)) * eps_theta)
  + mask * sqrt(beta_t) * noise\<close> at every index, each operand read at its broadcast
  index, where the mask is \<open>0\<close> exactly where the timestep is \<open>0\<close> and \<open>1\<close> elsewhere.
  Where the timestep is \<open>0\<close> and \<open>beta_t \<ge> 0\<close> the added term is zero and the result is
  the first term; where \<open>alpha_t > 0\<close>, \<open>alphas_cumprod_t < 1\<close>, \<open>beta_t \<ge> 0\<close> and the
  operands are finite the result is the equation in ordinary arithmetic. When every
  timestep is \<open>0\<close> the result is deterministic: \<open>p_sample\<close> returns the same tensor in
  every state in which the module has the same scheduler and network, whatever the
  generator. It returns when the three buffers have \<open>T\<close> entries, \<open>xt\<close> has a leading
  batch dimension \<open>b\<close>, the timesteps lie in \<open>[0, T)\<close> and are one per example or a
  single one, the network has a parameter if the timestep is a plain integer, and the
  network returns a prediction whose shape broadcasts to that of \<open>xt\<close>: then the result
  has the shape of \<open>xt\<close>.
\<close>

theorem p_sample_reverse:
  assumes "s = self_scheduler self w" and "t = as_tensor t0"
    and "noise = fresh_noise (shape xt) w"
  shows "as_tensor (PyInt i) = L1 [i]
    \<and> shape noise = shape xt \<and> (\<forall>v\<in>set (data noise). \<exists>x. v = Fin x)
    \<and> (\<forall>r w'. p_sample self xt t0 w = (Inr r, w') \<longrightarrow>
         (\<exists>eps_theta. net_call (self_network self w) xt t = Inr eps_theta
            \<and> (\<forall>idx\<in>set (indices (shape r)).
                 tensor_at r idx =
                   fadd (posterior_mean (gathered (alphas s) t xt idx)
                           (gathered (alphas_cumprod s) t xt idx)
                           (tensor_at xt (bidx (shape xt) idx))
                           (tensor_at eps_theta (bidx (shape eps_theta) idx)))
                        (added_noise (if lt_list t ! batch_row t xt idx = 0 then 0 else 1)
                           (gathered (betas s) t xt idx)
                           (tensor_at noise (bidx (shape noise) idx)))
               \<and> (lt_list t ! batch_row t xt idx = 0 \<and> 0 \<le> gathered (betas s) t xt idx \<longrightarrow>
                    tensor_at r idx =
                      posterior_mean (gathered (alphas s) t xt idx)
                        (gathered (alphas_cumprod s) t xt idx)
                        (tensor_at xt (bidx (shape xt) idx))
                        (tensor_at eps_theta (bidx (shape eps_theta) idx)))
               \<and> (\<forall>x e n. 0 < gathered (alphas s) t xt idx
                      \<and> gathered (alphas_cumprod s) t xt idx < 1
                      \<and> 0 \<le> gathered (betas s) t xt idx
                      \<and> tensor_at xt (bidx (shape xt) idx) = Fin x
                      \<and> tensor_at eps_theta (bidx (shape eps_theta) idx) = Fin e
                      \<and> tensor_at noise (bidx (shape noise) idx) = Fin n \<longrightarrow>
                    tensor_at r idx =
                      Fin (real_p_sample (gathered (alphas s) t xt idx)
                             (gathered (alphas_cumprod s) t xt idx)
                             (gathered (betas s) t xt idx)
                             (if lt_list t ! batch_row t xt idx = 0 then 0 else 1) x e n)))
            \<and> ((\<forall>j\<in>set (lt_list t). j = 0) \<longrightarrow>
                 (\<forall>w2. self_scheduler self w2 = s
                      \<and> self_network self w2 = self_network self w \<longrightarrow>
                      fst (p_sample self xt t0 w2) = Inr r))))
    \<and> (shape (alphas_cumprod s) = [T] \<and> shape (alphas s) = [T] \<and> shape (betas s) = [T]
        \<and> list_all (\<lambda>j. 0 \<le> j \<and> j < int T) (lt_list t)
        \<and> shape xt = b # ds
        \<and> (length (lt_list t) = b \<or> length (lt_list t) = 1)
        \<and> ((\<exists>j. t0 = PyInt j) \<longrightarrow> has_parameters (self_network self w))
        \<and> net_call (self_network self w) xt t = Inr eps
        \<and> bcast_to (shape eps) (shape xt) \<longrightarrow>
         (\<exists>r w'. p_sample self xt t0 w = (Inr r, w') \<and> shape r = shape xt))"
proof -
  let ?n = "self_network self w"
  have p0: "as_tensor (PyInt i) = L1 [i]" by (simp add: as_tensor_def)
  have p1: "shape noise = shape xt \<and> (\<forall>v\<in>set (data noise). \<exists>x. v = Fin x)"
    by (auto simp: assms(3) fresh_noise_simps)
  have p2: "\<exists>eps_theta. net_call ?n xt t = Inr eps_theta
            \<and> (\<forall>idx\<in>set (indices (shape r)).
                 tensor_at r idx =
                   fadd (posterior_mean (gathered (alphas s) t xt idx)
                           (gathered (alphas_cumprod s) t xt idx)
                           (tensor_at xt (bidx (shape xt) idx))
                           (tensor_at eps_theta (bidx (shape eps_theta) idx)))
                        (added_noise (if lt_list t ! batch_row t xt idx = 0 then 0 else 1)
                           (gathered (betas s) t xt idx)
                           (tensor_at noise (bidx (shape noise) idx)))
               \<and> (lt_list t ! batch_row t xt idx = 0 \<and> 0 \<le> gathered (betas s) t xt idx \<longrightarrow>
                    tensor_at r idx =
                      posterior_mean (gathered (alphas s) t xt idx)
                        (gathered (alphas_cumprod s) t xt idx)
                        (tensor_at xt (bidx (shape xt) idx))
                        (tensor_at eps_theta (bidx (shape eps_theta) idx)))
               \<and> (\<forall>x e n. 0 < gathered (alphas s) t xt idx
                      \<and> gathered (alphas_cumprod s) t xt idx < 1
                      \<and> 0 \<le> gathered (betas s) t xt idx
                      \<and> tensor_at xt (bidx (shape xt) idx) = Fin x
                      \<and> tensor_at eps_theta (bidx (shape eps_theta) idx) = Fin e
                      \<and> tensor_at noise (bidx (shape noise) idx) = Fin n \<longrightarrow>
                    tensor_at r idx =
                      Fin (real_p_sample (gathered (alphas s) t xt idx)
                             (gathered (alphas_cumprod s) t xt idx)
                             (gathered (betas s) t xt idx)
                             (if lt_list t ! batch_row t xt idx = 0 then 0 else 1) x e n)))
            \<and> ((\<forall>j\<in>set (lt_list t). j = 0) \<longrightarrow>
                 (\<forall>w2. self_scheduler self w2 = s
                      \<and> self_network self w2 = self_network self w \<longrightarrow>
                      fst (p_sample self xt t0 w2) = Inr r))"
    if run: "p_sample self xt t0 w = (Inr r, w')" for r w'
  proof -
    have par: "\<not> ((\<exists>j. t0 = PyInt j) \<and> \<not> has_parameters ?n)"
      using run by (auto simp: p_sample_unfold)
    obtain a_t b_t ef where c1: "reverse_factors s t xt = Inr (a_t, b_t, ef)"
      using run par unfolding p_sample_unfold assms(1,2) [symmetric]
      by (cases "reverse_factors s t xt") auto
    obtain eps_theta where e: "net_call ?n xt t = Inr eps_theta"
      using run par c1 unfolding p_sample_unfold assms(1,2) [symmetric]
      by (cases "net_call ?n xt t") auto
    have c2: "reverse_chain t xt a_t b_t ef eps_theta noise = Inr r"
      using run par c1 e unfolding p_sample_unfold assms(1,2,3) [symmetric] by simp
    have v: "tensor_at r idx =
                   fadd (posterior_mean (gathered (alphas s) t xt idx)
                           (gathered (alphas_cumprod s) t xt idx)
                           (tensor_at xt (bidx (shape xt) idx))
                           (tensor_at eps_theta (bidx (shape eps_theta) idx)))
                        (added_noise (if lt_list t ! batch_row t xt idx = 0 then 0 else 1)
                           (gathered (betas s) t xt idx)
                           (tensor_at noise (bidx (shape noise) idx)))"
      if idx: "idx \<in> set (indices (shape r))" for idx
      using p_sample_general(1) [OF c1 [unfolded reverse_factors_def]
          c2 [unfolded reverse_chain_def] idx]
      by (simp add: spec_p_sample_terms spec_mask_def)
    have v0: "tensor_at r idx =
                      posterior_mean (gathered (alphas s) t xt idx)
                        (gathered (alphas_cumprod s) t xt idx)
                        (tensor_at xt (bidx (shape xt) idx))
                        (tensor_at eps_theta (bidx (shape eps_theta) idx))"
      if idx: "idx \<in> set (indices (shape r))"
        and z: "lt_list t ! batch_row t xt idx = 0 \<and> 0 \<le> gathered (betas s) t xt idx" for idx
    proof -
      have "bcast_to (shape noise) (shape r)"
        using p_sample_general(5) [OF c1 [unfolded reverse_factors_def]
          c2 [unfolded reverse_chain_def] idx] .
      then obtain n where "tensor_at noise (bidx (shape noise) idx) = Fin n"
        using fresh_noise_at [of "shape xt" "shape r" idx w] idx
        by (auto simp: assms(3) fresh_noise_simps)
      then show ?thesis using v [OF idx] z by (simp add: added_noise_zero(2))
    qed
    have vf: "tensor_at r idx =
                      Fin (real_p_sample (gathered (alphas s) t xt idx)
                             (gathered (alphas_cumprod s) t xt idx)
                             (gathered (betas s) t xt idx)
                             (if lt_list t ! batch_row t xt idx = 0 then 0 else 1) x e n)"
      if idx: "idx \<in> set (indices (shape r))"
        and f: "0 < gathered (alphas s) t xt idx \<and> gathered (alphas_cumprod s) t xt idx < 1
            \<and> 0 \<le> gathered (betas s) t xt idx
            \<and> tensor_at xt (bidx (shape xt) idx) = Fin x
            \<and> tensor_at eps_theta (bidx (shape eps_theta) idx) = Fin e
            \<and> tensor_at noise (bidx (shape noise) idx) = Fin n" for idx x e n
      using v [OF idx] f
      by (simp add: posterior_mean_def added_noise_def real_p_sample_def)
    have det: "fst (p_sample self xt t0 w2) = Inr r"
      if z: "\<forall>j\<in>set (lt_list t). j = 0"
        and same: "self_scheduler self w2 = s \<and> self_network self w2 = self_network self w"
      for w2
    proof -
      have "reverse_chain t xt a_t b_t ef eps_theta (fresh_noise (shape xt) w2) = Inr r"
        using reverse_chain_deterministic [OF c1 c2 [unfolded assms(3)] z] .
      then show ?thesis
        using par c1 e same unfolding p_sample_unfold [of self xt t0 w2] assms(2) [symmetric]
        by simp
    qed
    show ?thesis using e v v0 vf det by blast
  qed
  have p3: "\<exists>r w'. p_sample self xt t0 w = (Inr r, w') \<and> shape r = shape xt"
    if h: "shape (alphas_cumprod s) = [T]" "shape (alphas s) = [T]" "shape (betas s) = [T]"
      "list_all (\<lambda>j. 0 \<le> j \<and> j < int T) (lt_list t)"
      "shape xt = b # ds" "length (lt_list t) = b \<or> length (lt_list t) = 1"
      "(\<exists>j. t0 = PyInt j) \<longrightarrow> has_parameters ?n"
      "net_call ?n xt t = Inr eps" "bcast_to (shape eps) (shape xt)"
  proof -
    obtain a_t b_t ef where c1: "reverse_factors s t xt = Inr (a_t, b_t, ef)"
      and sh: "shape a_t = col_shape t xt" "shape b_t = col_shape t xt" "shape ef = col_shape t xt"
      using reverse_factors_ok [OF h(1,2,3,4)] by blast
    have nzb: "bcast_to (shape noise) (shape xt)" using p1 by (simp add: bcast_to_refl)
    obtain r where c2: "reverse_chain t xt a_t b_t ef eps noise = Inr r" and rs: "shape r = shape xt"
      using reverse_chain_ok [OF sh col_bcast_to [OF h(5,6)] h(9) nzb] by blast
    have "p_sample self xt t0 w = (Inr r, after_draw (shape xt) w)"
      using h(7,8) c1 c2 unfolding p_sample_unfold assms(1,2,3) [symmetric] by auto
    then show ?thesis using rs by blast
  qed
  show ?thesis using p0 p1 p2 p3 by blast
qed

theorem p_sample_reverse_witness:
  "shape (alphas_cumprod (self_scheduler 0 example_world)) = [2]
   \<and> shape (alphas (self_scheduler 0 example_world)) = [2]
   \<and> shape (betas (self_scheduler 0 example_world)) = [2]
   \<and> list_all (\<lambda>j. 0 \<le> j \<and> j < int 2) (lt_list (as_tensor (PyInt 0)))
   \<and> shape example_x = [2, 1]
   \<and> length (lt_list (as_tensor (PyInt 0))) = 1
   \<and> has_parameters (self_network 0 example_world)
   \<and> net_call (self_network 0 example_world) example_x (as_tensor (PyInt 0))
        = Inr \<lparr>shape = [2, 1], data = [Fin 8, Fin 18]\<rparr>
   \<and> (\<exists>r w'. p_sample 0 example_x (PyInt 0) example_world = (Inr r, w')
        \<and> shape r = [2, 1]
        \<and> tensor_at r [0, 0] = Fin (- 4)
        \<and> tensor_at r [1, 0] = Fin (- 9)
        \<and> fst (p_sample 0 example_x (PyInt 0)
                 (example_world\<lparr>w_rng := \<lparr>normal_src = (\<lambda>k. 7), int_src = (\<lambda>k. 0)\<rparr>\<rparr>)) = Inr r)"
proof -
  let ?s = "self_scheduler 0 example_world"
  let ?t = "as_tensor (PyInt 0)"
  let ?eps = "\<lparr>shape = [2, 1], data = [Fin 8, Fin 18 :: fl]\<rparr>"
  let ?w2 = "example_world\<lparr>w_rng := \<lparr>normal_src = (\<lambda>k. 7), int_src = (\<lambda>k. 0)\<rparr>\<rparr>"
  note th = p_sample_reverse [OF refl refl refl, where self = 0 and w = example_world
      and xt = example_x and ?t0.0 = "PyInt 0" and T = 2 and b = 2 and ds = "[1]" and eps = ?eps
      and i = 0]
  have t: "?t = L1 [0]" by (simp add: as_tensor_def)
  have par: "has_parameters (self_network 0 example_world)"
    by (simp add: has_parameters_def parameters_def example_facts example_net_def)
  have call: "net_call (self_network 0 example_world) example_x ?t = Inr ?eps"
    by (simp add: net_call_def example_facts example_net_def example_x_def tmap_def)
  have h: "shape (alphas_cumprod ?s) = [2] \<and> shape (alphas ?s) = [2] \<and> shape (betas ?s) = [2]
        \<and> list_all (\<lambda>j. 0 \<le> j \<and> j < int 2) (lt_list ?t)
        \<and> shape example_x = [2, 1]
        \<and> (length (lt_list ?t) = 2 \<or> length (lt_list ?t) = 1)
        \<and> ((\<exists>j. PyInt 0 = PyInt j) \<longrightarrow> has_parameters (self_network 0 example_world))
        \<and> net_call (self_network 0 example_world) example_x ?t = Inr ?eps
        \<and> bcast_to (shape ?eps) (shape example_x)"
    using par call by (simp add: example_facts t bcast_to_def)
  obtain r w' where r: "p_sample 0 example_x (PyInt 0) example_world = (Inr r, w')"
    and sh: "shape r = shape example_x"
    using th h by blast
  have idxs: "set (indices (shape example_x)) = {[0, 0], [1, 0]}"
    by (simp add: example_facts numeral_2_eq_2)
  have m0: "[0, 0] \<in> set (indices (shape r))" and m1: "[1, 0] \<in> set (indices (shape r))"
    unfolding sh idxs by simp_all
  have row: "batch_row ?t example_x [0, 0] = 0" "batch_row ?t example_x [1, 0] = 0"
    by (simp_all add: batch_row_def col_shape_def bidx_def t example_facts)
  have g: "gathered (alphas ?s) ?t example_x idx = 9 / 25"
    "gathered (alphas_cumprod ?s) ?t example_x idx = 9 / 25"
    "gathered (betas ?s) ?t example_x idx = 16 / 25"
    "lt_list ?t ! batch_row ?t example_x idx = 0"
    if "idx = [0, 0] \<or> idx = [Suc 0, 0]" for idx
    using that row by (auto simp: gathered_def example_facts example_scheduler_def t)
  obtain eps_theta where e: "net_call (self_network 0 example_world) example_x ?t = Inr eps_theta"
    and val: "\<forall>idx\<in>set (indices (shape r)).
        lt_list ?t ! batch_row ?t example_x idx = 0 \<and> 0 \<le> gathered (betas ?s) ?t example_x idx \<longrightarrow>
        tensor_at r idx =
          posterior_mean (gathered (alphas ?s) ?t example_x idx)
            (gathered (alphas_cumprod ?s) ?t example_x idx)
            (tensor_at example_x (bidx (shape example_x) idx))
            (tensor_at eps_theta (bidx (shape eps_theta) idx))"
    and det: "(\<forall>j\<in>set (lt_list ?t). j = 0) \<longrightarrow>
        (\<forall>w2. self_scheduler 0 w2 = ?s \<and> self_network 0 w2 = self_network 0 example_world \<longrightarrow>
           fst (p_sample 0 example_x (PyInt 0) w2) = Inr r)"
    using th r by blast
  have ee: "eps_theta = ?eps" using e call by simp
  have z0: "tensor_at r [0, 0] =
          posterior_mean (9 / 25) (9 / 25)
            (tensor_at example_x (bidx (shape example_x) [0, 0]))
            (tensor_at ?eps (bidx (shape ?eps) [0, 0]))"
    using bspec [OF val m0] by (simp add: ee g [of "[0, 0]", OF disjI1 [OF refl]])
  have z1: "tensor_at r [1, 0] =
          posterior_mean (9 / 25) (9 / 25)
            (tensor_at example_x (bidx (shape example_x) [1, 0]))
            (tensor_at ?eps (bidx (shape ?eps) [1, 0]))"
    using bspec [OF val m1] by (simp add: ee g [of "[Suc 0, 0]", OF disjI2 [OF refl]])
  have v0: "tensor_at r [0, 0] = Fin (- 4)"
    unfolding z0
    by (simp add: posterior_mean_def sqrt_examples example_x_def tensor_at_def bidx_def)
  have v1: "tensor_at r [1, 0] = Fin (- 9)"
    unfolding z1
    by (simp add: posterior_mean_def sqrt_examples example_x_def tensor_at_def bidx_def)
  have same: "self_scheduler 0 ?w2 = ?s \<and> self_network 0 ?w2 = self_network 0 example_world"
    by (simp add: self_scheduler_def self_network_def)
  have d: "fst (p_sample 0 example_x (PyInt 0) ?w2) = Inr r"
    using det same by (simp add: t)
  show ?thesis using r sh v0 v1 d h par call by (auto simp: example_facts t)
qed

text \<open>
  C9, as amended. Let the data have a leading batch dimension \<open>b\<close> and the timesteps be
  \<open>b\<close> or one in number. \<open>extract\<close> returns the gathered scalars in the shape
  \<open>[len(t), 1, ..., 1]\<close>, which broadcasts to the shape of the data. Whenever \<open>q_sample\<close>
  returns, its result has the shape of \<open>x0\<close> if and only if the shape of the noise
  broadcasts to the shape of \<open>x0\<close>, as it does when the noise is drawn by \<open>q_sample\<close>
  itself. Whenever \<open>p_sample\<close> returns, its result has the shape of \<open>xt\<close> if and only if
  the shape of the network's prediction broadcasts to the shape of \<open>xt\<close>. The
  counterexample shows both conditions at work: for one example of shape \<open>(1, 1)\<close> and one
  timestep, supplied noise of shape \<open>(2, 1)\<close> makes the result of \<open>q_sample\<close> of shape
  \<open>(2, 1)\<close>, and so does a prediction of shape \<open>(2, 1)\<close> for \<open>p_sample\<close>.
\<close>

theorem sample_shapes:
  assumes "shape x = b # ds" and "length (lt_list t) = b \<or> length (lt_list t) = 1"
  shows "(\<forall>buf c. extract' buf t x = Inr c \<longrightarrow>
            shape c = length (lt_list t) # replicate (length ds) 1
          \<and> bcast_to (shape c) (shape x))
    \<and> (\<forall>xt w'. q_sample self x t noise w = (Inr xt, w') \<longrightarrow>
          (shape xt = shape x \<longleftrightarrow> bcast_to (shape (noise_used noise x w)) (shape x)))
    \<and> (\<forall>xt w'. q_sample self x t None w = (Inr xt, w') \<longrightarrow> shape xt = shape x)
    \<and> (\<forall>r w' eps. t = as_tensor t0 \<and> p_sample self x t0 w = (Inr r, w')
            \<and> net_call (self_network self w) x t = Inr eps \<longrightarrow>
          (shape r = shape x \<longleftrightarrow> bcast_to (shape eps) (shape x)))"
proof -
  note col = col_bcast_to [OF assms]
  have e: "shape c = length (lt_list t) # replicate (length ds) 1 \<and> bcast_to (shape c) (shape x)"
    if "extract' buf t x = Inr c" for buf c
    using extract_Inr [OF that] col assms(1) by (simp add: col_shape_def)
  have q: "shape xt = shape x \<longleftrightarrow> bcast_to (shape (noise_used nse x w)) (shape x)"
    if run: "q_sample self x t nse w = (Inr xt, w')" for xt w' nse
  proof -
    have "forward_chain (alphas_cumprod (self_scheduler self w)) t x (noise_used nse x w) = Inr xt"
      using run by (cases nse) (auto simp: q_sample_unfold noise_used_def)
    then show ?thesis using col by (rule forward_chain_shape)
  qed
  have qn: "shape xt = shape x" if run: "q_sample self x t None w = (Inr xt, w')" for xt w'
    using q [OF run] by (simp add: noise_used_def fresh_noise_simps bcast_to_refl)
  have p: "shape r = shape x \<longleftrightarrow> bcast_to (shape eps) (shape x)"
    if h: "t = as_tensor t0" "p_sample self x t0 w = (Inr r, w')"
      "net_call (self_network self w) x t = Inr eps" for r w' eps
  proof
    assume sr: "shape r = shape x"
    obtain a_t b_t ef eps' where
      c: "net_call (self_network self w) x (as_tensor t0) = Inr eps'"
      and ch: "reverse_chain (as_tensor t0) x a_t b_t ef eps' (fresh_noise (shape x) w) = Inr r"
      using p_sample_Inr [OF h(2)] by blast
    have "eps' = eps" using c h(1,3) by simp
    then show "bcast_to (shape eps) (shape x)"
      using reverse_chain_bcast(2) [OF ch] sr by simp
  next
    assume "bcast_to (shape eps) (shape x)"
    then show "shape r = shape x"
      using p_sample_shape [OF h(2) h(3) [unfolded h(1)] _ assms(1)] assms(2) h(1) by simp
  qed
  show ?thesis using e q [of noise] qn p by blast
qed

theorem sample_shapes_witness:
  "shape example_x = [2, 1]
   \<and> length (lt_list (L1 [1, 0])) = 2
   \<and> (\<exists>xt w'. q_sample 0 example_x (L1 [1, 0]) None example_world = (Inr xt, w')
        \<and> shape xt = [2, 1])
   \<and> (\<exists>r w'. p_sample 0 example_x (PyTensor (L1 [1, 0])) example_world = (Inr r, w')
        \<and> net_call (self_network 0 example_world) example_x (L1 [1, 0])
            = Inr \<lparr>shape = [2, 1], data = [Fin 8, Fin 18]\<rparr>
        \<and> bcast_to [2, 1] [2, 1]
        \<and> shape r = [2, 1])"
proof -
  let ?t = "L1 [1, 0]"
  let ?eps = "\<lparr>shape = [2, 1], data = [Fin 8, Fin 18 :: fl]\<rparr>"
  have h1: "shape example_x = [2, 1]" by (simp add: example_facts)
  have h2: "length (lt_list ?t) = 2 \<or> length (lt_list ?t) = 1" by simp
  note th = sample_shapes [OF h1 h2, where self = 0 and w = example_world and noise = None
      and ?t0.0 = "PyTensor ?t"]
  have t: "as_tensor (PyTensor ?t) = ?t" by (simp add: as_tensor_def)
  have rng: "list_all (\<lambda>i. 0 \<le> i \<and> i < int 2) (lt_list ?t)" by simp
  obtain xt w' where q: "q_sample 0 example_x ?t None example_world = (Inr xt, w')"
    using q_sample_ok [of 0 example_world 2 ?t example_x 2 "[1]" None] rng
    by (auto simp: example_facts noise_used_def fresh_noise_simps bcast_to_refl)
  have qs: "shape xt = [2, 1]" using th q h1 by auto
  have call: "net_call (self_network 0 example_world) example_x ?t = Inr ?eps"
    by (simp add: net_call_def example_facts example_net_def example_x_def tmap_def)
  have be: "bcast_to (shape ?eps) (shape example_x)" by (simp add: example_facts bcast_to_refl)
  obtain r w2 where p: "p_sample 0 example_x (PyTensor ?t) example_world = (Inr r, w2)"
    using p_sample_ok [of 0 example_world 2 "PyTensor ?t" example_x 2 "[1]" ?eps] rng call be
    by (auto simp: example_facts t)
  have "shape r = shape example_x \<longleftrightarrow> bcast_to (shape ?eps) (shape example_x)"
    using th [THEN conjunct2, THEN conjunct2, THEN conjunct2, rule_format, of r w2 ?eps]
      t [symmetric] p call by blast
  then have ps: "shape r = [2, 1]" using be h1 by simp
  show ?thesis using h1 q qs p ps call be by (auto simp: example_facts)
qed

theorem sample_shapes_counterexample:
  "length (lt_list (L1 [0])) = hd (shape \<lparr>shape = [1, 1], data = [Fin 4]\<rparr>)
   \<and> map_sum id shape (fst (q_sample 0 \<lparr>shape = [1, 1], data = [Fin 4]\<rparr> (L1 [0])
          (Some \<lparr>shape = [2, 1], data = [Fin 0, Fin 0]\<rparr>) example_world)) = Inr [2, 1]
   \<and> map_sum id shape (fst (p_sample 0 \<lparr>shape = [1, 1], data = [Fin 4]\<rparr> (PyTensor (L1 [0]))
          (example_world\<lparr>w_nets := \<lambda>a. widening_net\<rparr>))) = Inr [2, 1]
   \<and> [2, 1] \<noteq> shape \<lparr>shape = [1, 1], data = [Fin 4 :: fl]\<rparr>"
proof -
  have q: "map_sum id shape (fst (q_sample 0 \<lparr>shape = [1, 1], data = [Fin 4]\<rparr> (L1 [0])
          (Some \<lparr>shape = [2, 1], data = [Fin 0, Fin 0]\<rparr>) example_world)) = Inr [2, 1]"
    by (simp add: q_sample_unfold forward_chain_def self_scheduler_def example_world_def
        example_scheduler_def extract'_def gather_def ebind_def Let_def tmul_def tadd_def
        binop_def broadcast_shapes_def pad_shape_def tsqrt_def rsubf_def tmap_def)
  have p: "map_sum id shape (fst (p_sample 0 \<lparr>shape = [1, 1], data = [Fin 4]\<rparr> (PyTensor (L1 [0]))
          (example_world\<lparr>w_nets := \<lambda>a. widening_net\<rparr>))) = Inr [2, 1]"
    by (simp add: p_sample_unfold reverse_factors_def reverse_chain_def as_tensor_def
        self_scheduler_def self_network_def example_world_def example_scheduler_def
        widening_net_def net_call_def nonzero_mask_def fresh_noise_simps
        extract'_def gather_def ebind_def Let_def tmul_def tadd_def tsub_def tdiv_def
        binop_def broadcast_shapes_def pad_shape_def tsqrt_def rsubf_def rdivf_def tmap_def)
  show ?thesis using q p by simp
qed

text \<open>
  C3. \<open>p_sample_loop\<close> draws standard-normal noise of the requested shape and reads the
  module's device, which raises \<^verbatim>\<open>StopIteration\<close> when the network has no parameter.
  Otherwise it applies \<open>p_sample\<close> at the timesteps \<open>T-1, T-2, ..., 0\<close> in this order,
  once each (\<open>T\<close> steps, the \<open>k\<close>-th at timestep \<open>T-1-k\<close>), each step on the result of
  the step before, and returns what the last step returns; an exception of a step is the
  only way to stop early. Whenever it returns for the shape \<open>(N, 2)\<close> with a network
  that keeps shapes, the result has the shape \<open>(N, 2)\<close>. With a scheduler of \<open>T\<close>
  entries and a network that has a parameter, always returns and keeps shapes, it
  returns for every requested shape, and the result has the requested shape when that
  has a leading dimension.
\<close>

theorem p_sample_loop_steps:
  assumes "num_train_timesteps (self_scheduler self w) = T" and "n = self_network self w"
  shows "p_sample_loop self shp w =
          (if has_parameters n
           then run_steps self (rev (map int [0..<nat T])) (fresh_noise shp w) (after_draw shp w)
           else (Inl StopIteration, after_draw shp w))
       \<and> shape (fresh_noise shp w) = shp
       \<and> length (rev (map int [0..<nat T])) = nat T
       \<and> (\<forall>k<nat T. rev (map int [0..<nat T]) ! k = T - 1 - int k)
       \<and> (\<forall>r w'. p_sample_loop self [N, 2] w = (Inr r, w') \<and> shape_preserving n
             \<longrightarrow> shape r = [N, 2])
       \<and> (has_parameters n
           \<and> shape (alphas_cumprod (self_scheduler self w)) = [nat T]
           \<and> shape (alphas (self_scheduler self w)) = [nat T]
           \<and> shape (betas (self_scheduler self w)) = [nat T]
           \<and> always_returns n \<and> shape_preserving n
          \<longrightarrow> (\<exists>r w'. p_sample_loop self shp w = (Inr r, w')
                \<and> (shp \<noteq> [] \<longrightarrow> shape r = shp)))"
proof -
  let ?ts = "rev (map int [0..<nat T])"
  have a: "p_sample_loop self s w =
          (if has_parameters n
           then run_steps self ?ts (fresh_noise s w) (after_draw s w)
           else (Inl StopIteration, after_draw s w))" for s
    using assms by (simp add: p_sample_loop_eq)
  have b: "\<forall>k<nat T. ?ts ! k = T - 1 - int k"
    using descending_nth [of _ "nat T"] by auto
  have c: "shape (fresh_noise shp w) = shp" by (simp add: fresh_noise_simps)
  have d: "shape r = [N, 2]"
    if h: "p_sample_loop self [N, 2] w = (Inr r, w')" "shape_preserving n" for r w'
  proof -
    have par: "has_parameters n" using h(1) a [of "[N, 2]"] by (auto split: if_splits)
    then have run: "run_steps self ?ts (fresh_noise [N, 2] w) (after_draw [N, 2] w) = (Inr r, w')"
      using h(1) a [of "[N, 2]"] by simp
    have sp: "shape_preserving (self_network self (after_draw [N, 2] w))"
      using h(2) assms(2) by simp
    show ?thesis
      using run_steps_shape [OF run sp, of N "[2]"] by (simp add: fresh_noise_simps)
  qed
  have e: "\<exists>r w'. p_sample_loop self shp w = (Inr r, w') \<and> (shp \<noteq> [] \<longrightarrow> shape r = shp)"
    if h: "has_parameters n"
      "shape (alphas_cumprod (self_scheduler self w)) = [nat T]"
      "shape (alphas (self_scheduler self w)) = [nat T]"
      "shape (betas (self_scheduler self w)) = [nat T]"
      "always_returns n" "shape_preserving n"
  proof -
    let ?w = "after_draw shp w"
    have rng: "list_all (\<lambda>j. 0 \<le> j \<and> j < int (nat T)) ?ts" by (auto simp: list_all_iff)
    obtain r w' where "run_steps self ?ts (fresh_noise shp w) ?w = (Inr r, w')"
      "shape (fresh_noise shp w) \<noteq> [] \<longrightarrow> shape r = shape (fresh_noise shp w)"
      using run_steps_ok [of self ?w "nat T" ?ts "fresh_noise shp w"] h rng assms(2) by auto
    then show ?thesis using a [of shp] h(1) by (auto simp: fresh_noise_simps)
  qed
  have len: "length ?ts = nat T" by simp
  show ?thesis using a [of shp] b c d e len by blast
qed

theorem p_sample_loop_steps_witness:
  "num_train_timesteps (self_scheduler 0 example_world) = 2
   \<and> has_parameters (self_network 0 example_world)
   \<and> shape (alphas_cumprod (self_scheduler 0 example_world)) = [nat 2]
   \<and> shape (alphas (self_scheduler 0 example_world)) = [nat 2]
   \<and> shape (betas (self_scheduler 0 example_world)) = [nat 2]
   \<and> always_returns (self_network 0 example_world)
   \<and> shape_preserving (self_network 0 example_world)
   \<and> p_sample_loop 0 [3, 2] example_world =
       run_steps 0 [1, 0] (fresh_noise [3, 2] example_world) (after_draw [3, 2] example_world)
   \<and> (\<exists>r w'. p_sample_loop 0 [3, 2] example_world = (Inr r, w') \<and> shape r = [3, 2])"
proof -
  let ?n = "self_network 0 example_world"
  have h0: "num_train_timesteps (self_scheduler 0 example_world) = 2"
    by (simp add: example_facts)
  note th = p_sample_loop_steps [OF h0 refl, where shp = "[3, 2]" and N = 3]
  have par: "has_parameters ?n"
    by (simp add: has_parameters_def parameters_def example_facts example_net_def)
  have ar: "always_returns ?n"
    by (simp add: always_returns_def net_call_def example_facts example_net_def)
  have sp: "shape_preserving ?n"
    by (auto simp: shape_preserving_def net_call_def example_facts example_net_def tmap_def)
  have bufs: "shape (alphas_cumprod (self_scheduler 0 example_world)) = [nat 2]"
    "shape (alphas (self_scheduler 0 example_world)) = [nat 2]"
    "shape (betas (self_scheduler 0 example_world)) = [nat 2]"
    by (simp_all add: example_facts)
  have ts: "rev (map int [0..<nat 2]) = [1, 0]" by (simp add: numeral_2_eq_2)
  have eq: "p_sample_loop 0 [3, 2] example_world =
       run_steps 0 [1, 0] (fresh_noise [3, 2] example_world) (after_draw [3, 2] example_world)"
    using th par unfolding ts by simp
  obtain r w' where r: "p_sample_loop 0 [3, 2] example_world = (Inr r, w')"
    and "[3, 2] \<noteq> ([] :: nat list) \<longrightarrow> shape r = [3, 2]"
    using th par bufs ar sp by blast
  then have "shape r = [3, 2]" by simp
  then show ?thesis using h0 par bufs ar sp eq r by blast
qed

text \<open>
  C7. Whenever \<open>compute_loss\<close> returns, \<open>x0\<close> has a leading batch dimension \<open>B\<close>; the
  timesteps are the \<open>B\<close> integers that \<^verbatim>\<open>randint\<close> draws, each in \<open>[0, T)\<close> and each from
  its own element of the generator's sequence; the noise is the draw of \<^verbatim>\<open>randn_like\<close>
  that follows, of the shape of \<open>x0\<close>; \<open>xt\<close> is what \<open>q_sample\<close> returns for them, of the
  shape of \<open>x0\<close>, with \<open>xt = sqrt(alphas_cumprod[t_b]) * x0 + sqrt(1 - alphas_cumprod[t_b])
  * noise\<close> at every index, \<open>b\<close> being the leading index; the prediction is what the
  network returns on \<open>(xt, t)\<close>; and the result is \<^verbatim>\<open>mse_loss\<close> of the prediction and
  the noise, a zero-dimensional tensor, which for a prediction of the shape of the noise
  holds the mean of the squared differences (NaN over no element). \<open>compute_loss\<close>
  returns when \<open>T > 0\<close>, the scheduler's \<open>alphas_cumprod\<close> has \<open>T\<close> entries, \<open>x0\<close> has a
  leading batch dimension and the network always returns and keeps shapes.
\<close>

theorem compute_loss_mse:
  assumes "s = self_scheduler self w" and "T = num_train_timesteps s"
  shows "(\<forall>loss w'. compute_loss self x0 w = (Inr loss, w') \<longrightarrow>
           (\<exists>B rest t noise xt pred_noise.
               shape x0 = B # rest
             \<and> t = drawn_timesteps T B w \<and> length t = B \<and> list_all (\<lambda>i. 0 \<le> i \<and> i < T) t
             \<and> noise = fresh_noise (shape x0) (after_randint B w) \<and> shape noise = shape x0
             \<and> fst (q_sample self x0 (L1 t) (Some noise) w) = Inr xt
             \<and> shape xt = shape x0
             \<and> (\<forall>idx\<in>set (indices (shape x0)).
                  tensor_at xt idx =
                    fadd (fmul (fsqrt (Fin (data (alphas_cumprod s) ! nat (t ! hd idx))))
                               (tensor_at x0 idx))
                         (fmul (fsqrt (Fin (1 - data (alphas_cumprod s) ! nat (t ! hd idx))))
                               (tensor_at noise idx)))
             \<and> net_call (self_network self w) xt (L1 t) = Inr pred_noise
             \<and> mse_loss pred_noise noise = Inr loss
             \<and> shape loss = []
             \<and> (shape pred_noise = shape noise \<longrightarrow> data loss = [spec_mse pred_noise noise])))
    \<and> (0 < T \<and> shape (alphas_cumprod s) = [nat T] \<and> shape x0 = B0 # rest0
        \<and> always_returns (self_network self w) \<and> shape_preserving (self_network self w)
        \<longrightarrow> (\<exists>loss w'. compute_loss self x0 w = (Inr loss, w')))"
proof -
  let ?acp = "alphas_cumprod s"
  let ?n = "self_network self w"
  have unfold: "compute_loss self x0 w =
     (let t = drawn_timesteps T B w; w1 = after_randint B w;
          noise = fresh_noise (shape x0) w1; w2 = after_draw (shape x0) w1
      in if T \<le> 0 then (Inl RuntimeError, w)
         else case forward_chain ?acp (L1 t) x0 noise of
                 Inl e \<Rightarrow> (Inl e, w2)
               | Inr xt \<Rightarrow>
                   (case net_call ?n xt (L1 t) of
                      Inl e \<Rightarrow> (Inl e, w2)
                    | Inr pred_noise \<Rightarrow> (mse_loss pred_noise noise, w2)))"
    if "shape x0 = B # rest" for B rest
    using that by (simp add: compute_loss_unfold assms Let_def)
  have p1: "\<exists>B rest t noise xt pred_noise.
               shape x0 = B # rest
             \<and> t = drawn_timesteps T B w \<and> length t = B \<and> list_all (\<lambda>i. 0 \<le> i \<and> i < T) t
             \<and> noise = fresh_noise (shape x0) (after_randint B w) \<and> shape noise = shape x0
             \<and> fst (q_sample self x0 (L1 t) (Some noise) w) = Inr xt
             \<and> shape xt = shape x0
             \<and> (\<forall>idx\<in>set (indices (shape x0)).
                  tensor_at xt idx =
                    fadd (fmul (fsqrt (Fin (data ?acp ! nat (t ! hd idx)))) (tensor_at x0 idx))
                         (fmul (fsqrt (Fin (1 - data ?acp ! nat (t ! hd idx))))
                               (tensor_at noise idx)))
             \<and> net_call ?n xt (L1 t) = Inr pred_noise
             \<and> mse_loss pred_noise noise = Inr loss
             \<and> shape loss = []
             \<and> (shape pred_noise = shape noise \<longrightarrow> data loss = [spec_mse pred_noise noise])"
    if run: "compute_loss self x0 w = (Inr loss, w')" for loss w'
  proof -
    obtain B rest where x: "shape x0 = B # rest"
      using run by (cases "shape x0") (simp_all add: compute_loss_unfold)
    let ?t = "drawn_timesteps T B w"
    let ?noise = "fresh_noise (shape x0) (after_randint B w)"
    note u = unfold [OF x]
    have T: "0 < T" using run u by (auto simp: Let_def split: if_splits)
    obtain xt where fc: "forward_chain ?acp (L1 ?t) x0 ?noise = Inr xt"
      using run u T by (cases "forward_chain ?acp (L1 ?t) x0 ?noise") (auto simp: Let_def)
    obtain pred where call: "net_call ?n xt (L1 ?t) = Inr pred"
      using run u T fc by (cases "net_call ?n xt (L1 ?t)") (auto simp: Let_def)
    have mse: "mse_loss pred ?noise = Inr loss"
      using run u T fc call by (simp add: Let_def)
    have len: "length ?t = B" and rng: "list_all (\<lambda>i. 0 \<le> i \<and> i < T) ?t"
      using drawn_timesteps_range [OF T, of B w] by simp_all
    have ns: "shape ?noise = shape x0" by (simp add: fresh_noise_simps)
    have col: "bcast_to (col_shape (L1 ?t) x0) (shape x0)"
      using col_bcast_to [OF x, of "L1 ?t"] len by simp
    have xs: "shape xt = shape x0"
      using forward_chain_shape [OF fc col] ns by (simp add: bcast_to_refl)
    have q: "fst (q_sample self x0 (L1 ?t) (Some ?noise) w) = Inr xt"
      using fc by (simp add: q_sample_unfold assms)
    have v: "tensor_at xt idx =
                    fadd (fmul (fsqrt (Fin (data ?acp ! nat (?t ! hd idx)))) (tensor_at x0 idx))
                         (fmul (fsqrt (Fin (1 - data ?acp ! nat (?t ! hd idx))))
                               (tensor_at ?noise idx))"
      if idx: "idx \<in> set (indices (shape x0))" for idx
    proof -
      have idx': "idx \<in> set (indices (shape xt))" using idx xs by simp
      have idx'': "idx \<in> set (indices (B # rest))" using idx x by simp
      have row: "batch_row (L1 ?t) x0 idx = hd idx"
        using batch_row_full [OF x idx'', of "L1 ?t"] len by simp
      have b: "bidx (shape x0) idx = idx" "bidx (shape ?noise) idx = idx"
        using idx by (simp_all add: ns bidx_same)
      show ?thesis
        using q_sample_general(1) [OF fc [unfolded forward_chain_def] idx']
        by (simp add: spec_q_sample_def gathered_def row b)
    qed
    have ls: "shape loss = []" using mse by (auto simp: mse_loss_def ebind_Inr_iff)
    have same: "data loss = [spec_mse pred ?noise]" if "shape pred = shape ?noise"
      using mse mse_loss_same [OF that] by auto
    show ?thesis using x len rng ns q xs v call mse ls same by blast
  qed
  have p2: "\<exists>loss w'. compute_loss self x0 w = (Inr loss, w')"
    if h: "0 < T" "shape ?acp = [nat T]" "shape x0 = B0 # rest0"
      "always_returns ?n" "shape_preserving ?n"
  proof -
    let ?t = "drawn_timesteps T B0 w"
    let ?noise = "fresh_noise (shape x0) (after_randint B0 w)"
    have len: "length ?t = B0" and rng: "list_all (\<lambda>i. 0 \<le> i \<and> i < T) ?t"
      using drawn_timesteps_range [OF h(1), of B0 w] by simp_all
    have rng': "list_all (\<lambda>i. 0 \<le> i \<and> i < int (nat T)) (lt_list (L1 ?t))"
      using rng h(1) by simp
    have col: "bcast_to (col_shape (L1 ?t) x0) (shape x0)"
      using col_bcast_to [OF h(3), of "L1 ?t"] len by simp
    have nb: "bcast_to (shape ?noise) (shape x0)" by (simp add: fresh_noise_simps bcast_to_refl)
    obtain xt where fc: "forward_chain ?acp (L1 ?t) x0 ?noise = Inr xt" and xs: "shape xt = shape x0"
      using forward_chain_ok [OF h(2) rng' col nb] by blast
    obtain pred where call: "net_call ?n xt (L1 ?t) = Inr pred"
      using h(4) by (auto simp: always_returns_def)
    have "shape pred = shape ?noise"
      using h(5) call xs by (auto simp: shape_preserving_def fresh_noise_simps)
    then obtain loss where "mse_loss pred ?noise = Inr loss" using mse_loss_same by blast
    then show ?thesis using unfold [OF h(3)] h(1) fc call by (simp add: Let_def)
  qed
  show ?thesis using p1 p2 by blast
qed

theorem compute_loss_mse_witness:
  "fst (compute_loss 0 example_x quiet_world) = Inr \<lparr>shape = [], data = [Fin (261 / 10)]\<rparr>
   \<and> (\<exists>B rest t noise xt pred_noise.
         shape example_x = B # rest
       \<and> t = drawn_timesteps 2 B quiet_world \<and> length t = B
       \<and> noise = fresh_noise (shape example_x) (after_randint B quiet_world)
       \<and> fst (q_sample 0 example_x (L1 t) (Some noise) quiet_world) = Inr xt
       \<and> tensor_at xt [0, 0] =
            fadd (fmul (fsqrt (Fin (data (alphas_cumprod example_scheduler) ! nat (t ! 0))))
                       (tensor_at example_x [0, 0]))
                 (fmul (fsqrt (Fin (1 - data (alphas_cumprod example_scheduler) ! nat (t ! 0))))
                       (tensor_at noise [0, 0]))
       \<and> net_call example_net xt (L1 t) = Inr pred_noise
       \<and> mse_loss pred_noise noise = Inr \<lparr>shape = [], data = [Fin (261 / 10)]\<rparr>)
   \<and> 0 < num_train_timesteps (self_scheduler 0 quiet_world)
   \<and> shape (alphas_cumprod (self_scheduler 0 quiet_world)) = [nat 2]
   \<and> shape example_x = [2, 1]
   \<and> always_returns (self_network 0 quiet_world)
   \<and> shape_preserving (self_network 0 quiet_world)"
proof -
  let ?L = "\<lparr>shape = [], data = [Fin (261 / 10)]\<rparr>"
  have s: "self_scheduler 0 quiet_world = example_scheduler"
    "self_network 0 quiet_world = example_net"
    by (simp_all add: quiet_world_def example_world_def self_scheduler_def self_network_def)
  have T: "num_train_timesteps (self_scheduler 0 quiet_world) = 2"
    by (simp add: s example_facts)
  note th = compute_loss_mse [OF refl refl, where self = 0 and w = quiet_world
      and ?x0.0 = example_x and ?B0.0 = 2 and ?rest0.0 = "[1]", unfolded T]
  have rngq: "w_rng quiet_world = \<lparr>normal_src = (\<lambda>i. 0), int_src = (\<lambda>i. i)\<rparr>"
    by (simp add: quiet_world_def)
  have ev: "fst (compute_loss 0 example_x quiet_world) = Inr ?L"
    unfolding compute_loss_unfold s
    by (simp add: example_scheduler_def example_x_def example_net_def
        drawn_timesteps_def after_randint_def fresh_noise_def draw_normal_def rngq
        Let_def forward_chain_def extract'_def gather_def ebind_def tmul_def
        tadd_def binop_def broadcast_shapes_def pad_shape_def tsqrt_def rsubf_def tmap_def
        tensor_at_def bidx_def net_call_def mse_loss_def fsum_def sqrt_examples numeral_2_eq_2)
  then obtain w' where run: "compute_loss 0 example_x quiet_world = (Inr ?L, w')"
    by (cases "compute_loss 0 example_x quiet_world") auto
  obtain B rest t noise xt pred_noise where f:
    "shape example_x = B # rest" "t = drawn_timesteps 2 B quiet_world" "length t = B"
    "noise = fresh_noise (shape example_x) (after_randint B quiet_world)"
    "fst (q_sample 0 example_x (L1 t) (Some noise) quiet_world) = Inr xt"
    "\<forall>idx\<in>set (indices (shape example_x)).
        tensor_at xt idx =
          fadd (fmul (fsqrt (Fin (data (alphas_cumprod (self_scheduler 0 quiet_world)) ! nat (t ! hd idx))))
                     (tensor_at example_x idx))
               (fmul (fsqrt (Fin (1 - data (alphas_cumprod (self_scheduler 0 quiet_world)) ! nat (t ! hd idx))))
                     (tensor_at noise idx))"
    "net_call (self_network 0 quiet_world) xt (L1 t) = Inr pred_noise"
    "mse_loss pred_noise noise = Inr ?L"
    using th [THEN conjunct1, rule_format, OF run] by blast
  have m0: "[0, 0] \<in> set (indices (shape example_x))" by (simp add: example_facts)
  have v0: "tensor_at xt [0, 0] =
            fadd (fmul (fsqrt (Fin (data (alphas_cumprod example_scheduler) ! nat (t ! 0))))
                       (tensor_at example_x [0, 0]))
                 (fmul (fsqrt (Fin (1 - data (alphas_cumprod example_scheduler) ! nat (t ! 0))))
                       (tensor_at noise [0, 0]))"
    using bspec [OF f(6) m0] by (simp add: s)
  have ar: "always_returns (self_network 0 quiet_world)"
    by (simp add: always_returns_def net_call_def s example_net_def)
  have sp: "shape_preserving (self_network 0 quiet_world)"
    by (auto simp: shape_preserving_def net_call_def s example_net_def tmap_def)
  have ex: "\<exists>loss w'. compute_loss 0 example_x quiet_world = (Inr loss, w')"
    using th ar sp by (simp add: s example_facts)
  have "\<exists>B rest t noise xt pred_noise.
         shape example_x = B # rest
       \<and> t = drawn_timesteps 2 B quiet_world \<and> length t = B
       \<and> noise = fresh_noise (shape example_x) (after_randint B quiet_world)
       \<and> fst (q_sample 0 example_x (L1 t) (Some noise) quiet_world) = Inr xt
       \<and> tensor_at xt [0, 0] =
            fadd (fmul (fsqrt (Fin (data (alphas_cumprod example_scheduler) ! nat (t ! 0))))
                       (tensor_at example_x [0, 0]))
                 (fmul (fsqrt (Fin (1 - data (alphas_cumprod example_scheduler) ! nat (t ! 0))))
                       (tensor_at noise [0, 0]))
       \<and> net_call example_net xt (L1 t) = Inr pred_noise
       \<and> mse_loss pred_noise noise = Inr ?L"
    using f(1,2,3,4,5) v0 f(7) [unfolded s] f(8) by blast
  then show ?thesis using ev ar sp T by (simp add: s example_facts)
qed

end
